(* ===== verification/Fleet_Prelude.thy ===== *)
theory Fleet_Prelude
  imports Main "HOL-Library.Sublist" "HOL-Library.More_List" "HOL-Library.List_Lexorder"
    "HOL-Library.Char_ord" "HOL-Library.AList" "HOL-Library.Product_Lexorder"
begin

text \<open>
  Shared vocabulary of the development.

  A SQLite table is a list of rows in rowid order (\<open>'r table\<close>). The statements the
  program issues are the four operations \<open>select_where\<close>, \<open>fetch_one\<close>, \<open>update_where\<close>
  and \<open>delete_where\<close>; \<open>rowcount\<close> is what the cursor reports after an update or a delete.
  Keys (the \<open>PRIMARY KEY\<close> columns) are a function of the row, and \<open>keys_distinct\<close> is the
  constraint the database enforces for them.

  Timestamps are seconds since the epoch, because the program only ever compares them or adds
  a number of seconds to the current time. SQLite represents no date after
  9999-12-31 23:59:59: \<open>datetime('now', '+N seconds')\<close> is \<open>NULL\<close> beyond it.
\<close>

section \<open>Lemma collections\<close>

named_theorems table_simps \<open>rewriting of reads after writes on tables\<close>
named_theorems wf_intros \<open>preservation of the database invariant\<close>

section \<open>Tables\<close>

type_synonym 'r table = "'r list"
type_synonym timestamp = int

definition select_where :: "('r \<Rightarrow> bool) \<Rightarrow> 'r table \<Rightarrow> 'r list" where
  "select_where P t = filter P t"

definition fetch_one :: "('r \<Rightarrow> bool) \<Rightarrow> 'r table \<Rightarrow> 'r option" where
  "fetch_one P t = List.find P t"

definition update_where :: "('r \<Rightarrow> bool) \<Rightarrow> ('r \<Rightarrow> 'r) \<Rightarrow> 'r table \<Rightarrow> 'r table" where
  "update_where P f t = map (\<lambda>r. if P r then f r else r) t"

definition delete_where :: "('r \<Rightarrow> bool) \<Rightarrow> 'r table \<Rightarrow> 'r table" where
  "delete_where P t = filter (\<lambda>r. \<not> P r) t"

definition rowcount :: "('r \<Rightarrow> bool) \<Rightarrow> 'r table \<Rightarrow> nat" where
  "rowcount P t = length (filter P t)"

definition keys_distinct :: "('r \<Rightarrow> 'k) \<Rightarrow> 'r table \<Rightarrow> bool" where
  "keys_distinct k t \<longleftrightarrow> distinct (map k t)"

definition replace_row :: "('r \<Rightarrow> 'k) \<Rightarrow> 'r \<Rightarrow> 'r table \<Rightarrow> 'r table" where
  \<comment> \<open>\<open>INSERT OR REPLACE\<close>: the old row goes, the new one gets the next rowid.\<close>
  "replace_row k r t = delete_where (\<lambda>x. k x = k r) t @ [r]"

lemma rowcount_pos [simp]: "0 < rowcount P t \<longleftrightarrow> (\<exists>r \<in> set t. P r)"
  by (auto simp: rowcount_def filter_empty_conv)

lemma rowcount_zero: "rowcount P t = 0 \<longleftrightarrow> (\<forall>r \<in> set t. \<not> P r)"
  by (auto simp: rowcount_def filter_empty_conv)

lemma fetch_one_None: "fetch_one P t = None \<longleftrightarrow> (\<forall>r \<in> set t. \<not> P r)"
  by (auto simp: fetch_one_def find_None_iff)

lemma fetch_one_SomeD: "fetch_one P t = Some r \<Longrightarrow> r \<in> set t \<and> P r"
  by (auto simp: fetch_one_def find_Some_iff)

lemma find_SomeD: "List.find P xs = Some x \<Longrightarrow> x \<in> set xs \<and> P x"
  by (auto simp: find_Some_iff)

lemma fetch_one_Nil [simp]: "fetch_one P [] = None"
  by (simp add: fetch_one_def)

lemma fetch_one_Cons [simp]:
  "fetch_one P (r # t) = (if P r then Some r else fetch_one P t)"
  by (simp add: fetch_one_def)

lemma fetch_one_append:
  "fetch_one P (s @ t) = (case fetch_one P s of None \<Rightarrow> fetch_one P t | Some r \<Rightarrow> Some r)"
  by (induction s) auto

lemma fetch_one_eq:
  assumes "keys_distinct k t" and "r \<in> set t" and "k r = c"
  shows "fetch_one (\<lambda>x. k x = c) t = Some r"
  using assms by (induction t) (auto simp: keys_distinct_def)

lemma fetch_one_update_where:
  assumes "\<And>r. P r \<Longrightarrow> Q (f r) = Q r"
  shows "fetch_one Q (update_where P f t)
       = map_option (\<lambda>r. if P r then f r else r) (fetch_one Q t)"
  using assms by (induction t) (auto simp: update_where_def)

lemma fetch_one_update_kill:
  assumes "\<And>r. P r \<Longrightarrow> \<not> Q (f r)"
  shows "fetch_one Q (update_where P f t) = fetch_one (\<lambda>r. Q r \<and> \<not> P r) t"
  using assms by (induction t) (auto simp: update_where_def)

lemma fetch_one_cong:
  "(\<And>r. r \<in> set t \<Longrightarrow> P r = Q r) \<Longrightarrow> fetch_one P t = fetch_one Q t"
  by (induction t) auto

lemma fetch_one_delete_other:
  assumes "\<And>r. Q r \<Longrightarrow> \<not> P r"
  shows "fetch_one Q (delete_where P t) = fetch_one Q t"
  using assms by (induction t) (auto simp: delete_where_def)

lemma fetch_one_delete_same: "fetch_one P (delete_where P t) = None"
  by (auto simp: delete_where_def fetch_one_None)

lemma fetch_one_replace:
  "fetch_one (\<lambda>x. k x = c) (replace_row k r t)
   = (if k r = c then Some r else fetch_one (\<lambda>x. k x = c) t)"
proof (cases "k r = c")
  case True
  then have "fetch_one (\<lambda>x. k x = c) (delete_where (\<lambda>x. k x = k r) t) = None"
    by (auto simp: delete_where_def fetch_one_None)
  with True show ?thesis by (simp add: replace_row_def fetch_one_append)
next
  case False
  then have "fetch_one (\<lambda>x. k x = c) (delete_where (\<lambda>x. k x = k r) t)
           = fetch_one (\<lambda>x. k x = c) t"
    by (intro fetch_one_delete_other) auto
  with False show ?thesis
    by (simp add: replace_row_def fetch_one_append split: option.split)
qed

lemma set_update_where: "set (update_where P f t) = f ` {r \<in> set t. P r} \<union> {r \<in> set t. \<not> P r}"
  by (auto simp: update_where_def)

lemma update_where_memD: "r \<in> set (update_where P f t) \<Longrightarrow> \<exists>x \<in> set t. r = (if P x then f x else x)"
  unfolding update_where_def set_map by (erule imageE) blast

lemma set_delete_where [simp]: "set (delete_where P t) = {r \<in> set t. \<not> P r}"
  by (auto simp: delete_where_def)

lemma map_update_where:
  "(\<And>r. P r \<Longrightarrow> k (f r) = k r) \<Longrightarrow> map k (update_where P f t) = map k t"
  by (induction t) (auto simp: update_where_def)

lemma update_where_Nil [simp]: "update_where P f [] = []"
  by (simp add: update_where_def)

lemma update_where_id: "(\<And>r. r \<in> set t \<Longrightarrow> \<not> P r) \<Longrightarrow> update_where P f t = t"
  by (induction t) (auto simp: update_where_def)

lemma select_update_where:
  "(\<And>r. P r \<Longrightarrow> Q (f r) = Q r) \<Longrightarrow>
   select_where Q (update_where P f t) = update_where P f (select_where Q t)"
  by (induction t) (auto simp: select_where_def update_where_def)

lemma set_select_where [simp]: "set (select_where Q t) = {r \<in> set t. Q r}"
  by (auto simp: select_where_def)

lemma select_where_append: "select_where Q (s @ t) = select_where Q s @ select_where Q t"
  by (simp add: select_where_def)

lemma last_update_where:
  "t \<noteq> [] \<Longrightarrow> last (update_where P f t) = (if P (last t) then f (last t) else last t)"
  by (simp add: update_where_def last_map)

lemma update_where_empty [simp]: "update_where P f t = [] \<longleftrightarrow> t = []"
  by (simp add: update_where_def)

lemma length_update_where [simp]: "length (update_where P f t) = length t"
  by (simp add: update_where_def)

lemma keys_distinct_update:
  "(\<And>r. P r \<Longrightarrow> k (f r) = k r) \<Longrightarrow> keys_distinct k (update_where P f t) = keys_distinct k t"
  by (simp add: keys_distinct_def map_update_where)

lemma keys_distinct_delete: "keys_distinct k t \<Longrightarrow> keys_distinct k (delete_where P t)"
  by (simp add: keys_distinct_def delete_where_def distinct_map_filter)

lemma keys_distinct_replace: "keys_distinct k t \<Longrightarrow> keys_distinct k (replace_row k r t)"
  by (auto simp: keys_distinct_def replace_row_def delete_where_def distinct_map_filter)

lemma keys_distinctD:
  "keys_distinct k t \<Longrightarrow> r \<in> set t \<Longrightarrow> s \<in> set t \<Longrightarrow> k r = k s \<Longrightarrow> r = s"
  by (auto simp: keys_distinct_def distinct_map inj_on_def)

lemma map_replace_row:
  "k ` set (replace_row k r t) = insert (k r) (k ` set t)"
  by (auto simp: replace_row_def)

definition order_by :: "('r \<Rightarrow> 'k::linorder) \<Rightarrow> 'r list \<Rightarrow> 'r list" where
  "order_by k rows = sort_key k rows"

definition sql_limit :: "int \<Rightarrow> 'r list \<Rightarrow> 'r list" where
  \<comment> \<open>a negative \<open>LIMIT\<close> is no limit\<close>
  "sql_limit n rows = (if n < 0 then rows else take (nat n) rows)"

definition last_by :: "('r \<Rightarrow> 'k::linorder) \<Rightarrow> 'r list \<Rightarrow> 'r option" where
  \<comment> \<open>\<open>ORDER BY k DESC LIMIT 1\<close>\<close>
  "last_by k rows = (let sorted_rows = order_by k rows in
     if sorted_rows = [] then None else Some (last sorted_rows))"

lemma set_order_by [simp]: "set (order_by k rows) = set rows"
  by (simp add: order_by_def)

lemma length_order_by [simp]: "length (order_by k rows) = length rows"
  by (simp add: order_by_def)

lemma sorted_order_by [simp]: "sorted (map k (order_by k rows))"
  by (simp add: order_by_def)

lemma set_sql_limit: "set (sql_limit n rows) \<subseteq> set rows"
  by (auto simp: sql_limit_def dest: in_set_takeD)

lemma order_by_sorted: "sorted (map k rows) \<Longrightarrow> order_by k rows = rows"
  by (induction rows) (auto simp: order_by_def insort_is_Cons)

lemma order_by_empty [simp]: "order_by k rows = [] \<longleftrightarrow> rows = []"
  by (metis length_0_conv length_order_by)

lemma last_by_sorted: "sorted (map k rows) \<Longrightarrow> rows \<noteq> [] \<Longrightarrow> last_by k rows = Some (last rows)"
  by (simp add: last_by_def order_by_sorted)

lemma last_by_None [simp]: "last_by k rows = None \<longleftrightarrow> rows = []"
  by (simp add: last_by_def Let_def)

lemma last_by_Nil [simp]: "last_by k [] = None"
  by simp

lemma last_by_single [simp]: "last_by k [r] = Some r"
  by (simp add: last_by_def order_by_def)

lemma last_by_SomeD: "last_by k rows = Some r \<Longrightarrow> r \<in> set rows"
  using last_in_set [of "order_by k rows"] by (auto simp: last_by_def Let_def split: if_splits)

lemmas table_sets = set_update_where set_delete_where map_replace_row

section \<open>Time\<close>

definition max_datetime :: timestamp where
  "max_datetime = 253402300799"

definition datetime_plus :: "timestamp \<Rightarrow> int \<Rightarrow> timestamp option" where
  \<comment> \<open>\<open>datetime('now', '+N seconds')\<close>\<close>
  "datetime_plus now n = (if now + n \<le> max_datetime then Some (now + n) else None)"

lemma datetime_plus_Some: "now + n \<le> max_datetime \<Longrightarrow> datetime_plus now n = Some (now + n)"
  by (simp add: datetime_plus_def)

section \<open>Python values\<close>

text \<open>
  Python's \<open>x or y\<close> on strings and optional strings: the empty string and \<open>None\<close> are falsy.
\<close>

definition str_or :: "string \<Rightarrow> string \<Rightarrow> string" where
  "str_or x y = (if x = '''' then y else x)"

definition opt_str :: "string option \<Rightarrow> string" where
  \<comment> \<open>\<open>value or ""\<close>\<close>
  "opt_str x = (case x of None \<Rightarrow> '''' | Some s \<Rightarrow> s)"

definition none_if_empty :: "string \<Rightarrow> string option" where
  \<comment> \<open>\<open>value or None\<close>\<close>
  "none_if_empty s = (if s = '''' then None else Some s)"

definition truthy :: "string option \<Rightarrow> bool" where
  "truthy x \<longleftrightarrow> x \<noteq> None \<and> x \<noteq> Some ''''"

lemma none_if_empty_Some [simp]: "none_if_empty s = Some t \<longleftrightarrow> s = t \<and> t \<noteq> ''''"
  by (auto simp: none_if_empty_def)

lemma none_if_empty_None [simp]: "none_if_empty s = None \<longleftrightarrow> s = ''''"
  by (simp add: none_if_empty_def)

text \<open>Exceptions the modelled code raises or lets through.\<close>

datatype exn =
    ValueError string
  | IntegrityError
  | OperationalError
  | RuntimeError string
  | AssertionError

type_synonym 'a result = "exn + 'a"

definition is_ok :: "'a result \<Rightarrow> bool" where
  "is_ok r \<longleftrightarrow> (case r of Inl _ \<Rightarrow> False | Inr _ \<Rightarrow> True)"

lemma is_ok_simps [simp]: "is_ok (Inr x)" "\<not> is_ok (Inl e)"
  by (simp_all add: is_ok_def)

text \<open>A Python dictionary is an association list; storing an existing key keeps its place.\<close>

type_synonym 'v pydict = "(string \<times> 'v) list"

abbreviation dict_get :: "'v pydict \<Rightarrow> string \<Rightarrow> 'v option" where
  "dict_get \<equiv> map_of"

abbreviation dict_set :: "string \<Rightarrow> 'v \<Rightarrow> 'v pydict \<Rightarrow> 'v pydict" where
  "dict_set \<equiv> AList.update"

fun dict_update :: "'v pydict \<Rightarrow> 'v pydict \<Rightarrow> 'v pydict" where
  "dict_update d [] = d"
| "dict_update d ((k, v) # es) = dict_update (dict_set k v d) es"

lemma dict_get_update:
  "distinct (map fst es) \<Longrightarrow>
   dict_get (dict_update d es) k = (case dict_get es k of None \<Rightarrow> dict_get d k | Some v \<Rightarrow> Some v)"
proof (induction es arbitrary: d)
  case Nil
  then show ?case by simp
next
  case (Cons e es)
  obtain j v where e: "e = (j, v)" by force
  from Cons.prems e have fresh: "dict_get es j = None" by (auto simp: map_of_eq_None_iff)
  from Cons e have "dict_get (dict_update d (e # es)) k
    = (case dict_get es k of None \<Rightarrow> dict_get (dict_set j v d) k | Some w \<Rightarrow> Some w)"
    by simp
  with e fresh show ?case by (auto simp: AList.update_conv' split: option.splits)
qed

end
