(* ===== verification/Py_Strings.thy ===== *)
theory Py_Strings
  imports Fleet_Prelude
begin

text \<open>
  The \<open>str\<close> operations the program uses. A string is a list of 8-bit characters, read as
  Latin-1 code points; the classes below (\<open>py_space\<close>, \<open>py_alnum\<close>, \<open>py_line_break\<close>,
  \<open>py_lower_char\<close>) are Python's classes on those code points. Two literals of the sources hold
  one character outside Latin-1 each: the em dash and the ellipsis, which stand here as the
  single characters \<open>CHR 0x97\<close> and \<open>CHR 0x85\<close>, so that lengths agree.
\<close>

section \<open>Character classes\<close>

definition code :: "char \<Rightarrow> nat" where
  "code c = of_char c"

definition py_space :: "char \<Rightarrow> bool" where
  "py_space c \<longleftrightarrow> (let n = code c in 9 \<le> n \<and> n \<le> 13 \<or> 28 \<le> n \<and> n \<le> 32 \<or> n = 133 \<or> n = 160)"

definition py_line_break :: "char \<Rightarrow> bool" where
  "py_line_break c \<longleftrightarrow> (let n = code c in 10 \<le> n \<and> n \<le> 13 \<or> 28 \<le> n \<and> n \<le> 30 \<or> n = 133)"

definition py_digit :: "char \<Rightarrow> bool" where
  "py_digit c \<longleftrightarrow> (let n = code c in 48 \<le> n \<and> n \<le> 57)"

definition ascii_lower :: "char \<Rightarrow> bool" where
  "ascii_lower c \<longleftrightarrow> (let n = code c in 97 \<le> n \<and> n \<le> 122)"

definition ascii_upper :: "char \<Rightarrow> bool" where
  "ascii_upper c \<longleftrightarrow> (let n = code c in 65 \<le> n \<and> n \<le> 90)"

definition slug_char :: "char \<Rightarrow> bool" where
  "slug_char c \<longleftrightarrow> ascii_lower c \<or> py_digit c"

definition py_alnum :: "char \<Rightarrow> bool" where
  "py_alnum c \<longleftrightarrow> py_digit c \<or> ascii_lower c \<or> ascii_upper c \<or>
     (let n = code c in n \<in> {170, 178, 179, 181, 185, 186, 188, 189, 190} \<or>
        192 \<le> n \<and> n \<noteq> 215 \<and> n \<noteq> 247)"

definition py_word_char :: "char \<Rightarrow> bool" where
  "py_word_char c \<longleftrightarrow> py_alnum c \<or> c = CHR ''_''"

definition py_lower_char :: "char \<Rightarrow> char" where
  "py_lower_char c =
     (let n = code c in
      if 65 \<le> n \<and> n \<le> 90 \<or> 192 \<le> n \<and> n \<le> 222 \<and> n \<noteq> 215 then char_of (n + 32) else c)"

definition hex_lower :: "char \<Rightarrow> bool" where
  "hex_lower c \<longleftrightarrow> py_digit c \<or> (let n = code c in 97 \<le> n \<and> n \<le> 102)"

lemma code_bound: "code c < 256"
  by (simp add: code_def)

lemma code_char_of: "n < 256 \<Longrightarrow> code (char_of n) = n"
  by (simp add: code_def)

lemma code_inject: "code c = code d \<longleftrightarrow> c = d"
  by (metis char_of_char code_def)

lemma py_lower_char_code:
  "code (py_lower_char c) = (let n = code c in
     if 65 \<le> n \<and> n \<le> 90 \<or> 192 \<le> n \<and> n \<le> 222 \<and> n \<noteq> 215 then n + 32 else n)"
  by (auto simp: py_lower_char_def Let_def code_char_of)

lemma py_lower_char_idem [simp]: "py_lower_char (py_lower_char c) = py_lower_char c"
proof -
  have "code (py_lower_char (py_lower_char c)) = code (py_lower_char c)"
    unfolding py_lower_char_code [of "py_lower_char c"] by (auto simp: py_lower_char_code Let_def)
  then show ?thesis by (simp add: code_inject)
qed

lemma line_break_space: "py_line_break c \<Longrightarrow> py_space c"
  by (auto simp: py_line_break_def py_space_def Let_def)

lemma alnum_not_space: "py_alnum c \<Longrightarrow> \<not> py_space c"
  by (auto simp: py_alnum_def py_space_def py_digit_def ascii_lower_def ascii_upper_def Let_def)

section \<open>Operations\<close>

definition lower :: "string \<Rightarrow> string" where
  "lower s = map py_lower_char s"

definition lstrip :: "string \<Rightarrow> string" where
  "lstrip s = dropWhile py_space s"

definition rstrip :: "string \<Rightarrow> string" where
  "rstrip s = strip_while py_space s"

definition strip :: "string \<Rightarrow> string" where
  "strip s = rstrip (lstrip s)"

definition rstrip_char :: "char \<Rightarrow> string \<Rightarrow> string" where
  "rstrip_char d s = strip_while (\<lambda>c. c = d) s"

definition lstrip_char :: "char \<Rightarrow> string \<Rightarrow> string" where
  "lstrip_char d s = dropWhile (\<lambda>c. c = d) s"

definition replace_char :: "char \<Rightarrow> char \<Rightarrow> string \<Rightarrow> string" where
  "replace_char a b s = map (\<lambda>c. if c = a then b else c) s"

definition isalnum :: "string \<Rightarrow> bool" where
  "isalnum s \<longleftrightarrow> s \<noteq> [] \<and> (\<forall>c \<in> set s. py_alnum c)"

definition startswith :: "string \<Rightarrow> string \<Rightarrow> bool" where
  "startswith s p \<longleftrightarrow> take (length p) s = p"

definition removeprefix :: "string \<Rightarrow> string \<Rightarrow> string" where
  "removeprefix s p = (if startswith s p then drop (length p) s else s)"

fun join :: "string \<Rightarrow> string list \<Rightarrow> string" where
  "join sep [] = []"
| "join sep [s] = s"
| "join sep (s # t # ts) = s @ sep @ join sep (t # ts)"

fun split_char :: "char \<Rightarrow> string \<Rightarrow> string list" where
  "split_char d [] = [[]]"
| "split_char d (c # cs) =
     (if c = d then [] # split_char d cs
      else (case split_char d cs of [] \<Rightarrow> [[c]] | w # ws \<Rightarrow> (c # w) # ws))"

function words :: "string \<Rightarrow> string list" where
  "words s = (case dropWhile py_space s of
       [] \<Rightarrow> []
     | c # cs \<Rightarrow> takeWhile (\<lambda>x. \<not> py_space x) (c # cs) # words (dropWhile (\<lambda>x. \<not> py_space x) (c # cs)))"
  by pat_completeness auto
termination
proof (relation "measure length")
  fix s c cs assume "dropWhile py_space s = c # cs"
  then have "\<not> py_space c" by (simp add: dropWhile_eq_Cons_conv)
  moreover have "length (c # cs) \<le> length s"
    using \<open>dropWhile py_space s = c # cs\<close> length_dropWhile_le by metis
  moreover have "length (dropWhile (\<lambda>x. \<not> py_space x) cs) \<le> length cs"
    by (rule length_dropWhile_le)
  ultimately show "(dropWhile (\<lambda>x. \<not> py_space x) (c # cs), s) \<in> measure length" by simp
qed simp

declare words.simps [simp del]

fun splitlines_acc :: "string \<Rightarrow> string \<Rightarrow> string list" where
  \<comment> \<open>the current line is kept in reverse; \<open>\r\n\<close> is one line break\<close>
  "splitlines_acc [] cur = (if cur = [] then [] else [rev cur])"
| "splitlines_acc (c # cs) cur =
     (if c = CHR 0x0D then
        (case cs of
           [] \<Rightarrow> [rev cur]
         | d # ds \<Rightarrow> rev cur # (if d = CHR 0x0A then splitlines_acc ds [] else splitlines_acc (d # ds) []))
      else if py_line_break c then rev cur # splitlines_acc cs []
      else splitlines_acc cs (c # cur))"

definition splitlines :: "string \<Rightarrow> string list" where
  "splitlines s = splitlines_acc s []"

fun find_split :: "string \<Rightarrow> string \<Rightarrow> (string \<times> string) option" where
  \<comment> \<open>\<open>str.partition\<close>: the text before and after the first occurrence\<close>
  "find_split sep [] = (if sep = [] then Some ([], []) else None)"
| "find_split sep (c # cs) =
     (if startswith (c # cs) sep then Some ([], drop (length sep) (c # cs))
      else map_option (\<lambda>(a, b). (c # a, b)) (find_split sep cs))"

fun rfind_split :: "string \<Rightarrow> string \<Rightarrow> (string \<times> string) option" where
  \<comment> \<open>\<open>str.rpartition\<close>: the text before and after the last occurrence\<close>
  "rfind_split sep [] = (if sep = [] then Some ([], []) else None)"
| "rfind_split sep (c # cs) =
     (case rfind_split sep cs of
        Some (a, b) \<Rightarrow> Some (c # a, b)
      | None \<Rightarrow> (if startswith (c # cs) sep then Some ([], drop (length sep) (c # cs)) else None))"

definition contains_str :: "string \<Rightarrow> string \<Rightarrow> bool" where
  "contains_str sub s \<longleftrightarrow> find_split sub s \<noteq> None"

fun str_of_nat :: "nat \<Rightarrow> string" where
  "str_of_nat n = (if n < 10 then [char_of (48 + n)] else str_of_nat (n div 10) @ [char_of (48 + n mod 10)])"

declare str_of_nat.simps [simp del]

definition str_of_int :: "int \<Rightarrow> string" where
  "str_of_int i = (if i < 0 then ''-'' @ str_of_nat (nat (- i)) else str_of_nat (nat i))"

definition hex_digit :: "nat \<Rightarrow> char" where
  "hex_digit n = (if n < 10 then char_of (48 + n) else char_of (87 + n))"

definition repr_char :: "char \<Rightarrow> char \<Rightarrow> string" where
  "repr_char quote c =
     (let n = code c in
      if c = quote \<or> n = 92 then [CHR 0x5C, c]
      else if n = 10 then [CHR 0x5C, CHR ''n'']
      else if n = 13 then [CHR 0x5C, CHR ''r'']
      else if n = 9 then [CHR 0x5C, CHR ''t'']
      else if n < 32 \<or> 127 \<le> n \<and> n \<le> 160 \<or> n = 173
        then [CHR 0x5C, CHR ''x'', hex_digit (n div 16), hex_digit (n mod 16)]
      else [c])"

definition py_repr :: "string \<Rightarrow> string" where
  \<comment> \<open>\<open>repr\<close> of a string: single quotes, unless it holds one and no double quote\<close>
  "py_repr s =
     (let quote = (if CHR 0x27 \<in> set s \<and> CHR 0x22 \<notin> set s then CHR 0x22 else CHR 0x27)
      in quote # concat (map (repr_char quote) s) @ [quote])"

section \<open>Numbers in text\<close>

definition digits_value :: "string \<Rightarrow> int" where
  "digits_value s = fold (\<lambda>c n. 10 * n + int (code c - 48)) s 0"

definition int_of_str :: "string \<Rightarrow> int option" where
  \<comment> \<open>\<open>int(s)\<close>: white space, a sign, digits with single underscores between them\<close>
  "int_of_str s =
     (let t = strip s;
          negative = startswith t ''-'';
          u = (if negative \<or> startswith t ''+'' then tl t else t);
          groups = split_char (CHR ''_'') u
      in if List.list_all (\<lambda>g. g \<noteq> [] \<and> List.list_all py_digit g) groups
         then Some (if negative then - digits_value (concat groups) else digits_value (concat groups)) else None)"

section \<open>Lemmas\<close>

lemma strip_Nil [simp]: "strip [] = []"
  by (simp add: strip_def lstrip_def rstrip_def)

lemma rstrip_lstrip_commute: "dropWhile P (strip_while P s) = strip_while P (dropWhile P s)"
proof (induction s rule: rev_induct)
  case Nil
  then show ?case by simp
next
  case (snoc c s)
  show ?case
  proof (cases "P c")
    case True
    with snoc show ?thesis
      by (cases "\<forall>x \<in> set s. P x") (auto simp: dropWhile_append dropWhile_eq_Nil_conv[THEN iffD2])
  next
    case False
    then show ?thesis by (cases "\<forall>x \<in> set s. P x") (auto simp: dropWhile_append)
  qed
qed

lemma strip_idem [simp]: "strip (strip s) = strip s"
  by (simp add: strip_def lstrip_def rstrip_def rstrip_lstrip_commute [symmetric])

lemma strip_no_space: "(\<And>c. c \<in> set s \<Longrightarrow> \<not> py_space c) \<Longrightarrow> strip s = s"
proof -
  assume s: "\<And>c. c \<in> set s \<Longrightarrow> \<not> py_space c"
  then have "dropWhile py_space s = s" by (cases s) auto
  moreover have "\<not> py_space c" if "rev s = c # cs" for c cs
    using s [of c] that by (metis list.set_intros(1) set_rev)
  then have "dropWhile py_space (rev s) = rev s" by (cases "rev s") auto
  ultimately show "strip s = s" by (simp add: strip_def lstrip_def rstrip_def strip_while_def)
qed

lemma set_strip: "set (strip s) \<subseteq> set s"
proof -
  have "set (strip_while P t) \<subseteq> set t" for P :: "char \<Rightarrow> bool" and t
    by (auto simp: strip_while_def dest: set_dropWhileD)
  then show ?thesis
    unfolding strip_def lstrip_def rstrip_def by (meson set_dropWhileD subset_eq)
qed

lemma startswith_append [simp]: "startswith (p @ s) p"
  by (simp add: startswith_def)

lemma startswith_iff: "startswith s p \<longleftrightarrow> (\<exists>t. s = p @ t)"
  by (metis append_take_drop_id startswith_append startswith_def)

lemma startswith_Nil [simp]: "startswith s []"
  by (simp add: startswith_def)

lemma removeprefix_append [simp]: "removeprefix (p @ s) p = s"
  by (simp add: removeprefix_def)

lemma split_char_nonempty [simp]: "split_char d s \<noteq> []"
  by (induction s) (auto split: list.split)

lemma join_Cons: "join sep (s # ts) = (if ts = [] then s else s @ sep @ join sep ts)"
  by (cases ts) auto

lemma split_char_no_sep: "d \<notin> set s \<Longrightarrow> split_char d s = [s]"
  by (induction s) auto

lemma split_char_append: "d \<notin> set s \<Longrightarrow> split_char d (s @ d # t) = s # split_char d t"
  by (induction s) auto

lemma split_join:
  "ws \<noteq> [] \<Longrightarrow> \<forall>w \<in> set ws. d \<notin> set w \<Longrightarrow> split_char d (join [d] ws) = ws"
proof (induction ws)
  case Nil
  then show ?case by simp
next
  case (Cons w ws)
  then show ?case
    by (cases ws) (auto simp: split_char_no_sep split_char_append)
qed

lemma join_split: "join [d] (split_char d s) = s"
proof (induction s)
  case Nil
  then show ?case by simp
next
  case (Cons c s)
  then show ?case by (cases "split_char d s") (auto simp: join_Cons split: if_splits)
qed

lemma find_split_Some:
  "find_split sep s = Some (a, b) \<Longrightarrow> s = a @ sep @ b"
proof (induction s arbitrary: a)
  case Nil
  then show ?case by (auto split: if_splits)
next
  case (Cons c cs)
  then show ?case
    by (auto simp: startswith_def split: if_splits) (metis append_take_drop_id)
qed

lemma rfind_split_Some:
  "rfind_split sep s = Some (a, b) \<Longrightarrow> s = a @ sep @ b"
proof (induction s arbitrary: a b)
  case Nil
  then show ?case by (auto split: if_splits)
next
  case (Cons c cs)
  then show ?case
    by (auto simp: startswith_def split: if_splits option.splits) (metis append_take_drop_id)
qed

lemma find_split_None: "find_split sep s = None \<Longrightarrow> s \<noteq> a @ sep @ b"
proof (induction s arbitrary: a)
  case Nil
  then show ?case by (auto split: if_splits)
next
  case (Cons c cs)
  show ?case
  proof (cases a)
    case Nil
    with Cons.prems show ?thesis by (auto simp: startswith_iff split: if_splits)
  next
    case (Cons x xs)
    with Cons.IH Cons.prems show ?thesis by (auto split: if_splits)
  qed
qed

lemma contains_str_iff: "contains_str sub s \<longleftrightarrow> (\<exists>a b. s = a @ sub @ b)"
  unfolding contains_str_def
  by (metis find_split_None find_split_Some option.exhaust prod.exhaust option.distinct(1))

section \<open>Lines\<close>

definition newline :: char where "newline = CHR 0x0A"

definition unlines :: "string list \<Rightarrow> string" where
  "unlines ls = concat (map (\<lambda>l. l @ [newline]) ls)"

lemma unlines_simps [simp]: "unlines [] = []" "unlines (l # ls) = l @ newline # unlines ls"
  by (simp_all add: unlines_def)

lemma join_unlines: "ms \<noteq> [] \<Longrightarrow> join [newline] (ls @ ms) = unlines ls @ join [newline] ms"
  by (induction ls) (auto simp: join_Cons)

lemma newline_break [simp]: "py_line_break newline" "py_space newline"
  by (simp_all add: newline_def py_line_break_def py_space_def code_def)

definition one_line :: "string \<Rightarrow> bool" where
  "one_line s \<longleftrightarrow> (\<forall>c \<in> set s. \<not> py_line_break c)"

lemma one_line_Nil [simp]: "one_line []"
  by (simp add: one_line_def)

lemma carriage_break: "py_line_break (CHR 0x0D)"
  by code_simp

lemma one_lineD: "one_line s \<Longrightarrow> newline \<notin> set s" "one_line s \<Longrightarrow> CHR 0x0D \<notin> set s"
  unfolding one_line_def using carriage_break newline_break(1) by metis+

lemma splitlines_acc_line:
  "one_line l \<Longrightarrow> splitlines_acc (l @ newline # t) cur = (rev cur @ l) # splitlines_acc t []"
proof (induction l arbitrary: cur)
  case Nil
  then show ?case by (simp add: newline_def py_line_break_def code_def)
next
  case (Cons c l)
  from Cons.prems have "\<not> py_line_break c" "one_line l" by (simp_all add: one_line_def)
  moreover from this have "c \<noteq> CHR 0x0D" using carriage_break by metis
  ultimately show ?case using Cons.IH [of "c # cur"] by simp
qed

lemma splitlines_unlines: "\<forall>l \<in> set ls. one_line l \<Longrightarrow> splitlines (unlines ls) = ls"
  by (induction ls) (simp_all add: splitlines_def splitlines_acc_line)

lemma splitlines_acc_one_line:
  "\<forall>c \<in> set cur. \<not> py_line_break c \<Longrightarrow> \<forall>w \<in> set (splitlines_acc s cur). one_line w"
proof (induction s arbitrary: cur rule: length_induct)
  case (1 s)
  then have IH: "\<And>t k. length t < length s \<Longrightarrow> \<forall>c \<in> set k. \<not> py_line_break c \<Longrightarrow>
      \<forall>w \<in> set (splitlines_acc t k). one_line w" by blast
  have cur: "one_line (rev cur)" using "1.prems" by (simp add: one_line_def)
  show ?case
  proof (cases s)
    case Nil
    with cur show ?thesis by simp
  next
    case (Cons c cs)
    show ?thesis
    proof (cases "c = CHR 0x0D")
      case True
      show ?thesis
      proof (cases cs)
        case Nil
        with True Cons cur show ?thesis by simp
      next
        case (Cons d ds)
        with True \<open>s = c # cs\<close> cur IH [of ds "[]"] IH [of cs "[]"] show ?thesis by simp
      qed
    next
      case False
      with Cons cur "1.prems" IH [of cs "[]"] IH [of cs "c # cur"] show ?thesis by simp
    qed
  qed
qed

lemma splitlines_one_line: "w \<in> set (splitlines s) \<Longrightarrow> one_line w"
  using splitlines_acc_one_line [of "[]" s] by (simp add: splitlines_def)

lemma join_newline: "ws \<noteq> [] \<Longrightarrow> join [newline] ws @ [newline] = unlines ws"
  by (induction ws) (auto simp: join_Cons)

end
