(* ===== verification/Grub_Template.thy ===== *)
theory Grub_Template
  imports Py_Strings
begin

text \<open>
  The boot configuration of a machine: \<open>src/fleetboot/tftp_glue/grub_template.py\<close>, which writes it, and
  \<open>src/fleetboot/reporter/cmdline.py\<close>, which reads the kernel command line in the booted image.
  \<open>ClientIdentity\<close> is a class of the TFTP server's package; the template uses three of its fields.

  \<open>urlparse\<close> is the one of \<open>urllib.parse\<close>, as far as \<open>scheme\<close>, \<open>netloc\<close> and \<open>path\<close> go. A bracketed IPv6
  host counts as malformed here.
\<close>

section \<open>Addresses\<close>

record parsed_url =
  url_scheme :: string
  url_netloc :: string
  url_path :: string

definition scheme_char :: "char \<Rightarrow> bool" where
  "scheme_char c \<longleftrightarrow> ascii_lower c \<or> ascii_upper c \<or> py_digit c \<or> c \<in> {CHR ''+'', CHR ''-'', CHR ''.''}"

definition before :: "char set \<Rightarrow> string \<Rightarrow> string" where
  \<comment> \<open>up to the first of these characters\<close>
  "before cs s = takeWhile (\<lambda>c. c \<notin> cs) s"

definition split_scheme :: "string \<Rightarrow> string \<times> string" where
  "split_scheme url =
     (let s = before {CHR '':''} url in
      if length s < length url \<and> s \<noteq> [] \<and> (ascii_lower (hd s) \<or> ascii_upper (hd s)) \<and> (\<forall>c \<in> set s. scheme_char c)
      then (lower s, drop (Suc (length s)) url) else ([], url))"

definition split_netloc :: "string \<Rightarrow> string \<times> string" where
  "split_netloc url =
     (if startswith url ''//''
      then (let n = before {CHR ''/'', CHR ''?'', CHR ''#''} (drop 2 url) in (n, drop (length n + 2) url))
      else ([], url))"

definition without_params :: "string \<Rightarrow> string" where
  \<comment> \<open>\<open>_splitparams\<close>: what follows a \<open>;\<close> in the last segment is no path\<close>
  "without_params p =
     (case rfind_split ''/'' p of
        None \<Rightarrow> before {CHR '';''} p
      | Some (a, b) \<Rightarrow> a @ ''/'' @ before {CHR '';''} b)"

definition urlparse :: "string \<Rightarrow> parsed_url result" where
  "urlparse given =
     (let url = filter (\<lambda>c. c \<notin> {CHR 0x09, CHR 0x0A, CHR 0x0D}) (dropWhile (\<lambda>c. code c \<le> 32) given);
          (scheme, rest) = split_scheme url;
          (netloc, tail) = split_netloc rest
      in if CHR ''['' \<in> set netloc \<or> CHR '']'' \<in> set netloc then Inl (ValueError ''Invalid IPv6 URL'')
         else Inr \<lparr>url_scheme = scheme, url_netloc = netloc,
                url_path = without_params (before {CHR ''?''} (before {CHR ''#''} tail))\<rparr>)"

section \<open>The template\<close>

record ClientIdentity =
  asserted_mac :: string
  id_architecture :: string
  id_platform :: string

definition ARCH_TO_DEBIAN :: "(string \<times> string) list" where
  "ARCH_TO_DEBIAN = [(''x86_64'', ''amd64''), (''arm64'', ''arm64''), (''i386'', ''i386'')]"

definition squashfs_filename_for :: "string \<Rightarrow> string \<Rightarrow> string result" where
  "squashfs_filename_for arch profile = (case map_of ARCH_TO_DEBIAN arch of
     None \<Rightarrow> Inl (ValueError (''unsupported architecture: '' @ py_repr arch))
   | Some debian_arch \<Rightarrow>
       if profile = [] \<or> \<not> isalnum (filter (\<lambda>c. c \<noteq> CHR ''-'') profile)
       then Inl (ValueError (''unsupported profile name: '' @ py_repr profile))
       else Inr (''fleetboot-'' @ profile @ ''-'' @ debian_arch @ ''.squashfs''))"

definition grub_dev :: string where
  "grub_dev = ''(tftp,${pxe_default_server})''"

definition base_of :: "parsed_url \<Rightarrow> string" where
  \<comment> \<open>\<open>{parsed.scheme}://{host_port}{base_path}\<close>\<close>
  "base_of u = url_scheme u @ ''://'' @ url_netloc u @ rstrip_char (CHR ''/'') (url_path u)"

definition cmdline_parts :: "parsed_url \<Rightarrow> string \<Rightarrow> string \<Rightarrow> bool \<Rightarrow> string \<Rightarrow> string list" where
  "cmdline_parts u boot_token squashfs serial scratch =
     [''boot=live'', ''fetch='' @ base_of u @ ''/boot/'' @ boot_token @ ''/'' @ squashfs, ''ip=dhcp'',
      ''fleetboot.server='' @ base_of u @ ''/'', ''fleetboot.boot_token='' @ boot_token,
      ''fleetboot.scratch='' @ scratch]
     @ (if serial then [''console=tty0'', ''console=ttyS0,115200n8''] else [''quiet''])"

definition kernel_cmdline :: "parsed_url \<Rightarrow> string \<Rightarrow> string \<Rightarrow> bool \<Rightarrow> string \<Rightarrow> string" where
  "kernel_cmdline u boot_token squashfs serial scratch = join '' '' (cmdline_parts u boot_token squashfs serial scratch)"

definition quoted_echo :: "string \<Rightarrow> string" where
  "quoted_echo s = ''echo '' @ [CHR 0x22] @ ''fleetboot: '' @ s @ [CHR 0x22, newline]"

definition event_path :: "string \<Rightarrow> string \<Rightarrow> string" where
  "event_path boot_token state = ''/grub-event/'' @ boot_token @ ''/'' @ state"

definition event_line :: "string \<Rightarrow> string \<Rightarrow> string" where
  \<comment> \<open>\<open>_event(state)\<close>\<close>
  "event_line boot_token state = ''source '' @ grub_dev @ event_path boot_token state @ [newline]"

definition serial_prelude :: "bool \<Rightarrow> string" where
  "serial_prelude serial = (if serial then unlines [''serial --unit=0 --speed=115200'', ''terminal_input --append serial'',
     ''terminal_output --append serial''] else [])"

definition config_text :: "ClientIdentity \<Rightarrow> string \<Rightarrow> string \<Rightarrow> bool \<Rightarrow> string" where
  "config_text identity boot_token cmdline serial =
     ''set timeout=0'' @ [newline] @ serial_prelude serial
     @ quoted_echo (''booting '' @ asserted_mac identity @ '' '' @ id_architecture identity @ ''/'' @ id_platform identity)
     @ quoted_echo ''> grub_running event'' @ event_line boot_token ''grub_running''
     @ quoted_echo ''> linux kernel'' @ ''linux '' @ grub_dev @ ''/vmlinuz '' @ cmdline @ [newline]
     @ quoted_echo ''> kernel_loaded event'' @ event_line boot_token ''kernel_loaded''
     @ quoted_echo ''> initrd'' @ ''initrd '' @ grub_dev @ ''/initrd.img'' @ [newline]
     @ quoted_echo ''> initrd_loaded event'' @ event_line boot_token ''initrd_loaded''
     @ quoted_echo ''> booting_kernel event'' @ event_line boot_token ''booting_kernel''
     @ quoted_echo ''handing off to kernel'' @ ''boot'' @ [newline]"

definition render_grub_cfg ::
  "ClientIdentity \<Rightarrow> string \<Rightarrow> string \<Rightarrow> string \<Rightarrow> bool \<Rightarrow> string option \<Rightarrow> string \<Rightarrow> string result" where
  "render_grub_cfg identity base_url boot_token profile serial target scratch = (case urlparse base_url of
     Inl e \<Rightarrow> Inl e
   | Inr u \<Rightarrow>
       if url_scheme u \<notin> {''http'', ''https''}
       then Inl (ValueError (''fleetboot_base_url must be http(s); got '' @ py_repr base_url))
       else case squashfs_filename_for (str_or (opt_str target) (id_architecture identity)) profile of
         Inl e \<Rightarrow> Inl e
       | Inr squashfs \<Rightarrow> Inr (config_text identity boot_token (kernel_cmdline u boot_token squashfs serial scratch) serial))"

section \<open>Reading the command line\<close>

definition SERVER_KEY :: string where "SERVER_KEY = ''fleetboot.server''"
definition TOKEN_KEY :: string where "TOKEN_KEY = ''fleetboot.boot_token''"

record ReporterSettings =
  server_url :: string
  boot_token :: string

definition settings_step :: "string \<Rightarrow> string pydict \<Rightarrow> string pydict" where
  "settings_step word found = (case find_split ''='' word of
     None \<Rightarrow> found
   | Some (key, val) \<Rightarrow> if key = SERVER_KEY \<or> key = TOKEN_KEY then dict_set key val found else found)"

definition missing_settings :: "string list \<Rightarrow> string" where
  "missing_settings keys = ''missing required kernel cmdline keys: '' @ join '', '' keys"

definition parse_cmdline :: "string \<Rightarrow> string + ReporterSettings" where
  \<comment> \<open>\<open>Inl\<close> is \<open>MissingReporterSettingsError\<close> with its text\<close>
  "parse_cmdline cmdline =
     (let found = fold settings_step (words (strip cmdline)) [] in
      case (dict_get found SERVER_KEY, dict_get found TOKEN_KEY) of
        (Some s, Some t) \<Rightarrow> Inr \<lparr>server_url = s, boot_token = t\<rparr>
      | _ \<Rightarrow> Inl (missing_settings (filter (\<lambda>k. dict_get found k = None) [SERVER_KEY, TOKEN_KEY])))"


section \<open>Words\<close>

definition unspaced :: "string \<Rightarrow> bool" where
  "unspaced s \<longleftrightarrow> (\<forall>c \<in> set s. \<not> py_space c)"

lemma unspaced_append [simp]: "unspaced (a @ b) \<longleftrightarrow> unspaced a \<and> unspaced b"
  by (auto simp: unspaced_def)

lemma unspaced_Cons [simp]: "unspaced (c # s) \<longleftrightarrow> \<not> py_space c \<and> unspaced s"
  by (simp add: unspaced_def)

lemma unspaced_Nil [simp]: "unspaced []"
  by (simp add: unspaced_def)

lemma unspaced_one_line: "unspaced s \<Longrightarrow> one_line s"
  using line_break_space by (auto simp: unspaced_def one_line_def)

lemma words_Nil [simp]: "words [] = []"
  by (simp add: words.simps)

lemma words_step:
  "dropWhile py_space s = t \<Longrightarrow> t \<noteq> [] \<Longrightarrow>
   words s = takeWhile (\<lambda>x. \<not> py_space x) t # words (dropWhile (\<lambda>x. \<not> py_space x) t)"
  by (cases t) (simp_all add: words.simps [of s])

lemma words_word:
  assumes "unspaced w" "w \<noteq> []" "py_space d"
  shows "words (w @ d # s) = w # words s"
proof -
  from assms have "dropWhile py_space (w @ d # s) = w @ d # s"
    by (cases w) (auto simp: unspaced_def)
  then have "words (w @ d # s) = takeWhile (\<lambda>x. \<not> py_space x) (w @ d # s) # words (dropWhile (\<lambda>x. \<not> py_space x) (w @ d # s))"
    by (rule words_step) simp
  moreover have "takeWhile (\<lambda>x. \<not> py_space x) (w @ d # s) = w" "dropWhile (\<lambda>x. \<not> py_space x) (w @ d # s) = d # s"
    using assms by (auto simp: unspaced_def takeWhile_append dropWhile_append)
  moreover have "words (d # s) = words s"
    using assms(3) by (simp add: words.simps [of "d # s"] words.simps [of s])
  ultimately show ?thesis by simp
qed

lemma words_last:
  assumes "unspaced w" "w \<noteq> []"
  shows "words w = [w]"
proof -
  from assms have "dropWhile py_space w = w" by (cases w) (auto simp: unspaced_def)
  then have "words w = takeWhile (\<lambda>x. \<not> py_space x) w # words (dropWhile (\<lambda>x. \<not> py_space x) w)"
    using assms(2) by (rule words_step)
  moreover have "takeWhile (\<lambda>x. \<not> py_space x) w = w" "dropWhile (\<lambda>x. \<not> py_space x) w = []"
    using assms by (auto simp: unspaced_def takeWhile_eq_all_conv)
  ultimately show ?thesis by simp
qed

lemma space_is_space: "py_space (CHR '' '')"
  by code_simp

lemma words_join: "\<forall>w \<in> set ws. unspaced w \<and> w \<noteq> [] \<Longrightarrow> words (join '' '' ws) = ws"
proof (induction ws)
  case (Cons w ws)
  then show ?case
    by (cases "ws = []") (simp_all add: join_Cons words_last words_word space_is_space)
qed simp

lemma hd_join:
  "\<forall>w \<in> set ws. unspaced w \<and> w \<noteq> [] \<Longrightarrow> ws \<noteq> [] \<Longrightarrow>
   join '' '' ws \<noteq> [] \<and> \<not> py_space (hd (join '' '' ws)) \<and> \<not> py_space (last (join '' '' ws))"
proof (induction ws)
  case (Cons w ws)
  then show ?case
    by (cases "ws = []") (auto simp: join_Cons unspaced_def)
qed simp

lemma strip_between:
  assumes "s \<noteq> []" "\<not> py_space (hd s)" "\<not> py_space (last s)"
  shows "strip s = s"
proof -
  have "dropWhile py_space s = s" using assms(1,2) by (cases s) auto
  moreover have "strip_while py_space s = s" using assms(1,3) by (cases s rule: rev_cases) auto
  ultimately show ?thesis by (simp add: strip_def lstrip_def rstrip_def)
qed

lemma find_split_key: "CHR ''='' \<notin> set k \<Longrightarrow> find_split ''='' (k @ CHR ''='' # v) = Some (k, v)"
  by (induction k) (auto simp: startswith_def)

lemma find_split_no_key: "CHR ''='' \<notin> set k \<Longrightarrow> find_split ''='' k = None"
  by (induction k) (auto simp: startswith_def)


section \<open>What the template writes is what the image reads\<close>

lemma lower_word: "c \<in> set (lower s) \<Longrightarrow> \<forall>c \<in> set s. scheme_char c \<Longrightarrow> \<not> py_space c"
proof -
  assume "c \<in> set (lower s)" and ok: "\<forall>c \<in> set s. scheme_char c"
  then obtain b where b: "b \<in> set s" "c = py_lower_char b" by (auto simp: lower_def)
  with ok have "scheme_char b" by simp
  then have "code c \<in> {43, 45, 46} \<union> {48..57} \<union> {97..122}"
    unfolding b(2) py_lower_char_code
    by (auto simp: scheme_char_def ascii_lower_def ascii_upper_def py_digit_def Let_def code_def)
  then show "\<not> py_space c" by (auto simp: py_space_def Let_def)
qed

lemma set_before: "set (before cs s) \<subseteq> set s"
  unfolding before_def by (meson set_takeWhileD subsetI)

lemma set_rest: "set (snd (split_scheme url)) \<subseteq> set url" "set (fst (split_netloc url)) \<subseteq> set url" "set (snd (split_netloc url)) \<subseteq> set url"
  using set_before [of _ "drop 2 url"]
  by (auto simp: split_scheme_def split_netloc_def Let_def dest: in_set_dropD split: if_splits)

lemma set_without_params: "set (without_params p) \<subseteq> set p"
proof -
  have "set (a @ ''/'' @ before {CHR '';''} b) \<subseteq> set p" if "rfind_split ''/'' p = Some (a, b)" for a b
    using rfind_split_Some [OF that] set_before [of "{CHR '';''}" b] by auto
  then show ?thesis
    unfolding without_params_def using set_before [of "{CHR '';''}" p] by (auto split: option.split)
qed

lemma set_strip_while: "set (strip_while P s) \<subseteq> set s"
  by (auto simp: strip_while_def dest: set_dropWhileD)

lemma unspaced_mono: "set a \<subseteq> set b \<Longrightarrow> unspaced b \<Longrightarrow> unspaced a"
  by (auto simp: unspaced_def)

lemma unspaced_base:
  assumes "urlparse base = Inr u" "url_scheme u \<in> {''http'', ''https''}" "unspaced base"
  shows "unspaced (base_of u)"
proof -
  let ?url = "filter (\<lambda>c. c \<notin> {CHR 0x09, CHR 0x0A, CHR 0x0D}) (dropWhile (\<lambda>c. code c \<le> 32) base)"
  let ?rest = "snd (split_scheme ?url)"
  have url: "set ?url \<subseteq> set base" by (auto dest: set_dropWhileD)
  have rest: "set ?rest \<subseteq> set base" using set_rest(1) url by blast
  have "url_netloc u = fst (split_netloc ?rest)"
    "url_path u = without_params (before {CHR ''?''} (before {CHR ''#''} (snd (split_netloc ?rest))))"
    using assms(1) by (auto simp: urlparse_def Let_def split: prod.splits if_splits)
  moreover have "set (fst (split_netloc ?rest)) \<subseteq> set base" "set (snd (split_netloc ?rest)) \<subseteq> set base"
    using set_rest(2,3) [of ?rest] rest by auto
  moreover have "set (before {CHR ''?''} (before {CHR ''#''} s)) \<subseteq> set s" for s
    using set_before by (meson subset_trans)
  ultimately have "unspaced (url_netloc u)" "unspaced (url_path u)"
    using assms(3) set_without_params by (metis (no_types, lifting) subset_trans unspaced_mono)+
  moreover have "unspaced (rstrip_char (CHR ''/'') (url_path u))"
    using calculation(2) set_strip_while unspaced_mono unfolding rstrip_char_def by metis
  moreover have "unspaced ''http''" "unspaced ''https''" "unspaced ''://''" by code_simp+
  ultimately show ?thesis using assms(2) unfolding base_of_def unspaced_append by auto
qed

lemma squashfs_name:
  assumes "squashfs_filename_for arch profile = Inr f"
  shows "\<exists>a \<in> {''amd64'', ''arm64'', ''i386''}. f = ''fleetboot-'' @ profile @ ''-'' @ a @ ''.squashfs''"
    and "profile \<noteq> []" "\<forall>c \<in> set profile. py_alnum c \<or> c = CHR ''-''"
  using assms by (auto simp: squashfs_filename_for_def ARCH_TO_DEBIAN_def isalnum_def split: if_splits option.splits)

lemma dash_no_space: "\<not> py_space (CHR ''-'')"
  by code_simp

lemmas literal_chars = py_space_def code_def Let_def

lemma unspaced_squashfs:
  assumes "squashfs_filename_for arch profile = Inr f"
  shows "unspaced f"
proof -
  have "unspaced profile"
    using squashfs_name(3) [OF assms] alnum_not_space dash_no_space by (auto simp: unspaced_def)
  with squashfs_name(1) [OF assms] show ?thesis by (auto simp: literal_chars)
qed

lemma cmdline_parts_words:
  "unspaced (base_of u) \<Longrightarrow> unspaced t \<Longrightarrow> unspaced f \<Longrightarrow> unspaced scratch \<Longrightarrow>
   \<forall>w \<in> set (cmdline_parts u t f serial scratch). unspaced w \<and> w \<noteq> []"
  by (simp add: cmdline_parts_def literal_chars)

lemma settings_of_parts:
  "fold settings_step (cmdline_parts u t f serial scratch) [] = [(SERVER_KEY, base_of u @ ''/''), (TOKEN_KEY, t)]"
  by (simp add: cmdline_parts_def settings_step_def startswith_def SERVER_KEY_def TOKEN_KEY_def)

lemma parse_kernel_cmdline:
  assumes "unspaced (base_of u)" "unspaced t" "unspaced f" "unspaced scratch"
  shows "parse_cmdline (kernel_cmdline u t f serial scratch) = Inr \<lparr>server_url = base_of u @ ''/'', boot_token = t\<rparr>"
proof -
  let ?ws = "cmdline_parts u t f serial scratch"
  note parts = cmdline_parts_words [OF assms]
  have "?ws \<noteq> []" by (simp add: cmdline_parts_def)
  then have "words (strip (join '' '' ?ws)) = ?ws"
    using hd_join [OF parts] words_join [OF parts] by (simp add: strip_between)
  then show ?thesis
    by (simp add: parse_cmdline_def kernel_cmdline_def settings_of_parts SERVER_KEY_def TOKEN_KEY_def)
qed


section \<open>The configuration, line by line\<close>

definition config_lines :: "ClientIdentity \<Rightarrow> string \<Rightarrow> string \<Rightarrow> bool \<Rightarrow> string list" where
  "config_lines identity t cmdline serial =
     (let say = (\<lambda>s. ''echo '' @ [CHR 0x22] @ ''fleetboot: '' @ s @ [CHR 0x22]);
          event = (\<lambda>state. ''source '' @ grub_dev @ event_path t state) in
      ''set timeout=0'' #
      (if serial then [''serial --unit=0 --speed=115200'', ''terminal_input --append serial'', ''terminal_output --append serial''] else [])
      @ [say (''booting '' @ asserted_mac identity @ '' '' @ id_architecture identity @ ''/'' @ id_platform identity),
         say ''> grub_running event'', event ''grub_running'',
         say ''> linux kernel'', ''linux '' @ grub_dev @ ''/vmlinuz '' @ cmdline,
         say ''> kernel_loaded event'', event ''kernel_loaded'',
         say ''> initrd'', ''initrd '' @ grub_dev @ ''/initrd.img'',
         say ''> initrd_loaded event'', event ''initrd_loaded'',
         say ''> booting_kernel event'', event ''booting_kernel'',
         say ''handing off to kernel'', ''boot''])"

lemma config_text_lines: "config_text identity t cmdline serial = unlines (config_lines identity t cmdline serial)"
  by (simp add: config_text_def config_lines_def Let_def serial_prelude_def quoted_echo_def event_line_def)

lemma one_line_append [simp]: "one_line (a @ b) \<longleftrightarrow> one_line a \<and> one_line b"
  by (auto simp: one_line_def)

lemma one_line_Cons [simp]: "one_line (c # s) \<longleftrightarrow> \<not> py_line_break c \<and> one_line s"
  by (simp add: one_line_def)

lemma config_lines_one_line:
  assumes "one_line (asserted_mac identity)" "one_line (id_architecture identity)" "one_line (id_platform identity)"
    "one_line t" "one_line cmdline"
  shows "\<forall>l \<in> set (config_lines identity t cmdline serial). one_line l"
  using assms by (cases serial) (simp_all add: config_lines_def Let_def grub_dev_def event_path_def py_line_break_def code_def)

definition tftp_requests :: "string \<Rightarrow> string list" where
  \<comment> \<open>the paths GRUB fetches with \<open>source\<close> while it runs the configuration\<close>
  "tftp_requests cfg = List.map_filter (\<lambda>l. if startswith l (''source '' @ grub_dev)
     then Some (drop (length (''source '' @ grub_dev)) l) else None) (splitlines cfg)"

definition kernel_lines :: "string \<Rightarrow> string list" where
  \<comment> \<open>the command lines of its \<open>linux\<close> commands\<close>
  "kernel_lines cfg = List.map_filter (\<lambda>l. if startswith l (''linux '' @ grub_dev @ ''/vmlinuz '')
     then Some (drop (length (''linux '' @ grub_dev @ ''/vmlinuz '')) l) else None) (splitlines cfg)"

lemma config_parsed:
  assumes "one_line (asserted_mac identity)" "one_line (id_architecture identity)" "one_line (id_platform identity)"
    "one_line t" "one_line cmdline"
  shows "tftp_requests (config_text identity t cmdline serial)
      = map (event_path t) [''grub_running'', ''kernel_loaded'', ''initrd_loaded'', ''booting_kernel'']"
    and "kernel_lines (config_text identity t cmdline serial) = [cmdline]"
  using splitlines_unlines [OF config_lines_one_line [OF assms, of serial]]
  unfolding tftp_requests_def kernel_lines_def config_text_lines
  by (simp_all add: config_lines_def Let_def grub_dev_def startswith_def List.map_filter_simps)


lemma render_grub_cfg_cases:
  assumes "render_grub_cfg identity base t profile serial target scratch = Inr cfg"
  obtains u f where "urlparse base = Inr u" "url_scheme u \<in> {''http'', ''https''}"
    "squashfs_filename_for (str_or (opt_str target) (id_architecture identity)) profile = Inr f"
    "cfg = config_text identity t (kernel_cmdline u t f serial scratch) serial"
  using assms by (auto simp: render_grub_cfg_def split: sum.splits if_splits)

lemma join_one_line: "one_line sep \<Longrightarrow> \<forall>w \<in> set ws. one_line w \<Longrightarrow> one_line (join sep ws)"
  by (induction ws) (auto simp: join_Cons)

lemma kernel_cmdline_one_line:
  assumes "unspaced (base_of u)" "unspaced t" "unspaced f" "unspaced scratch"
  shows "one_line (kernel_cmdline u t f serial scratch)"
  unfolding kernel_cmdline_def
  using cmdline_parts_words [OF assms] unspaced_one_line by (intro join_one_line) (auto simp: py_line_break_def code_def)

lemma rendered_config:
  assumes cfg: "render_grub_cfg identity base t profile serial target scratch = Inr cfg"
    and "unspaced base" "unspaced t" "unspaced scratch"
    and "one_line (asserted_mac identity)" "one_line (id_architecture identity)" "one_line (id_platform identity)"
  shows "\<exists>u f cmdline. urlparse base = Inr u
    \<and> squashfs_filename_for (str_or (opt_str target) (id_architecture identity)) profile = Inr f
    \<and> kernel_lines cfg = [cmdline]
    \<and> parse_cmdline cmdline = Inr \<lparr>server_url = base_of u @ ''/'', boot_token = t\<rparr>
    \<and> ''fetch='' @ base_of u @ ''/boot/'' @ t @ ''/'' @ f \<in> set (words cmdline)
    \<and> tftp_requests cfg = map (event_path t) [''grub_running'', ''kernel_loaded'', ''initrd_loaded'', ''booting_kernel'']"
proof -
  obtain u f where u: "urlparse base = Inr u" "url_scheme u \<in> {''http'', ''https''}"
    and f: "squashfs_filename_for (str_or (opt_str target) (id_architecture identity)) profile = Inr f"
    and shape: "cfg = config_text identity t (kernel_cmdline u t f serial scratch) serial"
    using cfg by (rule render_grub_cfg_cases)
  note good = unspaced_base [OF u assms(2)] assms(3) unspaced_squashfs [OF f] assms(4)
  note parsed = config_parsed [OF assms(5-7) unspaced_one_line [OF assms(3)] kernel_cmdline_one_line [OF good]]
  have "words (kernel_cmdline u t f serial scratch) = cmdline_parts u t f serial scratch"
    using words_join [OF cmdline_parts_words [OF good]] by (simp add: kernel_cmdline_def)
  then have "''fetch='' @ base_of u @ ''/boot/'' @ t @ ''/'' @ f \<in> set (words (kernel_cmdline u t f serial scratch))"
    by (simp add: cmdline_parts_def)
  then show ?thesis
    using u(1) f parsed parse_kernel_cmdline [OF good] unfolding shape by blast
qed

text \<open>C19: the image finds what the template put in. For an http(s) base address, a token and a scratch
  mode without white space and an identity on one line, the configuration starts exactly one kernel;
  the reporter reads from its command line the address of the server and the session's token; the
  live system is told to fetch the image of the machine's profile and architecture under that
  token; and GRUB reports the four boot-loader stages in order, under that token.\<close>
theorem template_and_reporter_agree:
  assumes cfg: "render_grub_cfg identity base t profile serial target scratch = Inr cfg"
    and "unspaced base" "unspaced t" "unspaced scratch"
    and "one_line (asserted_mac identity)" "one_line (id_architecture identity)" "one_line (id_platform identity)"
  shows "\<exists>u f cmdline. urlparse base = Inr u
    \<and> squashfs_filename_for (str_or (opt_str target) (id_architecture identity)) profile = Inr f
    \<and> kernel_lines cfg = [cmdline]
    \<and> parse_cmdline cmdline = Inr \<lparr>server_url = base_of u @ ''/'', boot_token = t\<rparr>
    \<and> ''fetch='' @ base_of u @ ''/boot/'' @ t @ ''/'' @ f \<in> set (words cmdline)
    \<and> tftp_requests cfg = map (event_path t) [''grub_running'', ''kernel_loaded'', ''initrd_loaded'', ''booting_kernel'']"
  by (rule rendered_config [OF assms])

definition example_identity :: ClientIdentity where
  "example_identity = \<lparr>asserted_mac = ''aa:bb:cc:dd:ee:01'', id_architecture = ''i386'', id_platform = ''pc''\<rparr>"

lemma template_and_reporter_agree_witness:
  "\<exists>cfg cmdline. render_grub_cfg example_identity ''http://10.0.0.2:8080/boot/'' ''t0'' ''lab'' True (Some ''x86_64'') ''volatile'' = Inr cfg
     \<and> kernel_lines cfg = [cmdline]
     \<and> parse_cmdline cmdline = Inr \<lparr>server_url = ''http://10.0.0.2:8080/boot/'', boot_token = ''t0''\<rparr>
     \<and> ''fetch=http://10.0.0.2:8080/boot/boot/t0/fleetboot-lab-amd64.squashfs'' \<in> set (words cmdline)"
proof -
  let ?render = "render_grub_cfg example_identity ''http://10.0.0.2:8080/boot/'' ''t0'' ''lab'' True (Some ''x86_64'') ''volatile''"
  have url: "urlparse ''http://10.0.0.2:8080/boot/'' = Inr \<lparr>url_scheme = ''http'', url_netloc = ''10.0.0.2:8080'', url_path = ''/boot/''\<rparr>"
    and name: "squashfs_filename_for ''x86_64'' ''lab'' = Inr ''fleetboot-lab-amd64.squashfs''"
    and base: "base_of \<lparr>url_scheme = ''http'', url_netloc = ''10.0.0.2:8080'', url_path = ''/boot/''\<rparr> = ''http://10.0.0.2:8080/boot''"
    by code_simp+
  have texts: "unspaced ''http://10.0.0.2:8080/boot/''" "unspaced ''t0''" "unspaced ''volatile''"
    "one_line (asserted_mac example_identity)" "one_line (id_architecture example_identity)" "one_line (id_platform example_identity)"
    by code_simp+
  have arch: "str_or (opt_str (Some ''x86_64'')) (id_architecture example_identity) = ''x86_64''"
    by (simp add: str_or_def opt_str_def)
  obtain cfg where cfg: "?render = Inr cfg"
    unfolding render_grub_cfg_def url arch by (simp add: name)
  show ?thesis
    using template_and_reporter_agree [OF cfg texts] unfolding cfg arch url name
    by (auto simp: base)
qed

end
