(* ===== verification/Hardware_Spec.thy ===== *)
theory Hardware_Spec
  imports Complex_Main Py_Strings
begin

text \<open>
  \<open>src/fleetboot/server/hardware_spec.py\<close>: the stable part of a machine's inventory report.

  JSON values are the datatype \<open>json\<close>; an object is a Python dictionary, an association list
  in insertion order. A database column that holds JSON text is a \<open>json_text\<close>: \<open>JsonText v\<close> is
  any text \<open>json.loads\<close> reads as \<open>v\<close> (in particular the one \<open>json.dumps\<close> writes), \<open>BadText s\<close> is a text
  it rejects, with its surrounding white space or stripped of it.
\<close>

section \<open>JSON values\<close>

datatype json =
    JNull
  | JBool bool
  | JInt int
  | JFloat rat
  | JStr string
  | JList "json list"
  | JObj "(string \<times> json) list"

datatype json_text = JsonText json | BadText string

definition py_true :: "json \<Rightarrow> bool" where
  \<comment> \<open>the truth value of a JSON value\<close>
  "py_true v = (case v of JNull \<Rightarrow> False | JBool b \<Rightarrow> b | JInt i \<Rightarrow> i \<noteq> 0 | JFloat r \<Rightarrow> r \<noteq> 0
     | JStr s \<Rightarrow> s \<noteq> [] | JList xs \<Rightarrow> xs \<noteq> [] | JObj d \<Rightarrow> d \<noteq> [])"

primrec json_loads :: "json_text \<Rightarrow> json option" where
  "json_loads (JsonText v) = Some v"
| "json_loads (BadText s) = None"

primrec blank_text :: "json_text \<Rightarrow> bool" where
  \<comment> \<open>\<open>not text.strip()\<close>: no JSON value is written as white space\<close>
  "blank_text (JsonText v) = False"
| "blank_text (BadText s) = (strip s = [])"

primrec strip_text :: "json_text \<Rightarrow> json_text" where
  "strip_text (JsonText v) = JsonText v"
| "strip_text (BadText s) = BadText (strip s)"

definition parse_json_object :: "json_text option \<Rightarrow> json pydict option" where
  \<comment> \<open>\<open>_parse_json_object\<close> of registry.py\<close>
  "parse_json_object t = (case t of None \<Rightarrow> None
     | Some x \<Rightarrow> (case json_loads x of Some (JObj d) \<Rightarrow> Some d | _ \<Rightarrow> None))"

section \<open>The spec\<close>

definition DISK_FIELDS :: "string list" where
  "DISK_FIELDS =
     [''name'', ''size_bytes'', ''size_gb'', ''vendor'', ''model'', ''firmware'',
      ''connection'', ''media'', ''link_speed'', ''removable'']"

definition SPEC_SECTIONS :: "string list" where
  "SPEC_SECTIONS = [''ram_total_mb'', ''cpu'', ''motherboard'', ''disks'']"

definition is_positive_whole_number :: "json option \<Rightarrow> bool" where
  "is_positive_whole_number v \<longleftrightarrow> (case v of Some (JInt n) \<Rightarrow> 0 < n | _ \<Rightarrow> False)"

definition nonempty_str :: "json option \<Rightarrow> bool" where
  "nonempty_str v \<longleftrightarrow> (case v of Some (JStr s) \<Rightarrow> s \<noteq> [] | _ \<Rightarrow> False)"

definition cpu_spec :: "json pydict \<Rightarrow> json pydict" where
  "cpu_spec inventory =
     (case dict_get inventory ''cpu'' of
        Some (JObj (e # es)) \<Rightarrow> e # es
      | _ \<Rightarrow>
         (let older = [];
              older = (if nonempty_str (dict_get inventory ''cpu_model'')
                       then dict_set ''model'' (the (dict_get inventory ''cpu_model'')) older else older);
              older = (if is_positive_whole_number (dict_get inventory ''cpu_count'')
                       then dict_set ''threads'' (the (dict_get inventory ''cpu_count'')) older else older)
          in older))"

definition disk_spec :: "json pydict \<Rightarrow> json pydict" where
  "disk_spec disk = List.map_filter (\<lambda>key. map_option (\<lambda>v. (key, v)) (dict_get disk key)) DISK_FIELDS"

definition ram_section :: "json pydict \<Rightarrow> json option" where
  "ram_section inventory =
     (let ram = dict_get inventory ''mem_total_mb'' in
      if is_positive_whole_number ram then ram else None)"

definition cpu_section :: "json pydict \<Rightarrow> json option" where
  "cpu_section inventory =
     (let cpu = cpu_spec inventory in if cpu \<noteq> [] then Some (JObj cpu) else None)"

definition motherboard_section :: "json pydict \<Rightarrow> json option" where
  "motherboard_section inventory = (case dict_get inventory ''motherboard'' of
     Some (JObj (e # es)) \<Rightarrow> Some (JObj (filter (\<lambda>(k, v). nonempty_str (Some v)) (e # es)))
   | _ \<Rightarrow> None)"

definition disks_section :: "json pydict \<Rightarrow> json option" where
  "disks_section inventory = (case dict_get inventory ''disks'' of
     Some (JList disks) \<Rightarrow>
       Some (JList (List.map_filter
         (\<lambda>disk. case disk of JObj d \<Rightarrow> Some (JObj (disk_spec d)) | _ \<Rightarrow> None) disks))
   | _ \<Rightarrow> None)"

definition put_section :: "string \<Rightarrow> json option \<Rightarrow> json pydict \<Rightarrow> json pydict" where
  \<comment> \<open>a section the inventory does not cover is not stored\<close>
  "put_section key v spec = (case v of None \<Rightarrow> spec | Some x \<Rightarrow> dict_set key x spec)"

definition spec_from_inventory :: "json option \<Rightarrow> json pydict" where
  "spec_from_inventory rep = (case rep of
     Some (JObj inventory) \<Rightarrow>
       (let spec = [];
            spec = put_section ''ram_total_mb'' (ram_section inventory) spec;
            spec = put_section ''cpu'' (cpu_section inventory) spec;
            spec = put_section ''motherboard'' (motherboard_section inventory) spec;
            spec = put_section ''disks'' (disks_section inventory) spec
        in spec)
   | _ \<Rightarrow> [])"

definition merge_spec :: "json pydict option \<Rightarrow> json pydict \<Rightarrow> json pydict" where
  "merge_spec previous latest =
     dict_update (case previous of None \<Rightarrow> [] | Some p \<Rightarrow> p) latest"

definition spec_section :: "json pydict option \<Rightarrow> string \<Rightarrow> json option" where
  \<comment> \<open>\<open>(spec or {}).get(key)\<close>\<close>
  "spec_section spec key = dict_get (case spec of None \<Rightarrow> [] | Some s \<Rightarrow> s) key"

definition ram_total_mb :: "json pydict option \<Rightarrow> json option" where
  \<comment> \<open>the \<open>Machine.ram_total_mb\<close> property\<close>
  "ram_total_mb spec = spec_section spec ''ram_total_mb''"

section \<open>Facts\<close>

lemma dict_set_Nil [simp]: "dict_set k v [] = [(k, v)]"
  by simp

lemma distinct_put_section: "distinct (map fst d) \<Longrightarrow> distinct (map fst (put_section k v d))"
  by (auto simp: put_section_def distinct_update split: option.split)

lemma keys_put_section: "set (map fst (put_section k v d)) \<subseteq> insert k (set (map fst d))"
  by (auto simp: put_section_def dom_update split: option.split)

lemma get_put_section:
  "dict_get (put_section k v d) j = (if j = k \<and> v \<noteq> None then v else dict_get d j)"
  by (auto simp: put_section_def AList.update_conv' split: option.split)

lemma spec_from_object [simp]:
  "spec_from_inventory (Some (JObj d)) =
     put_section ''disks'' (disks_section d) (put_section ''motherboard'' (motherboard_section d)
       (put_section ''cpu'' (cpu_section d) (put_section ''ram_total_mb'' (ram_section d) [])))"
  by (simp add: spec_from_inventory_def)

lemma spec_inventory_cases:
  obtains d where "rep = Some (JObj d)" | "spec_from_inventory rep = []"
proof (cases rep)
  case None
  then show ?thesis using that(2) by (simp add: spec_from_inventory_def)
next
  case (Some v)
  then show ?thesis using that by (cases v) (simp_all add: spec_from_inventory_def)
qed

lemma spec_keys_distinct: "distinct (map fst (spec_from_inventory rep))"
  by (rule spec_inventory_cases [of rep]) (auto intro!: distinct_put_section)

lemma spec_get:
  "dict_get (spec_from_inventory (Some (JObj d))) k =
     (if k = ''disks'' then disks_section d else if k = ''motherboard'' then motherboard_section d
      else if k = ''cpu'' then cpu_section d else if k = ''ram_total_mb'' then ram_section d else None)"
  by (simp add: get_put_section)

lemma spec_keys_sections:
  "dict_get (spec_from_inventory rep) k \<noteq> None \<Longrightarrow> k \<in> set SPEC_SECTIONS"
  by (rule spec_inventory_cases [of rep])
     (auto simp: spec_get SPEC_SECTIONS_def simp del: spec_from_object split: if_splits)

lemma merge_spec_get:
  "dict_get (merge_spec p (spec_from_inventory rep)) k
   = (case dict_get (spec_from_inventory rep) k of
        None \<Rightarrow> spec_section p k
      | Some v \<Rightarrow> Some v)"
  by (simp add: merge_spec_def spec_section_def dict_get_update spec_keys_distinct split: option.split)

lemma section_or_none [simp]:
  "spec_section (if s \<noteq> [] then Some s else None) k = dict_get s k"
  by (simp add: spec_section_def)

lemma ram_section_positive: "ram_section d = Some v \<Longrightarrow> \<exists>n. v = JInt n \<and> 0 < n"
  by (auto simp: ram_section_def is_positive_whole_number_def Let_def
      split: if_splits option.splits json.splits)

end
