(* ===== verification/Http_Client.thy ===== *)
theory Http_Client
  imports Hardware_Spec
begin

text \<open>
  Requests to a server, as the clients of the control plane see them. The HTTP library is a package of
  its own, so sending a request is a function from the address, the body and the headers to a response and
  a new state of the other side; \<open>None\<close> is an exception of the library.
\<close>

record http_response =
  status_code :: nat
  rs_text :: string
  rs_json :: "json option"   \<comment> \<open>\<open>None\<close> where the body is no JSON\<close>

type_synonym headers = "(string \<times> string) list"
type_synonym 'w post = "string \<Rightarrow> json pydict \<Rightarrow> headers \<Rightarrow> 'w \<Rightarrow> http_response option \<times> 'w"
type_synonym 'w get = "string \<Rightarrow> headers \<Rightarrow> 'w \<Rightarrow> http_response option \<times> 'w"

end
