(* ===== verification/Boot_States.thy ===== *)
theory Boot_States
  imports Py_Strings
begin

text \<open>
  \<open>src/fleetboot/boot_states.py\<close>: the lifecycle states a booting machine reports, their wire
  strings and their canonical order. The order makes \<open>BootState\<close> a linear order, so \<open>max\<close>
  on states is the server's "furthest along" rule.
\<close>

datatype BootState =
    GRUB_RUNNING
  | KERNEL_LOADED
  | INITRD_LOADED
  | BOOTING_KERNEL
  | NETWORK_UP
  | SCRATCH_MOUNTED
  | NFS_MOUNTED
  | LOGIN_CONSOLE

primrec state_value :: "BootState \<Rightarrow> string" where
  "state_value GRUB_RUNNING = ''grub_running''"
| "state_value KERNEL_LOADED = ''kernel_loaded''"
| "state_value INITRD_LOADED = ''initrd_loaded''"
| "state_value BOOTING_KERNEL = ''booting_kernel''"
| "state_value NETWORK_UP = ''network_up''"
| "state_value SCRATCH_MOUNTED = ''scratch_mounted''"
| "state_value NFS_MOUNTED = ''nfs_mounted''"
| "state_value LOGIN_CONSOLE = ''login_console''"

definition BOOT_STATE_ORDER :: "BootState list" where
  "BOOT_STATE_ORDER =
     [GRUB_RUNNING, KERNEL_LOADED, INITRD_LOADED, BOOTING_KERNEL,
      NETWORK_UP, SCRATCH_MOUNTED, NFS_MOUNTED, LOGIN_CONSOLE]"

fun index_of :: "'a \<Rightarrow> 'a list \<Rightarrow> nat" where
  \<comment> \<open>\<open>tuple.index\<close>; every state is in the tuple (\<open>order_complete\<close>), so it never raises\<close>
  "index_of x [] = 0"
| "index_of x (y # ys) = (if x = y then 0 else Suc (index_of x ys))"

definition state_index :: "BootState \<Rightarrow> nat" where
  "state_index s = index_of s BOOT_STATE_ORDER"

definition BootState_of :: "string \<Rightarrow> BootState option" where
  \<comment> \<open>\<open>BootState(value)\<close>; \<open>None\<close> is its \<open>ValueError\<close>\<close>
  "BootState_of v = List.find (\<lambda>s. state_value s = v) BOOT_STATE_ORDER"

lemma order_complete: "s \<in> set BOOT_STATE_ORDER"
  by (cases s) (simp_all add: BOOT_STATE_ORDER_def)

lemma state_index_simps [simp]:
  "state_index GRUB_RUNNING = 0" "state_index KERNEL_LOADED = 1"
  "state_index INITRD_LOADED = 2" "state_index BOOTING_KERNEL = 3"
  "state_index NETWORK_UP = 4" "state_index SCRATCH_MOUNTED = 5"
  "state_index NFS_MOUNTED = 6" "state_index LOGIN_CONSOLE = 7"
  by (simp_all add: state_index_def BOOT_STATE_ORDER_def)

lemma state_index_inject [simp]: "state_index s = state_index t \<longleftrightarrow> s = t"
  by (cases s; cases t) simp_all

lemma BootState_of_value [simp]: "BootState_of (state_value s) = Some s"
  by (cases s) (simp_all add: BootState_of_def BOOT_STATE_ORDER_def)

lemma BootState_of_SomeD: "BootState_of v = Some s \<Longrightarrow> state_value s = v"
  by (auto simp: BootState_of_def find_Some_iff)

lemma state_value_inject [simp]: "state_value s = state_value t \<longleftrightarrow> s = t"
  by (metis BootState_of_value option.inject)

instantiation BootState :: linorder
begin

definition less_eq_BootState :: "BootState \<Rightarrow> BootState \<Rightarrow> bool" where
  "s \<le> t \<longleftrightarrow> state_index s \<le> state_index t"

definition less_BootState :: "BootState \<Rightarrow> BootState \<Rightarrow> bool" where
  "s < t \<longleftrightarrow> state_index s < state_index t"

instance
  by standard (auto simp: less_eq_BootState_def less_BootState_def order_antisym)

end

lemmas state_order = less_eq_BootState_def less_BootState_def

end
