(* ===== verification/Fleet_DB.thy ===== *)
theory Fleet_DB
  imports Boot_States Hardware_Spec
begin

text \<open>
  The tables of \<open>src/fleetboot/server/registry.py\<close> (\<open>_SCHEMA\<close>) and the dataclasses that carry
  their rows. A \<open>'h machine\<close> is a row of \<open>machines\<close>: with \<open>'h = json_text\<close> it is the stored row,
  whose \<open>hardware_spec\<close> column is JSON text, and with \<open>'h = json pydict\<close> it is the \<open>Machine\<close>
  dataclass. The \<open>boot_sessions\<close> table belongs to the session store and exists only when a
  persistent store was opened on the same file, so it is optional. \<open>INTEGER PRIMARY KEY
  AUTOINCREMENT\<close> columns take their values from the \<open>_seq\<close> counters, the last id handed out.
\<close>

section \<open>Rows\<close>

record 'h machine =
  mac :: string
  profile_name :: string
  architecture :: string
  platform :: string
  created_at :: timestamp
  serial_console :: bool
  enrolled_by :: string
  hostname :: "string option"
  hostname_seen_at :: "timestamp option"
  boot_version :: "string option"
  boot_version_seen_at :: "timestamp option"
  scratch_mode :: string
  last_diagnostics :: "string option"
  last_diagnostics_at :: "timestamp option"
  last_hardware :: "json_text option"
  last_hardware_at :: "timestamp option"
  hardware_spec :: "'h option"
  last_ip :: "string option"
  last_ip_at :: "timestamp option"
  reboot_command :: "string option"
  power_on_command :: "string option"
  power_off_command :: "string option"
  pdu_alias :: "string option"
  pending_reboot :: bool

type_synonym machine_row = "json_text machine"
type_synonym Machine = "json pydict machine"

datatype lease_kind = Permanent | Lease

record reservation =
  res_id :: nat
  res_mac :: string
  holder :: string
  lease_kind :: lease_kind
  acquired_at :: timestamp
  purpose :: "string option"
  res_profile :: "string option"
  expires_at :: "timestamp option"
  released_at :: "timestamp option"

record boot_event =
  ev_id :: nat
  ev_mac :: string
  ev_state :: string
  ev_detail :: "string option"
  occurred_at :: timestamp

record auto_enrol_rule =
  rule_id :: nat
  rule_name :: string
  match_kind :: string
  match_value :: string
  rule_profile :: string
  rule_architecture :: string
  rule_platform :: string
  rule_serial_console :: bool
  rule_created_at :: timestamp
  rule_scratch_mode :: string

record setting_row =
  set_key :: string
  set_value :: string
  updated_at :: timestamp

record session_row =
  tok :: string
  sess_mac :: string
  minted_at :: timestamp
  latest_state :: "string option"
  latest_state_at :: "timestamp option"

record db =
  machines :: "machine_row table"
  boot_events :: "boot_event table"
  settings :: "setting_row table"
  auto_enrol_rules :: "auto_enrol_rule table"
  reservations :: "reservation table"
  boot_sessions :: "session_row table option"
  ev_seq :: nat
  rule_seq :: nat
  res_seq :: nat

definition empty_db :: db where
  "empty_db = \<lparr>machines = [], boot_events = [], settings = [], auto_enrol_rules = [],
     reservations = [], boot_sessions = None, ev_seq = 0, rule_seq = 0, res_seq = 0\<rparr>"

section \<open>Normalised MAC addresses\<close>

definition normalise_mac :: "string \<Rightarrow> string" where
  "normalise_mac m = strip (lower (replace_char (CHR ''.'') (CHR '':'') (replace_char (CHR ''-'') (CHR '':'') m)))"

definition mac_char :: "char \<Rightarrow> char" where
  "mac_char c = py_lower_char (if c = CHR ''-'' \<or> c = CHR ''.'' then CHR '':'' else c)"

lemma normalise_mac_alt: "normalise_mac m = strip (map mac_char m)"
proof -
  have "lower (replace_char (CHR ''.'') (CHR '':'') (replace_char (CHR ''-'') (CHR '':'') m)) = map mac_char m"
    by (simp add: lower_def replace_char_def mac_char_def)
  then show ?thesis by (simp add: normalise_mac_def)
qed

lemma lower_char_dash: "py_lower_char c = CHR ''-'' \<longleftrightarrow> c = CHR ''-''"
  and lower_char_dot: "py_lower_char c = CHR ''.'' \<longleftrightarrow> c = CHR ''.''"
proof -
  have "code (py_lower_char c) = n \<longleftrightarrow> code c = n" if "n < 65" for n
    using that by (auto simp: py_lower_char_code Let_def)
  from this [of "code (CHR ''-'')"] this [of "code (CHR ''.'')"]
  show "py_lower_char c = CHR ''-'' \<longleftrightarrow> c = CHR ''-''" and "py_lower_char c = CHR ''.'' \<longleftrightarrow> c = CHR ''.''"
    by (simp_all add: code_inject) (simp_all add: code_def)
qed

lemma mac_char_idem [simp]: "mac_char (mac_char c) = mac_char c"
proof (cases "c = CHR ''-'' \<or> c = CHR ''.''")
  case True
  then show ?thesis by (auto simp: mac_char_def lower_char_dash lower_char_dot)
next
  case False
  then show ?thesis by (simp add: mac_char_def lower_char_dash lower_char_dot)
qed

lemma normalise_mac_idem [simp]: "normalise_mac (normalise_mac m) = normalise_mac m"
proof -
  have "map mac_char (strip (map mac_char m)) = strip (map mac_char m)"
  proof (rule map_idI)
    fix c assume "c \<in> set (strip (map mac_char m))"
    then have "c \<in> mac_char ` set m" using set_strip by fastforce
    then show "mac_char c = c" by auto
  qed
  then show ?thesis by (simp add: normalise_mac_alt)
qed

definition normal_mac :: "string \<Rightarrow> bool" where
  "normal_mac m \<longleftrightarrow> normalise_mac m = m"

lemma normal_normalise [simp]: "normal_mac (normalise_mac m)"
  by (simp add: normal_mac_def)

lemma normal_macD [simp]: "normal_mac m \<Longrightarrow> normalise_mac m = m"
  by (simp add: normal_mac_def)

section \<open>Insertion with the constraints the database enforces\<close>

definition new_reservation ::
  "timestamp \<Rightarrow> string \<Rightarrow> string \<Rightarrow> string option \<Rightarrow> lease_kind \<Rightarrow> string option \<Rightarrow> timestamp option
   \<Rightarrow> nat \<Rightarrow> reservation" where
  "new_reservation now m h why kind prof expires i =
     \<lparr>res_id = i, res_mac = m, holder = h, lease_kind = kind, acquired_at = now, purpose = why,
      res_profile = prof, expires_at = expires, released_at = None\<rparr>"

definition insert_reservation ::
  "timestamp \<Rightarrow> string \<Rightarrow> string \<Rightarrow> string option \<Rightarrow> lease_kind \<Rightarrow> string option \<Rightarrow> timestamp option
   \<Rightarrow> db \<Rightarrow> unit result \<times> db" where
  \<comment> \<open>\<open>INSERT INTO reservations ...\<close> under the partial unique index on un-released rows\<close>
  "insert_reservation now m h why kind prof expires d =
     (if \<exists>r \<in> set (reservations d). res_mac r = m \<and> released_at r = None then (Inl IntegrityError, d)
      else (Inr (),
        d\<lparr>reservations := reservations d @
            [new_reservation now m h why kind prof expires (Suc (res_seq d))],
          res_seq := Suc (res_seq d)\<rparr>))"

lemma new_reservation_simps [simp]:
  "res_id (new_reservation now m h why kind prof expires i) = i"
  "res_mac (new_reservation now m h why kind prof expires i) = m"
  "holder (new_reservation now m h why kind prof expires i) = h"
  "lease_kind (new_reservation now m h why kind prof expires i) = kind"
  "acquired_at (new_reservation now m h why kind prof expires i) = now"
  "purpose (new_reservation now m h why kind prof expires i) = why"
  "res_profile (new_reservation now m h why kind prof expires i) = prof"
  "expires_at (new_reservation now m h why kind prof expires i) = expires"
  "released_at (new_reservation now m h why kind prof expires i) = None"
  by (simp_all add: new_reservation_def)

section \<open>The invariant\<close>

definition unreleased :: "reservation \<Rightarrow> bool" where
  "unreleased r \<longleftrightarrow> released_at r = None"

definition one_unreleased :: "reservation table \<Rightarrow> bool" where
  \<comment> \<open>the unique index \<open>idx_reservations_one_active\<close>\<close>
  "one_unreleased t \<longleftrightarrow> distinct (map res_mac (filter unreleased t))"

definition wf_machines :: "'h machine table \<Rightarrow> bool" where
  "wf_machines t \<longleftrightarrow> keys_distinct mac t \<and> (\<forall>r \<in> set t. normal_mac (mac r))"

definition wf_reservations :: "string set \<Rightarrow> nat \<Rightarrow> reservation table \<Rightarrow> bool" where
  "wf_reservations known seq t \<longleftrightarrow>
     one_unreleased t \<and> keys_distinct res_id t \<and>
     (\<forall>r \<in> set t. res_id r \<le> seq \<and> res_mac r \<in> known \<and>
        (lease_kind r = Permanent \<longrightarrow> expires_at r = None))"

definition wf_rules :: "nat \<Rightarrow> auto_enrol_rule table \<Rightarrow> bool" where
  "wf_rules seq t \<longleftrightarrow> sorted_wrt (<) (map rule_id t) \<and> (\<forall>r \<in> set t. rule_id r \<le> seq)"

definition wf_events :: "nat \<Rightarrow> boot_event table \<Rightarrow> bool" where
  "wf_events seq t \<longleftrightarrow> sorted_wrt (<) (map ev_id t) \<and> (\<forall>e \<in> set t. ev_id e \<le> seq)"

definition wf_db :: "db \<Rightarrow> bool" where
  "wf_db d \<longleftrightarrow>
     wf_machines (machines d) \<and>
     wf_reservations (mac ` set (machines d)) (res_seq d) (reservations d) \<and>
     keys_distinct set_key (settings d) \<and>
     wf_rules (rule_seq d) (auto_enrol_rules d) \<and>
     wf_events (ev_seq d) (boot_events d)"

lemma wf_machines_update:
  "wf_machines t \<Longrightarrow> (\<And>r. P r \<Longrightarrow> mac (f r) = mac r) \<Longrightarrow> wf_machines (update_where P f t)"
  by (auto simp: wf_machines_def keys_distinct_update set_update_where)

lemma wf_machines_replace:
  "wf_machines t \<Longrightarrow> normal_mac (mac r) \<Longrightarrow> wf_machines (replace_row mac r t)"
  by (auto simp: wf_machines_def keys_distinct_replace) (auto simp: replace_row_def)

lemma wf_machines_delete: "wf_machines t \<Longrightarrow> wf_machines (delete_where P t)"
  by (auto simp: wf_machines_def keys_distinct_delete)

lemma wf_reservations_known:
  "wf_reservations known seq t \<Longrightarrow> known \<subseteq> known' \<Longrightarrow> wf_reservations known' seq t"
  by (auto simp: wf_reservations_def)

lemma wf_events_append:
  "wf_events seq t \<Longrightarrow> ev_id e = Suc seq \<Longrightarrow> wf_events (Suc seq) (t @ [e])"
  by (auto simp: wf_events_def sorted_wrt_append less_Suc_eq_le le_SucI)

lemma wf_events_update:
  "wf_events seq t \<Longrightarrow> (\<And>e. P e \<Longrightarrow> ev_id (f e) = ev_id e) \<Longrightarrow> wf_events seq (update_where P f t)"
  by (auto simp: wf_events_def map_update_where set_update_where)

lemma wf_events_delete: "wf_events seq t \<Longrightarrow> wf_events seq (delete_where P t)"
  by (auto simp: wf_events_def delete_where_def sorted_wrt_filter sorted_wrt_map)

lemma wf_rules_append:
  "wf_rules seq t \<Longrightarrow> rule_id e = Suc seq \<Longrightarrow> wf_rules (Suc seq) (t @ [e])"
  by (auto simp: wf_rules_def sorted_wrt_append less_Suc_eq_le le_SucI)

lemma wf_rules_update:
  "wf_rules seq t \<Longrightarrow> (\<And>e. P e \<Longrightarrow> rule_id (f e) = rule_id e) \<Longrightarrow> wf_rules seq (update_where P f t)"
  by (auto simp: wf_rules_def map_update_where set_update_where)

lemma wf_rules_delete: "wf_rules seq t \<Longrightarrow> wf_rules seq (delete_where P t)"
  by (auto simp: wf_rules_def delete_where_def sorted_wrt_filter sorted_wrt_map)

lemmas wf_parts = wf_machines_update wf_machines_replace wf_machines_delete
  wf_events_append wf_events_update wf_events_delete
  wf_rules_append wf_rules_update wf_rules_delete keys_distinct_delete

lemma wf_empty_db [wf_intros]: "wf_db empty_db"
  by (simp add: wf_db_def empty_db_def keys_distinct_def one_unreleased_def wf_machines_def
      wf_reservations_def wf_rules_def wf_events_def)

lemma one_unreleasedD:
  assumes "one_unreleased t" and "r \<in> set t" and "s \<in> set t"
    and "res_mac r = res_mac s" and "unreleased r" and "unreleased s"
  shows "r = s"
  using assms by (auto simp: one_unreleased_def distinct_map inj_on_def)

lemma one_unreleased_Cons:
  "one_unreleased (r # t) \<longleftrightarrow>
     one_unreleased t \<and> (unreleased r \<longrightarrow> (\<forall>s \<in> set t. unreleased s \<longrightarrow> res_mac s \<noteq> res_mac r))"
  by (auto simp: one_unreleased_def image_iff)

lemma one_unreleased_Nil [simp]: "one_unreleased []"
  by (simp add: one_unreleased_def)

lemma one_unreleased_update:
  assumes "one_unreleased t"
    and "\<And>r. P r \<Longrightarrow> res_mac (f r) = res_mac r"
    and "\<And>r. P r \<Longrightarrow> unreleased (f r) \<Longrightarrow> unreleased r"
  shows "one_unreleased (update_where P f t)"
  using assms(1)
proof (induction t)
  case Nil
  then show ?case by simp
next
  case (Cons r t)
  have "update_where P f (r # t) = (if P r then f r else r) # update_where P f t"
    by (simp add: update_where_def)
  with Cons assms(2,3) show ?case
    by (auto simp: one_unreleased_Cons set_update_where)
qed

lemma one_unreleased_append:
  "one_unreleased (t @ [r]) \<longleftrightarrow>
     one_unreleased t \<and> (unreleased r \<longrightarrow> (\<forall>s \<in> set t. unreleased s \<longrightarrow> res_mac s \<noteq> res_mac r))"
  by (auto simp: one_unreleased_def image_iff)

lemma one_unreleased_filter: "one_unreleased t \<Longrightarrow> one_unreleased (filter P t)"
  by (induction t) (auto simp: one_unreleased_Cons)

lemma wf_reservations_update:
  assumes "wf_reservations known seq t"
    and "\<And>r. P r \<Longrightarrow> res_mac (f r) = res_mac r" and "\<And>r. P r \<Longrightarrow> res_id (f r) = res_id r"
    and "\<And>r. P r \<Longrightarrow> unreleased (f r) \<Longrightarrow> unreleased r"
    and "\<And>r. P r \<Longrightarrow> lease_kind (f r) = Permanent \<Longrightarrow> lease_kind r = Permanent \<and> expires_at (f r) = expires_at r"
  shows "wf_reservations known seq (update_where P f t)"
  using assms
  by (auto simp: wf_reservations_def keys_distinct_update set_update_where intro!: one_unreleased_update)

lemma wf_reservations_delete: "wf_reservations known seq t \<Longrightarrow> wf_reservations known seq (delete_where P t)"
  by (auto simp: wf_reservations_def keys_distinct_delete)
     (simp add: delete_where_def one_unreleased_filter)

lemma wf_insert_reservation:
  assumes wf: "wf_db d" and m: "m \<in> mac ` set (machines d)"
    and kind: "kind = Permanent \<Longrightarrow> expires = None"
    and ins: "insert_reservation now m h why kind prof expires d = (res, d')"
  shows "wf_db d'"
proof (cases "\<exists>r \<in> set (reservations d). res_mac r = m \<and> released_at r = None")
  case True
  with wf ins show ?thesis by (simp add: insert_reservation_def)
next
  case False
  let ?r = "new_reservation now m h why kind prof expires (Suc (res_seq d))"
  from False ins have d': "d' = d\<lparr>reservations := reservations d @ [?r], res_seq := Suc (res_seq d)\<rparr>"
    by (auto simp: insert_reservation_def split: if_splits)
  from False wf have "one_unreleased (reservations d @ [?r])"
    unfolding one_unreleased_append by (auto simp: wf_db_def wf_reservations_def unreleased_def)
  moreover have "keys_distinct res_id (reservations d @ [?r])"
    using wf by (fastforce simp: wf_db_def wf_reservations_def keys_distinct_def)
  ultimately show ?thesis
    using wf m kind d' by (auto simp: wf_db_def wf_reservations_def le_SucI)
qed

lemma insert_reservation_ok:
  assumes "\<And>r. r \<in> set (reservations d) \<Longrightarrow> res_mac r = m \<Longrightarrow> released_at r \<noteq> None"
  shows "fst (insert_reservation now m h why kind prof expires d) = Inr ()"
  using assms by (auto simp: insert_reservation_def)

end
