(* ===== verification/Registry.thy ===== *)
theory Registry
  imports Fleet_DB
begin

text \<open>
  \<open>MachineRegistry\<close> of \<open>src/fleetboot/server/registry.py\<close>: enrolment, what boot reports stamp on
  the machine row, power wiring, the fleet-wide settings, the boot-event log and removal.

  An operation that writes takes the database and returns the new one, with the value of the
  method; \<open>now\<close> is the second \<open>datetime('now')\<close> reads inside it. Each SQL statement commits by
  itself (\<open>isolation_level=None\<close>), so a failing operation returns the database its completed
  statements left.
\<close>

section \<open>Reading machines\<close>

definition row_to_machine :: "machine_row \<Rightarrow> Machine" where
  "row_to_machine row =
     \<lparr>mac = mac row, profile_name = profile_name row, architecture = architecture row,
      platform = platform row, created_at = created_at row, serial_console = serial_console row,
      enrolled_by = str_or (enrolled_by row) ''manual'',
      hostname = hostname row, hostname_seen_at = hostname_seen_at row,
      boot_version = boot_version row, boot_version_seen_at = boot_version_seen_at row,
      scratch_mode = str_or (scratch_mode row) ''volatile'',
      last_diagnostics = last_diagnostics row, last_diagnostics_at = last_diagnostics_at row,
      last_hardware = last_hardware row, last_hardware_at = last_hardware_at row,
      hardware_spec = parse_json_object (hardware_spec row),
      last_ip = last_ip row, last_ip_at = last_ip_at row,
      reboot_command = reboot_command row, power_on_command = power_on_command row,
      power_off_command = power_off_command row, pdu_alias = pdu_alias row,
      pending_reboot = pending_reboot row\<rparr>"

lemma row_to_machine_simps [simp]:
  "mac (row_to_machine r) = mac r" "profile_name (row_to_machine r) = profile_name r"
  "architecture (row_to_machine r) = architecture r" "platform (row_to_machine r) = platform r"
  "created_at (row_to_machine r) = created_at r" "serial_console (row_to_machine r) = serial_console r"
  "enrolled_by (row_to_machine r) = str_or (enrolled_by r) ''manual''"
  "hostname (row_to_machine r) = hostname r" "hostname_seen_at (row_to_machine r) = hostname_seen_at r"
  "boot_version (row_to_machine r) = boot_version r"
  "scratch_mode (row_to_machine r) = str_or (scratch_mode r) ''volatile''"
  "last_diagnostics (row_to_machine r) = last_diagnostics r"
  "hardware_spec (row_to_machine r) = parse_json_object (hardware_spec r)"
  "last_hardware (row_to_machine r) = last_hardware r" "last_ip (row_to_machine r) = last_ip r"
  "reboot_command (row_to_machine r) = reboot_command r"
  "power_on_command (row_to_machine r) = power_on_command r"
  "power_off_command (row_to_machine r) = power_off_command r"
  "pdu_alias (row_to_machine r) = pdu_alias r" "pending_reboot (row_to_machine r) = pending_reboot r"
  by (simp_all add: row_to_machine_def)

definition machine_at :: "string \<Rightarrow> db \<Rightarrow> machine_row option" where
  "machine_at m d = fetch_one (\<lambda>r. mac r = m) (machines d)"

definition lookup :: "string \<Rightarrow> db \<Rightarrow> Machine option" where
  "lookup m d = map_option row_to_machine (machine_at (normalise_mac m) d)"

definition list_all :: "db \<Rightarrow> Machine list" where
  "list_all d = map row_to_machine (order_by (\<lambda>r. (created_at r, mac r)) (machines d))"

section \<open>Enrolment\<close>

definition SCRATCH_MODES :: "string list" where
  "SCRATCH_MODES = [''volatile'', ''persistent'', ''off'']"

definition scratch_error :: "string \<Rightarrow> exn" where
  "scratch_error s = ValueError (''scratch_mode must be volatile/persistent/off, got '' @ py_repr s)"

definition new_machine_row ::
  "timestamp \<Rightarrow> string \<Rightarrow> string \<Rightarrow> string \<Rightarrow> string \<Rightarrow> bool \<Rightarrow> string \<Rightarrow> string \<Rightarrow> machine_row" where
  \<comment> \<open>the columns an \<open>INSERT\<close> does not name take the defaults of the schema\<close>
  "new_machine_row now m profile arch plat serial enroller scratch =
     \<lparr>mac = m, profile_name = profile, architecture = arch, platform = plat, created_at = now,
      serial_console = serial, enrolled_by = enroller, hostname = None, hostname_seen_at = None,
      boot_version = None, boot_version_seen_at = None, scratch_mode = scratch,
      last_diagnostics = None, last_diagnostics_at = None, last_hardware = None,
      last_hardware_at = None, hardware_spec = None, last_ip = None, last_ip_at = None,
      reboot_command = None, power_on_command = None, power_off_command = None,
      pdu_alias = None, pending_reboot = False\<rparr>"

definition carry_columns :: "machine_row \<Rightarrow> machine_row \<Rightarrow> machine_row" where
  "carry_columns previous r =
     r\<lparr>reboot_command := reboot_command previous, power_on_command := power_on_command previous,
       power_off_command := power_off_command previous, pdu_alias := pdu_alias previous,
       hardware_spec := hardware_spec previous\<rparr>"

definition upd_machine :: "string \<Rightarrow> (machine_row \<Rightarrow> machine_row) \<Rightarrow> db \<Rightarrow> db" where
  \<comment> \<open>\<open>UPDATE machines SET ... WHERE mac = ?\<close>\<close>
  "upd_machine m f d = d\<lparr>machines := update_where (\<lambda>r. mac r = m) f (machines d)\<rparr>"

definition enrolment_purpose :: string where
  "enrolment_purpose = ''enrolled '' @ [CHR 0x97] @ '' permanent by default''"

definition enroll ::
  "timestamp \<Rightarrow> string \<Rightarrow> string \<Rightarrow> string \<Rightarrow> string \<Rightarrow> bool \<Rightarrow> string \<Rightarrow> string \<Rightarrow> db
   \<Rightarrow> Machine result \<times> db" where
  "enroll now m profile arch plat serial enroller scratch d =
     (if scratch \<notin> set SCRATCH_MODES then (Inl (scratch_error scratch), d)
      else
        let nm = normalise_mac m;
            previous = machine_at nm d;
            d1 = d\<lparr>machines := replace_row mac
                     (new_machine_row now nm profile arch plat serial enroller scratch) (machines d)\<rparr>;
            (written, d2) = (case previous of
               Some p \<Rightarrow> (Inr (), upd_machine nm (carry_columns p) d1)
             | None \<Rightarrow> insert_reservation now nm enroller
                 (Some enrolment_purpose) Permanent (Some profile) None d1)
        in case written of
             Inl e \<Rightarrow> (Inl e, d2)
           | Inr _ \<Rightarrow> (case lookup nm d2 of
                 Some machine \<Rightarrow> (Inr machine, d2)
               | None \<Rightarrow> (Inl AssertionError, d2)))"

section \<open>What boot reports stamp on the machine row\<close>

definition update_hostname :: "timestamp \<Rightarrow> string \<Rightarrow> string \<Rightarrow> db \<Rightarrow> db" where
  "update_hostname now m h d =
     (let nm = normalise_mac m; cleaned = strip h in
      if cleaned = [] then d
      else upd_machine nm (\<lambda>r. r\<lparr>hostname := Some cleaned, hostname_seen_at := Some now\<rparr>) d)"

definition update_last_ip :: "timestamp \<Rightarrow> string \<Rightarrow> string \<Rightarrow> db \<Rightarrow> db" where
  "update_last_ip now m ip d =
     (let nm = normalise_mac m; cleaned = strip ip in
      if cleaned = [] then d
      else upd_machine nm (\<lambda>r. r\<lparr>last_ip := Some cleaned, last_ip_at := Some now\<rparr>) d)"

definition update_diagnostics :: "timestamp \<Rightarrow> string \<Rightarrow> string \<Rightarrow> db \<Rightarrow> db" where
  "update_diagnostics now m text d =
     (let nm = normalise_mac m; cleaned = strip text in
      if cleaned = [] then d
      else upd_machine nm (\<lambda>r. r\<lparr>last_diagnostics := Some cleaned, last_diagnostics_at := Some now\<rparr>) d)"

definition update_boot_version :: "timestamp \<Rightarrow> string \<Rightarrow> string \<Rightarrow> db \<Rightarrow> db" where
  "update_boot_version now m version d =
     (let nm = normalise_mac m; cleaned = strip version in
      if cleaned = [] then d
      else upd_machine nm (\<lambda>r. r\<lparr>boot_version := Some cleaned, boot_version_seen_at := Some now\<rparr>) d)"

definition update_hardware :: "timestamp \<Rightarrow> string \<Rightarrow> json_text \<Rightarrow> db \<Rightarrow> db" where
  "update_hardware now m hardware_json d =
     (let nm = normalise_mac m; cleaned = strip_text hardware_json in
      if blank_text hardware_json then d
      else
        let latest_spec = spec_from_inventory (map_option JObj (parse_json_object (Some cleaned))) in
        case machine_at nm d of
          None \<Rightarrow> d
        | Some row \<Rightarrow>
            (let spec = merge_spec (parse_json_object (hardware_spec row)) latest_spec in
             upd_machine nm (\<lambda>r. r\<lparr>last_hardware := Some cleaned, last_hardware_at := Some now,
                hardware_spec := (if spec \<noteq> [] then Some (JsonText (JObj spec)) else None)\<rparr>) d))"

definition set_profile :: "string \<Rightarrow> string \<Rightarrow> db \<Rightarrow> bool result \<times> db" where
  "set_profile m profile d =
     (let cleaned = strip profile in
      if cleaned = [] then (Inl (ValueError ''profile_name must not be empty''), d)
      else
        let nm = normalise_mac m in
        (Inr (0 < rowcount (\<lambda>r. mac r = nm) (machines d)),
         upd_machine nm (\<lambda>r. r\<lparr>profile_name := cleaned\<rparr>) d))"

section \<open>Power wiring\<close>

definition set_pending_reboot :: "string \<Rightarrow> bool \<Rightarrow> db \<Rightarrow> db" where
  "set_pending_reboot m pending d =
     upd_machine (normalise_mac m) (\<lambda>r. r\<lparr>pending_reboot := pending\<rparr>) d"

datatype power_column = Power_On_Column | Power_Off_Column | Reboot_Column

definition POWER_COMMAND_COLUMNS :: "power_column pydict" where
  "POWER_COMMAND_COLUMNS =
     [(''on'', Power_On_Column), (''off'', Power_Off_Column), (''reboot'', Reboot_Column)]"

primrec set_column :: "power_column \<Rightarrow> string option \<Rightarrow> machine_row \<Rightarrow> machine_row" where
  "set_column Power_On_Column v r = r\<lparr>power_on_command := v\<rparr>"
| "set_column Power_Off_Column v r = r\<lparr>power_off_command := v\<rparr>"
| "set_column Reboot_Column v r = r\<lparr>reboot_command := v\<rparr>"

definition set_power_command :: "string \<Rightarrow> string \<Rightarrow> string option \<Rightarrow> db \<Rightarrow> unit result \<times> db" where
  "set_power_command m action command d =
     (case dict_get POWER_COMMAND_COLUMNS action of
        None \<Rightarrow> (Inl (ValueError (''unknown power action '' @ py_repr action
                  @ ''; expected one of off, on, reboot'')), d)
      | Some column \<Rightarrow>
          (let nm = normalise_mac m; v = none_if_empty (strip (opt_str command)) in
           (Inr (), upd_machine nm (set_column column v) d)))"

definition set_reboot_command :: "string \<Rightarrow> string option \<Rightarrow> db \<Rightarrow> unit result \<times> db" where
  "set_reboot_command m command d = set_power_command m ''reboot'' command d"

definition set_pdu_alias :: "string \<Rightarrow> string option \<Rightarrow> db \<Rightarrow> db" where
  "set_pdu_alias m alias d =
     (let nm = normalise_mac m; v = none_if_empty (strip (opt_str alias)) in
      upd_machine nm (\<lambda>r. r\<lparr>pdu_alias := v\<rparr>) d)"

section \<open>Fleet-wide settings\<close>

definition get_setting :: "string \<Rightarrow> db \<Rightarrow> string option" where
  "get_setting key d = (case fetch_one (\<lambda>r. set_key r = key) (settings d) of
     None \<Rightarrow> None
   | Some row \<Rightarrow> none_if_empty (strip (set_value row)))"

definition set_setting :: "timestamp \<Rightarrow> string \<Rightarrow> string option \<Rightarrow> db \<Rightarrow> db" where
  "set_setting now key v d =
     (let cleaned = strip (opt_str v) in
      if cleaned = [] then d\<lparr>settings := delete_where (\<lambda>r. set_key r = key) (settings d)\<rparr>
      else if \<exists>r \<in> set (settings d). set_key r = key
      then d\<lparr>settings := update_where (\<lambda>r. set_key r = key)
               (\<lambda>r. r\<lparr>set_value := cleaned, updated_at := now\<rparr>) (settings d)\<rparr>
      else d\<lparr>settings := settings d @ [\<lparr>set_key = key, set_value = cleaned, updated_at = now\<rparr>]\<rparr>)"

section \<open>Boot events\<close>

definition latest_event :: "string \<Rightarrow> db \<Rightarrow> boot_event option" where
  "latest_event m d = last_by ev_id (select_where (\<lambda>e. ev_mac e = m) (boot_events d))"

definition log_boot_event :: "timestamp \<Rightarrow> string \<Rightarrow> string \<Rightarrow> string option \<Rightarrow> db \<Rightarrow> db" where
  "log_boot_event now m state detail d =
     (let nm = normalise_mac m;
          fresh = d\<lparr>boot_events := boot_events d @
                     [\<lparr>ev_id = Suc (ev_seq d), ev_mac = nm, ev_state = state, ev_detail = detail,
                       occurred_at = now\<rparr>],
                    ev_seq := Suc (ev_seq d)\<rparr>
      in case latest_event nm d of
           None \<Rightarrow> fresh
         | Some latest \<Rightarrow>
             (if ev_state latest = state \<and> opt_str (ev_detail latest) = opt_str detail
              then d\<lparr>boot_events := update_where (\<lambda>e. ev_id e = ev_id latest)
                       (\<lambda>e. e\<lparr>occurred_at := now\<rparr>) (boot_events d)\<rparr>
              else fresh))"

definition recent_boot_events :: "int \<Rightarrow> string option \<Rightarrow> db \<Rightarrow> boot_event list" where
  "recent_boot_events limit m d =
     sql_limit limit (order_by (\<lambda>e. (- occurred_at e, - int (ev_id e)))
       (case m of
          Some x \<Rightarrow> select_where (\<lambda>e. ev_mac e = normalise_mac x) (boot_events d)
        | None \<Rightarrow> boot_events d))"

section \<open>Removal\<close>

definition remove :: "string \<Rightarrow> db \<Rightarrow> bool \<times> db" where
  "remove m d =
     (let nm = normalise_mac m in
      (0 < rowcount (\<lambda>r. mac r = nm) (machines d),
       d\<lparr>boot_events := delete_where (\<lambda>e. ev_mac e = nm) (boot_events d),
         boot_sessions := map_option (delete_where (\<lambda>s. sess_mac s = nm)) (boot_sessions d),
         reservations := delete_where (\<lambda>r. res_mac r = nm) (reservations d),
         machines := delete_where (\<lambda>r. mac r = nm) (machines d)\<rparr>))"

section \<open>Reads after writes\<close>

lemma upd_machine_other [simp]:
  "boot_events (upd_machine m f d) = boot_events d" "settings (upd_machine m f d) = settings d"
  "auto_enrol_rules (upd_machine m f d) = auto_enrol_rules d"
  "reservations (upd_machine m f d) = reservations d"
  "boot_sessions (upd_machine m f d) = boot_sessions d" "ev_seq (upd_machine m f d) = ev_seq d"
  "rule_seq (upd_machine m f d) = rule_seq d" "res_seq (upd_machine m f d) = res_seq d"
  by (simp_all add: upd_machine_def)

lemma machine_at_upd [table_simps]:
  assumes "\<And>r. mac (f r) = mac r"
  shows "machine_at k (upd_machine m f d)
       = (if k = m then map_option f (machine_at k d) else machine_at k d)"
proof -
  have "machine_at k (upd_machine m f d)
      = map_option (\<lambda>r. if mac r = m then f r else r) (machine_at k d)"
    unfolding machine_at_def upd_machine_def using assms
    by (simp add: fetch_one_update_where)
  then show ?thesis
    by (cases "machine_at k d") (auto simp: machine_at_def dest: fetch_one_SomeD)
qed

lemma machine_at_SomeD: "machine_at k d = Some r \<Longrightarrow> r \<in> set (machines d) \<and> mac r = k"
  by (auto simp: machine_at_def dest: fetch_one_SomeD)

lemma machine_at_None: "machine_at k d = None \<longleftrightarrow> k \<notin> mac ` set (machines d)"
  by (auto simp: machine_at_def fetch_one_None)

lemma machine_at_known: "(\<exists>r. machine_at k d = Some r) \<longleftrightarrow> k \<in> mac ` set (machines d)"
  using machine_at_None [of k d] by (cases "machine_at k d") auto

lemma machine_at_replace [table_simps]:
  "machine_at k (d\<lparr>machines := replace_row mac r (machines d)\<rparr>)
   = (if mac r = k then Some r else machine_at k d)"
  by (simp add: machine_at_def fetch_one_replace)

lemma machine_at_reservations [simp]:
  "machine_at k (reservations_update g d) = machine_at k d"
  "machine_at k (res_seq_update h d) = machine_at k d"
  by (simp_all add: machine_at_def)

lemma machines_upd:
  "(\<And>r. mac (f r) = mac r) \<Longrightarrow> mac ` set (machines (upd_machine m f d)) = mac ` set (machines d)"
  by (simp only: upd_machine_def list.set_map [symmetric]) (simp add: map_update_where)

lemma lookup_SomeD: "lookup m d = Some x \<Longrightarrow> mac x = normalise_mac m"
  by (auto simp: lookup_def dest!: machine_at_SomeD)

lemma lookup_None: "lookup m d = None \<longleftrightarrow> normalise_mac m \<notin> mac ` set (machines d)"
  by (simp add: lookup_def machine_at_None)

section \<open>The invariant is preserved\<close>

lemma wf_upd_machine [wf_intros]:
  "wf_db d \<Longrightarrow> (\<And>r. mac (f r) = mac r) \<Longrightarrow> wf_db (upd_machine m f d)"
  by (simp add: wf_db_def machines_upd) (simp add: upd_machine_def wf_machines_update)

lemma set_column_mac [simp]: "mac (set_column c v r) = mac r"
  by (cases c) simp_all

lemma carry_columns_mac [simp]: "mac (carry_columns p r) = mac r"
  by (simp add: carry_columns_def)

lemma wf_stamps [wf_intros]:
  assumes "wf_db d"
  shows "wf_db (update_hostname now m x d)" "wf_db (update_last_ip now m x d)"
    "wf_db (update_diagnostics now m x d)" "wf_db (update_boot_version now m x d)"
    "wf_db (update_hardware now m j d)" "wf_db (set_pending_reboot m b d)"
    "wf_db (set_pdu_alias m v d)" "wf_db (snd (set_power_command m action v d))"
    "wf_db (snd (set_profile m x d))"
  using assms
  by (auto simp: update_hostname_def update_last_ip_def update_diagnostics_def
      update_boot_version_def update_hardware_def set_pending_reboot_def set_pdu_alias_def
      set_power_command_def set_profile_def Let_def intro!: wf_upd_machine split: option.split)

lemma wf_set_setting [wf_intros]: "wf_db d \<Longrightarrow> wf_db (set_setting now key v d)"
  by (auto simp: set_setting_def wf_db_def Let_def keys_distinct_update intro: keys_distinct_delete)
     (auto simp: keys_distinct_def)

lemma wf_log_boot_event [wf_intros]:
  "wf_db d \<Longrightarrow> wf_db (log_boot_event now m state detail d)"
  by (auto simp: log_boot_event_def wf_db_def Let_def wf_events_append wf_events_update
      split: option.split)

lemma wf_remove [wf_intros]: "wf_db d \<Longrightarrow> wf_db (snd (remove m d))"
  by (auto simp: remove_def wf_db_def Let_def wf_machines_delete wf_events_delete)
     (auto simp: wf_reservations_def keys_distinct_delete [unfolded delete_where_def]
        delete_where_def one_unreleased_filter)

section \<open>Enrolment\<close>

lemma wf_replace_machine:
  assumes "wf_db d" and "normal_mac (mac r)"
  shows "wf_db (d\<lparr>machines := replace_row mac r (machines d)\<rparr>)"
  using assms
  by (auto simp: wf_db_def wf_machines_replace map_replace_row
      intro: wf_reservations_known [of "mac ` set (machines d)"])

lemma unknown_unreserved:
  "wf_db d \<Longrightarrow> k \<notin> mac ` set (machines d) \<Longrightarrow> r \<in> set (reservations d) \<Longrightarrow> res_mac r \<noteq> k"
  by (auto simp: wf_db_def wf_reservations_def)

lemma insert_reservation_unknown:
  assumes "wf_db d" and "k \<notin> mac ` set (machines d)" and "reservations e = reservations d"
  shows "insert_reservation now k h why kind prof expires e
       = (Inr (), e\<lparr>reservations := reservations d @
            [new_reservation now k h why kind prof expires (Suc (res_seq e))],
          res_seq := Suc (res_seq e)\<rparr>)"
  using unknown_unreserved [OF assms(1,2)] assms(3) by (auto simp: insert_reservation_def)

lemma enroll_known:
  assumes "scratch \<in> set SCRATCH_MODES" and "machine_at (normalise_mac m) d = Some old"
    and row_def: "row = carry_columns old
    (new_machine_row now (normalise_mac m) profile arch plat serial enroller scratch)"
  shows "\<exists>d'. enroll now m profile arch plat serial enroller scratch d = (Inr (row_to_machine row), d')
    \<and> reservations d' = reservations d \<and> mac ` set (machines d') = mac ` set (machines d)
    \<and> (wf_db d \<longrightarrow> wf_db d')
    \<and> (\<forall>k. machine_at k d' = (if k = normalise_mac m then Some row else machine_at k d))"
proof -
  let ?nm = "normalise_mac m"
  let ?d1 = "d\<lparr>machines := replace_row mac
     (new_machine_row now ?nm profile arch plat serial enroller scratch) (machines d)\<rparr>"
  let ?d2 = "upd_machine ?nm (carry_columns old) ?d1"
  have at: "machine_at k ?d2 = (if k = ?nm then Some row else machine_at k d)" for k
    by (simp add: table_simps row_def new_machine_row_def)
  then have "enroll now m profile arch plat serial enroller scratch d = (Inr (row_to_machine row), ?d2)"
    using assms(1,2) by (simp add: enroll_def lookup_def Let_def)
  moreover have "mac ` set (machines ?d2) = mac ` set (machines d)"
    using machine_at_SomeD [OF assms(2)]
    by (simp add: machines_upd map_replace_row new_machine_row_def) (metis imageI insert_absorb)
  moreover have "wf_db d \<longrightarrow> wf_db ?d2"
    by (auto intro!: wf_upd_machine wf_replace_machine simp: new_machine_row_def)
  ultimately show ?thesis using at by (intro exI [of _ ?d2]) simp
qed

lemma enroll_new:
  assumes "wf_db d" and "scratch \<in> set SCRATCH_MODES" and "machine_at (normalise_mac m) d = None"
    and row_def: "row = new_machine_row now (normalise_mac m) profile arch plat serial enroller scratch"
  shows "\<exists>d'. enroll now m profile arch plat serial enroller scratch d = (Inr (row_to_machine row), d')
    \<and> reservations d' = reservations d @ [new_reservation now (normalise_mac m) enroller
         (Some enrolment_purpose) Permanent (Some profile) None (Suc (res_seq d))]
    \<and> wf_db d'
    \<and> (\<forall>k. machine_at k d' = (if k = normalise_mac m then Some row else machine_at k d))"
proof -
  let ?nm = "normalise_mac m"
  let ?d1 = "d\<lparr>machines := replace_row mac row (machines d)\<rparr>"
  let ?new = "new_reservation now ?nm enroller (Some enrolment_purpose) Permanent (Some profile) None (Suc (res_seq d))"
  let ?d2 = "?d1\<lparr>reservations := reservations d @ [?new], res_seq := Suc (res_seq d)\<rparr>"
  have mac_row: "mac row = ?nm" by (simp add: row_def new_machine_row_def)
  have at: "machine_at k ?d2 = (if k = ?nm then Some row else machine_at k d)" for k
    using mac_row by (simp add: machine_at_def fetch_one_replace)
  have ins: "insert_reservation now ?nm enroller (Some enrolment_purpose) Permanent (Some profile) None ?d1
           = (Inr (), ?d2)"
    using insert_reservation_unknown [OF assms(1), of ?nm ?d1] assms(3) by (simp add: machine_at_None)
  then have "enroll now m profile arch plat serial enroller scratch d = (Inr (row_to_machine row), ?d2)"
    using assms(2,3) at by (simp add: enroll_def lookup_def row_def Let_def)
  moreover have "wf_db ?d1"
    using assms(1) mac_row by (intro wf_replace_machine) simp_all
  then have "wf_db ?d2"
    by (rule wf_insert_reservation [OF _ _ _ ins]) (auto simp: map_replace_row mac_row)
  ultimately show ?thesis using at by (intro exI [of _ ?d2]) simp
qed

text \<open>C35: Enrolment with a valid scratch mode always succeeds on a well-formed database and
  keeps it well-formed: the machine it returns is the one \<open>lookup\<close> then finds, with the fields
  given and no trace of an earlier boot. A machine that was unknown gets a permanent hold, so
  it is not claimable; a known one keeps its holds, its power wiring and its hardware spec. No
  other machine changes.\<close>
theorem enroll_correct:
  assumes "wf_db d" and "scratch \<in> set SCRATCH_MODES"
  shows "\<exists>machine d'. enroll now m profile arch plat serial enroller scratch d = (Inr machine, d')
    \<and> wf_db d' \<and> lookup m d' = Some machine
    \<and> mac machine = normalise_mac m \<and> profile_name machine = profile \<and> architecture machine = arch
    \<and> platform machine = plat \<and> serial_console machine = serial \<and> scratch_mode machine = scratch
    \<and> hostname machine = None \<and> boot_version machine = None \<and> \<not> pending_reboot machine
    \<and> (case lookup m d of
         None \<Rightarrow> reservations d' = reservations d @ [new_reservation now (normalise_mac m) enroller
                   (Some enrolment_purpose) Permanent (Some profile) None (Suc (res_seq d))]
       | Some old \<Rightarrow> reservations d' = reservations d \<and> hardware_spec machine = hardware_spec old
           \<and> reboot_command machine = reboot_command old
           \<and> power_on_command machine = power_on_command old
           \<and> power_off_command machine = power_off_command old \<and> pdu_alias machine = pdu_alias old)
    \<and> (\<forall>other. normalise_mac other \<noteq> normalise_mac m \<longrightarrow> lookup other d' = lookup other d)"
proof (cases "machine_at (normalise_mac m) d")
  case None
  let ?row = "new_machine_row now (normalise_mac m) profile arch plat serial enroller scratch"
  from assms(2) have "scratch \<noteq> []" by (auto simp: SCRATCH_MODES_def)
  moreover obtain d' where "enroll now m profile arch plat serial enroller scratch d = (Inr (row_to_machine ?row), d')"
    and "reservations d' = reservations d @ [new_reservation now (normalise_mac m) enroller
         (Some enrolment_purpose) Permanent (Some profile) None (Suc (res_seq d))]"
    and "wf_db d'" and "\<forall>k. machine_at k d' = (if k = normalise_mac m then Some ?row else machine_at k d)"
    using enroll_new [OF assms None refl] by blast
  ultimately show ?thesis
    using None by (intro exI [of _ "row_to_machine ?row"] exI [of _ d'])
      (simp add: lookup_def, simp add: new_machine_row_def str_or_def)
next
  case (Some old)
  let ?row = "carry_columns old
    (new_machine_row now (normalise_mac m) profile arch plat serial enroller scratch)"
  from assms(2) have "scratch \<noteq> []" by (auto simp: SCRATCH_MODES_def)
  moreover obtain d' where "enroll now m profile arch plat serial enroller scratch d = (Inr (row_to_machine ?row), d')"
    and "reservations d' = reservations d" and "wf_db d'"
    and "\<forall>k. machine_at k d' = (if k = normalise_mac m then Some ?row else machine_at k d)"
    using enroll_known [OF assms(2) Some refl] assms(1) by blast
  ultimately show ?thesis
    using Some by (intro exI [of _ "row_to_machine ?row"] exI [of _ d'])
      (simp add: lookup_def, simp add: new_machine_row_def carry_columns_def str_or_def)
qed

lemma enroll_correct_witness:
  "\<exists>machine d'. enroll 5 ''AA-0B'' ''desktop'' ''x86_64'' ''efi'' False ''manual'' ''volatile'' empty_db = (Inr machine, d')
    \<and> mac machine = ''aa:0b'' \<and> map lease_kind (reservations d') = [Permanent]"
proof -
  have "normalise_mac ''AA-0B'' = ''aa:0b''" by code_simp
  moreover have "lookup m empty_db = None" for m
    by (simp add: lookup_def machine_at_def empty_db_def)
  ultimately show ?thesis
    using enroll_correct [OF wf_empty_db, of "''volatile''" 5 "''AA-0B''" "''desktop''" "''x86_64''"
        "''efi''" False "''manual''"]
    by (auto simp: SCRATCH_MODES_def empty_db_def)
qed

section \<open>The boot-event log\<close>

definition events_of :: "string \<Rightarrow> db \<Rightarrow> boot_event list" where
  "events_of m d = select_where (\<lambda>e. ev_mac e = m) (boot_events d)"

definition event_content :: "boot_event \<Rightarrow> string \<times> string" where
  "event_content e = (ev_state e, opt_str (ev_detail e))"

definition coalesced :: "db \<Rightarrow> bool" where
  \<comment> \<open>no machine has two consecutive events with the same state and detail\<close>
  "coalesced d \<longleftrightarrow> (\<forall>m \<in> ev_mac ` set (boot_events d). distinct_adj (map event_content (events_of m d)))"

lemma coalescedD: "coalesced d \<Longrightarrow> distinct_adj (map event_content (events_of m d))"
  by (cases "events_of m d = []")
     (force simp: coalesced_def events_of_def select_where_def filter_empty_conv)+

lemma latest_event_eq:
  assumes "wf_db d"
  shows "latest_event m d = (if events_of m d = [] then None else Some (last (events_of m d)))"
proof -
  have "sorted_wrt (<) (map ev_id (events_of m d))"
    using assms by (simp add: wf_db_def wf_events_def events_of_def select_where_def sorted_wrt_filter sorted_wrt_map)
  then have "sorted (map ev_id (events_of m d))"
    by (rule strict_sorted_imp_sorted)
  then show ?thesis
    by (auto simp: latest_event_def events_of_def [symmetric] last_by_sorted)
qed

lemma log_boot_event_same:
  assumes "latest_event (normalise_mac m) d = Some e" and "event_content e = (state, opt_str detail)"
  shows "log_boot_event now m state detail d
       = d\<lparr>boot_events := update_where (\<lambda>x. ev_id x = ev_id e) (\<lambda>x. x\<lparr>occurred_at := now\<rparr>) (boot_events d)\<rparr>"
  using assms by (simp add: log_boot_event_def event_content_def Let_def)

lemma log_boot_event_fresh:
  assumes "\<And>e. latest_event (normalise_mac m) d = Some e \<Longrightarrow> event_content e \<noteq> (state, opt_str detail)"
  shows "log_boot_event now m state detail d
       = d\<lparr>boot_events := boot_events d @ [\<lparr>ev_id = Suc (ev_seq d), ev_mac = normalise_mac m,
            ev_state = state, ev_detail = detail, occurred_at = now\<rparr>], ev_seq := Suc (ev_seq d)\<rparr>"
  using assms by (auto simp: log_boot_event_def event_content_def Let_def split: option.split)

lemma events_after_same:
  assumes wf: "wf_db d" and nm: "nm = normalise_mac m"
    and e: "latest_event nm d = Some e" and c: "event_content e = (state, opt_str detail)"
  shows "events_of k (log_boot_event now m state detail d)
       = (if k = nm then butlast (events_of nm d) @ [e\<lparr>occurred_at := now\<rparr>] else events_of k d)"
proof -
  let ?P = "\<lambda>x. ev_id x = ev_id e"
  let ?f = "\<lambda>x. x\<lparr>occurred_at := now\<rparr>"
  have log: "events_of k (log_boot_event now m state detail d) = update_where ?P ?f (events_of k d)" for k
    using log_boot_event_same [OF e [unfolded nm] c, of now]
    by (simp add: events_of_def select_update_where)
  from e latest_event_eq [OF wf, of nm] have ne: "events_of nm d \<noteq> []" and last: "last (events_of nm d) = e"
    by (auto split: if_splits)
  then have split: "events_of nm d = butlast (events_of nm d) @ [e]"
    by (metis append_butlast_last_id)
  have distinct: "distinct (map ev_id (boot_events d))"
    using wf by (simp add: wf_db_def wf_events_def strict_sorted_iff)
  have mem: "e \<in> set (boot_events d)" "ev_mac e = nm"
    using last_in_set [OF ne] last by (auto simp: events_of_def)
  have same: "x = e" if "x \<in> set (boot_events d)" "ev_id x = ev_id e" for x
    using distinct that mem by (auto simp: distinct_map inj_on_def)
  have other: "update_where ?P ?f (events_of k d) = events_of k d" if "k \<noteq> nm"
    using that mem same by (intro update_where_id) (auto simp: events_of_def)
  have "distinct (map ev_id (butlast (events_of nm d) @ [e]))"
    using distinct split by (simp add: events_of_def select_where_def distinct_map_filter)
  then have "update_where ?P ?f (butlast (events_of nm d)) = butlast (events_of nm d)"
    by (intro update_where_id) (force simp: image_iff)
  then have "update_where ?P ?f (events_of nm d) = butlast (events_of nm d) @ [?f e]"
    by (subst split) (simp add: update_where_def)
  with other show ?thesis by (simp add: log)
qed

lemma events_after_fresh:
  assumes "\<And>e. latest_event (normalise_mac m) d = Some e \<Longrightarrow> event_content e \<noteq> (state, opt_str detail)"
  shows "events_of k (log_boot_event now m state detail d)
       = (if k = normalise_mac m
          then events_of k d @ [\<lparr>ev_id = Suc (ev_seq d), ev_mac = k, ev_state = state,
                ev_detail = detail, occurred_at = now\<rparr>]
          else events_of k d)"
  using log_boot_event_fresh [OF assms, where now = now]
  by (simp add: events_of_def select_where_append) (simp add: select_where_def)



section \<open>Hardware reports\<close>

lemma update_hardware_lookup:
  assumes "lookup m d = Some old"
  shows "lookup m (update_hardware now m (JsonText (JObj rep)) d) = Some (old\<lparr>
     last_hardware := Some (JsonText (JObj rep)), last_hardware_at := Some now,
     hardware_spec := (let spec = merge_spec (hardware_spec old) (spec_from_inventory (Some (JObj rep)))
       in if spec \<noteq> [] then Some spec else None)\<rparr>)"
proof -
  obtain row where row: "machine_at (normalise_mac m) d = Some row" and old: "old = row_to_machine row"
    using assms by (auto simp: lookup_def)
  then show ?thesis
    by (simp add: update_hardware_def Let_def lookup_def table_simps parse_json_object_def
        row_to_machine_def del: spec_from_object)
qed

text \<open>A hardware report of a known machine replaces the sections of the spec it covers and
  keeps every other one: reading a section afterwards gives the value distilled from the report
  when there is one, and otherwise what was stored before. A reported RAM total is a positive
  number. No other machine's row changes.\<close>
theorem hardware_report_keeps_sections:
  assumes "lookup m d = Some old"
  shows "\<exists>new. lookup m (update_hardware now m (JsonText (JObj rep)) d) = Some new
    \<and> (\<forall>k. spec_section (hardware_spec new) k =
         (case dict_get (spec_from_inventory (Some (JObj rep))) k of
            None \<Rightarrow> spec_section (hardware_spec old) k
          | Some v \<Rightarrow> Some v))
    \<and> (ram_total_mb (hardware_spec new) = ram_total_mb (hardware_spec old)
       \<or> (\<exists>n > 0. ram_total_mb (hardware_spec new) = Some (JInt n)))
    \<and> last_hardware new = Some (JsonText (JObj rep))
    \<and> hostname new = hostname old \<and> profile_name new = profile_name old
    \<and> (\<forall>other. normalise_mac other \<noteq> normalise_mac m \<longrightarrow>
         lookup other (update_hardware now m (JsonText (JObj rep)) d) = lookup other d)"
proof -
  let ?latest = "spec_from_inventory (Some (JObj rep))"
  let ?spec = "merge_spec (hardware_spec old) ?latest"
  let ?new = "old\<lparr>last_hardware := Some (JsonText (JObj rep)), last_hardware_at := Some now,
     hardware_spec := (if ?spec \<noteq> [] then Some ?spec else None)\<rparr>"
  have new: "lookup m (update_hardware now m (JsonText (JObj rep)) d) = Some ?new"
    using update_hardware_lookup [OF assms, of now rep] by (simp add: Let_def)
  have sections: "spec_section (hardware_spec ?new) k =
      (case dict_get ?latest k of None \<Rightarrow> spec_section (hardware_spec old) k | Some v \<Rightarrow> Some v)" for k
    using section_or_none [of ?spec k] by (simp add: merge_spec_get del: spec_from_object section_or_none)
  have "ram_total_mb (hardware_spec ?new) = ram_total_mb (hardware_spec old)
       \<or> (\<exists>n > 0. ram_total_mb (hardware_spec ?new) = Some (JInt n))"
    unfolding ram_total_mb_def sections
    using ram_section_positive [of rep]
    by (cases "ram_section rep") (auto simp: spec_get simp del: spec_from_object)
  moreover have "lookup other (update_hardware now m (JsonText (JObj rep)) d) = lookup other d"
    if "normalise_mac other \<noteq> normalise_mac m" for other
    using that by (simp add: update_hardware_def Let_def lookup_def table_simps split: option.split)
  ultimately show ?thesis using new sections by auto
qed

lemma hardware_report_keeps_sections_witness:
  "\<exists>d old new. lookup ''AA'' d = Some old \<and> hardware_spec old = None
    \<and> lookup ''AA'' (update_hardware 9 ''AA'' (JsonText (JObj [(''mem_total_mb'', JInt 2048)])) d) = Some new
    \<and> ram_total_mb (hardware_spec new) = Some (JInt 2048)"
proof -
  have nm: "normalise_mac ''AA'' = ''aa''" by code_simp
  let ?rep = "[(''mem_total_mb'', JInt 2048)]"
  let ?row = "new_machine_row 1 ''aa'' ''p'' ''x86_64'' ''efi'' False ''manual'' ''volatile''"
  let ?d = "empty_db\<lparr>machines := [?row]\<rparr>"
  have look: "lookup ''AA'' ?d = Some (row_to_machine ?row)"
    by (simp add: lookup_def machine_at_def nm new_machine_row_def)
  have none: "hardware_spec (row_to_machine ?row) = None"
    by (simp add: new_machine_row_def parse_json_object_def)
  have ram: "dict_get (spec_from_inventory (Some (JObj ?rep))) ''ram_total_mb'' = Some (JInt 2048)"
    by (simp add: spec_get ram_section_def is_positive_whole_number_def del: spec_from_object)
  obtain new where new: "lookup ''AA'' (update_hardware 9 ''AA'' (JsonText (JObj ?rep)) ?d) = Some new"
    and sec: "\<forall>k. spec_section (hardware_spec new) k =
         (case dict_get (spec_from_inventory (Some (JObj ?rep))) k of
            None \<Rightarrow> spec_section (hardware_spec (row_to_machine ?row)) k
          | Some v \<Rightarrow> Some v)"
    using hardware_report_keeps_sections [OF look, of 9 ?rep] by blast
  have "ram_total_mb (hardware_spec new) = Some (JInt 2048)"
    using sec [rule_format, of "''ram_total_mb''"] ram by (simp add: ram_total_mb_def)
  with look none new show ?thesis by blast
qed

section \<open>Settings and removal\<close>

lemma setting_row_after:
  assumes "k = key \<Longrightarrow> strip (opt_str v) \<noteq> []"
  shows "map_option set_value (fetch_one (\<lambda>r. set_key r = k) (settings (set_setting now key v d)))
     = (if k = key then Some (strip (opt_str v))
        else map_option set_value (fetch_one (\<lambda>r. set_key r = k) (settings d)))"
proof (cases "k = key")
  case True
  show ?thesis
  proof (cases "fetch_one (\<lambda>r. set_key r = key) (settings d)")
    case None
    then have "\<not> (\<exists>r \<in> set (settings d). set_key r = key)" by (simp add: fetch_one_None)
    with True None assms show ?thesis by (simp add: set_setting_def fetch_one_append)
  next
    case (Some row)
    then have "\<exists>r \<in> set (settings d). set_key r = key" and "set_key row = key"
      by (auto dest: fetch_one_SomeD)
    with True Some assms show ?thesis by (simp add: set_setting_def fetch_one_update_where)
  qed
next
  case False
  then show ?thesis
    by (cases "fetch_one (\<lambda>r. set_key r = k) (settings d)")
       (auto simp: set_setting_def Let_def fetch_one_append fetch_one_update_where
          fetch_one_delete_other dest: fetch_one_SomeD)
qed

text \<open>A setting written is the setting read, stripped of surrounding white space; a blank
  value clears it; no other setting changes.\<close>
theorem setting_roundtrip:
  "get_setting k (set_setting now key v d) =
     (if k = key then none_if_empty (strip (opt_str v)) else get_setting k d)"
proof (cases "k = key \<and> strip (opt_str v) = []")
  case True
  then show ?thesis by (auto simp: get_setting_def set_setting_def fetch_one_delete_same none_if_empty_def)
next
  case False
  have get: "get_setting j e = Option.bind (map_option set_value (fetch_one (\<lambda>r. set_key r = j) (settings e)))
      (\<lambda>x. none_if_empty (strip x))" for j e
    by (simp add: get_setting_def Option.bind_map_option split: option.split)
  from False show ?thesis
    unfolding get by (subst setting_row_after) auto
qed

text \<open>Removing a machine reports whether it was there and leaves nothing of it behind: no row,
  no hold, no logged event and no boot session. Everything of every other machine stays.\<close>
theorem remove_purges:
  "fst (remove m d) = (lookup m d \<noteq> None)
   \<and> (\<forall>k. lookup k (snd (remove m d)) = (if normalise_mac k = normalise_mac m then None else lookup k d))
   \<and> set (reservations (snd (remove m d))) = {r \<in> set (reservations d). res_mac r \<noteq> normalise_mac m}
   \<and> (\<forall>k. events_of k (snd (remove m d)) = (if k = normalise_mac m then [] else events_of k d))
   \<and> map_option set (boot_sessions (snd (remove m d)))
     = map_option (\<lambda>t. {s \<in> set t. sess_mac s \<noteq> normalise_mac m}) (boot_sessions d)"
proof -
  have "machine_at k (snd (remove m d)) = (if k = normalise_mac m then None else machine_at k d)" for k
    using fetch_one_delete_same [of "\<lambda>r. mac r = k" "machines d"]
    by (auto simp: machine_at_def remove_def Let_def intro!: fetch_one_delete_other)
  moreover have "events_of k (snd (remove m d)) = (if k = normalise_mac m then [] else events_of k d)" for k
    by (auto simp: events_of_def remove_def Let_def select_where_def delete_where_def intro!: filter_cong)
  moreover have "fst (remove m d) = (lookup m d \<noteq> None)"
    by (force simp: remove_def Let_def lookup_None image_iff)
  moreover have "map_option set (boot_sessions (snd (remove m d)))
     = map_option (\<lambda>t. {s \<in> set t. sess_mac s \<noteq> normalise_mac m}) (boot_sessions d)"
    by (cases "boot_sessions d") (auto simp: remove_def Let_def)
  ultimately show ?thesis
    by (auto simp: lookup_def) (auto simp: remove_def Let_def)
qed

end
