(* ===== verification/Reservations.thy ===== *)
theory Reservations
  imports Registry
begin

text \<open>
  The reservation methods of \<open>MachineRegistry\<close> (\<open>src/fleetboot/server/registry.py\<close>): who holds a
  machine and until when. \<open>now\<close> is the second at which the method runs.

  The abstract view is a function \<open>hold now d\<close> from MAC addresses to \<open>Free\<close>, \<open>Held\<close> (a permanent
  hold) or \<open>Leased\<close> until a time; the refinement lemmas say what each method does to it.
\<close>

section \<open>Reading reservations\<close>

definition active :: "timestamp \<Rightarrow> reservation \<Rightarrow> bool" where
  \<comment> \<open>\<open>_ACTIVE_RESERVATION_WHERE\<close>\<close>
  "active now r \<longleftrightarrow> released_at r = None \<and> (case expires_at r of None \<Rightarrow> True | Some e \<Rightarrow> now < e)"

definition active_reservation :: "timestamp \<Rightarrow> string \<Rightarrow> db \<Rightarrow> reservation option" where
  "active_reservation now m d =
     last_by res_id (select_where (\<lambda>r. res_mac r = normalise_mac m \<and> active now r) (reservations d))"

definition all_active_reservations :: "timestamp \<Rightarrow> db \<Rightarrow> (string \<times> reservation) list" where
  "all_active_reservations now d =
     fold (\<lambda>r. AList.update (res_mac r) r) (select_where (active now) (reservations d)) []"

definition AVAILABILITY_PERMANENT :: string where "AVAILABILITY_PERMANENT = ''permanent''"
definition AVAILABILITY_RESERVED :: string where "AVAILABILITY_RESERVED = ''reserved''"
definition AVAILABILITY_AVAILABLE :: string where "AVAILABILITY_AVAILABLE = ''available''"

lemmas AVAILABILITY_defs = AVAILABILITY_PERMANENT_def AVAILABILITY_RESERVED_def AVAILABILITY_AVAILABLE_def

definition availability_of :: "reservation option \<Rightarrow> string" where
  "availability_of res = (case res of
     None \<Rightarrow> AVAILABILITY_AVAILABLE
   | Some r \<Rightarrow> (if lease_kind r = Permanent then AVAILABILITY_PERMANENT else AVAILABILITY_RESERVED))"

definition availability :: "timestamp \<Rightarrow> string \<Rightarrow> db \<Rightarrow> string" where
  "availability now m d = availability_of (active_reservation now m d)"

section \<open>Architecture names\<close>

definition ARCHITECTURE_ALIASES :: "(string \<times> string list) list" where
  "ARCHITECTURE_ALIASES =
     [(''amd64'', [''amd64'', ''x86_64'', ''x64'']),
      (''x86_64'', [''amd64'', ''x86_64'', ''x64'']),
      (''x64'', [''amd64'', ''x86_64'', ''x64'']),
      (''arm64'', [''arm64'', ''aarch64'']),
      (''aarch64'', [''arm64'', ''aarch64''])]"

definition architecture_aliases :: "string \<Rightarrow> string list" where
  "architecture_aliases arch = (case map_of ARCHITECTURE_ALIASES arch of None \<Rightarrow> [arch] | Some xs \<Rightarrow> xs)"

definition matches_architecture :: "string \<Rightarrow> string \<Rightarrow> bool" where
  "matches_architecture candidate wanted \<longleftrightarrow> candidate \<in> set (architecture_aliases wanted)"

section \<open>Writing reservations\<close>

definition release_unreleased :: "timestamp \<Rightarrow> string \<Rightarrow> db \<Rightarrow> db" where
  "release_unreleased now m d = d\<lparr>reservations :=
     update_where (\<lambda>r. res_mac r = m \<and> released_at r = None) (\<lambda>r. r\<lparr>released_at := Some now\<rparr>)
       (reservations d)\<rparr>"

definition candidates :: "timestamp \<Rightarrow> string option \<Rightarrow> int \<Rightarrow> db \<Rightarrow> string list" where
  "candidates now arch count d =
     map mac (sql_limit count (order_by mac (select_where
       (\<lambda>m. \<not> (\<exists>r \<in> set (reservations d). res_mac r = mac m \<and> active now r) \<and>
            (truthy arch \<longrightarrow> architecture m \<in> set (architecture_aliases (opt_str arch))))
       (machines d))))"

definition lease_one ::
  "timestamp \<Rightarrow> string \<Rightarrow> string \<Rightarrow> string option \<Rightarrow> int \<Rightarrow> string \<Rightarrow> db \<Rightarrow> unit result \<times> db" where
  \<comment> \<open>the body of the loop of \<open>reserve\<close>\<close>
  "lease_one now profile h why ttl m d =
     (case insert_reservation now m h why Lease (Some profile) (datetime_plus now ttl)
             (release_unreleased now m d) of
        (Inl e, d') \<Rightarrow> (Inl e, d')
      | (Inr _, d') \<Rightarrow> (Inr (), upd_machine m (\<lambda>r. r\<lparr>profile_name := profile\<rparr>) d'))"

fun lease_each ::
  "timestamp \<Rightarrow> string \<Rightarrow> string \<Rightarrow> string option \<Rightarrow> int \<Rightarrow> string list \<Rightarrow> db \<Rightarrow> unit result \<times> db" where
  "lease_each now profile h why ttl [] d = (Inr (), d)"
| "lease_each now profile h why ttl (m # ms) d =
     (case lease_one now profile h why ttl m d of
        (Inl e, d') \<Rightarrow> (Inl e, d')
      | (Inr _, d') \<Rightarrow> lease_each now profile h why ttl ms d')"

definition reserve ::
  "timestamp \<Rightarrow> string \<Rightarrow> int \<Rightarrow> string \<Rightarrow> int \<Rightarrow> string option \<Rightarrow> string option \<Rightarrow> db
   \<Rightarrow> Machine list result \<times> db" where
  "reserve now profile count h ttl why arch d =
     (let cleaned_profile = strip profile; cleaned_holder = strip h in
      if cleaned_profile = [] then (Inl (ValueError ''profile must not be empty''), d)
      else if cleaned_holder = [] then (Inl (ValueError ''holder must not be empty''), d)
      else if count \<le> 0 then (Inr [], d)
      else if ttl \<le> 0 then (Inl (ValueError ''ttl_seconds must be positive''), d)
      else
        let leased = candidates now arch count d in
        case lease_each now cleaned_profile cleaned_holder why ttl leased d of
          (Inl e, d') \<Rightarrow> (Inl e, d')
        | (Inr _, d') \<Rightarrow> (Inr (List.map_filter (\<lambda>m. lookup m d') leased), d'))"

definition active_lease :: "timestamp \<Rightarrow> string \<Rightarrow> reservation \<Rightarrow> bool" where
  "active_lease now m r \<longleftrightarrow> res_mac r = m \<and> lease_kind r = Lease \<and> active now r"

definition renew :: "timestamp \<Rightarrow> string \<Rightarrow> int \<Rightarrow> db \<Rightarrow> bool result \<times> db" where
  "renew now m ttl d =
     (if ttl \<le> 0 then (Inl (ValueError ''ttl_seconds must be positive''), d)
      else let nm = normalise_mac m in
        (Inr (0 < rowcount (active_lease now nm) (reservations d)),
         d\<lparr>reservations := update_where (active_lease now nm)
              (\<lambda>r. r\<lparr>expires_at := datetime_plus now ttl\<rparr>) (reservations d)\<rparr>))"

fun release_each :: "timestamp \<Rightarrow> string list \<Rightarrow> db \<Rightarrow> string list \<times> db" where
  "release_each now [] d = ([], d)"
| "release_each now (m # ms) d =
     (let hit = 0 < rowcount (active_lease now m) (reservations d);
          d' = d\<lparr>reservations := update_where (active_lease now m)
                   (\<lambda>r. r\<lparr>released_at := Some now\<rparr>) (reservations d)\<rparr>;
          (freed, d'') = release_each now ms d'
      in (if hit then m # freed else freed, d''))"

definition release :: "timestamp \<Rightarrow> string list option \<Rightarrow> string option \<Rightarrow> db \<Rightarrow> string list \<times> db" where
  "release now macs h d =
     (if macs \<noteq> None \<and> macs \<noteq> Some [] then release_each now (map normalise_mac (the macs)) d
      else if truthy h then
        release_each now (map res_mac (select_where
          (\<lambda>r. holder r = opt_str h \<and> lease_kind r = Lease \<and> active now r) (reservations d))) d
      else ([], d))"

definition pin ::
  "timestamp \<Rightarrow> string \<Rightarrow> string \<Rightarrow> string option \<Rightarrow> string option \<Rightarrow> db
   \<Rightarrow> reservation option result \<times> db" where
  "pin now m h profile why d =
     (let cleaned_holder = strip h in
      if cleaned_holder = [] then (Inl (ValueError ''holder must not be empty''), d)
      else let nm = normalise_mac m in
        if machine_at nm d = None then (Inr None, d)
        else case insert_reservation now nm cleaned_holder why Permanent profile None
                    (release_unreleased now nm d) of
          (Inl e, d') \<Rightarrow> (Inl e, d')
        | (Inr _, d') \<Rightarrow>
            (let d'' = (if truthy profile \<and> strip (opt_str profile) \<noteq> []
                        then upd_machine nm (\<lambda>r. r\<lparr>profile_name := strip (opt_str profile)\<rparr>) d' else d')
             in (Inr (active_reservation now nm d''), d'')))"

definition active_permanent :: "timestamp \<Rightarrow> string \<Rightarrow> reservation \<Rightarrow> bool" where
  "active_permanent now m r \<longleftrightarrow> res_mac r = m \<and> lease_kind r = Permanent \<and> active now r"

definition release_to_pool :: "timestamp \<Rightarrow> string \<Rightarrow> db \<Rightarrow> bool \<times> db" where
  "release_to_pool now m d =
     (let nm = normalise_mac m in
      (0 < rowcount (active_permanent now nm) (reservations d),
       d\<lparr>reservations := update_where (active_permanent now nm)
            (\<lambda>r. r\<lparr>released_at := Some now\<rparr>) (reservations d)\<rparr>))"

definition expired_lease :: "timestamp \<Rightarrow> reservation \<Rightarrow> bool" where
  "expired_lease now r \<longleftrightarrow> released_at r = None \<and> lease_kind r = Lease \<and>
     (case expires_at r of None \<Rightarrow> False | Some e \<Rightarrow> e \<le> now)"

definition reap_expired :: "timestamp \<Rightarrow> db \<Rightarrow> string list \<times> db" where
  "reap_expired now d =
     (let freed = map res_mac (select_where (expired_lease now) (reservations d))
      in (freed, fold (release_unreleased now) freed d))"

section \<open>The abstract view\<close>

datatype hold =
    Free
  | is_Held: Held string
  | is_Leased: Leased string "timestamp option"

definition hold_of :: "reservation option \<Rightarrow> hold" where
  "hold_of res = (case res of
     None \<Rightarrow> Free
   | Some r \<Rightarrow> (if lease_kind r = Permanent then Held (holder r) else Leased (holder r) (expires_at r)))"

definition active_at :: "timestamp \<Rightarrow> string \<Rightarrow> reservation table \<Rightarrow> reservation option" where
  "active_at now m t = fetch_one (\<lambda>r. res_mac r = m \<and> active now r) t"

definition hold :: "timestamp \<Rightarrow> db \<Rightarrow> string \<Rightarrow> hold" where
  "hold now d m = hold_of (active_at now m (reservations d))"

lemma hold_of_simps [simp]:
  "hold_of None = Free"
  "hold_of (Some r) = (if lease_kind r = Permanent then Held (holder r) else Leased (holder r) (expires_at r))"
  by (simp_all add: hold_of_def)

lemma is_hold_of [simp]:
  "is_Leased (hold_of x) \<longleftrightarrow> (\<exists>r. x = Some r \<and> lease_kind r = Lease)"
  "is_Held (hold_of x) \<longleftrightarrow> (\<exists>r. x = Some r \<and> lease_kind r = Permanent)"
  by (cases x; auto simp: hold_of_def split: lease_kind.splits intro: lease_kind.exhaust)+

lemma hold_of_Free [simp]: "hold_of x = Free \<longleftrightarrow> x = None"
  by (cases x) auto

lemma active_unreleased: "active now r \<Longrightarrow> unreleased r"
  by (simp add: active_def unreleased_def)

lemma active_rows_unique:
  assumes "one_unreleased t"
  shows "select_where (\<lambda>r. res_mac r = m \<and> active now r) t
       = (case active_at now m t of None \<Rightarrow> [] | Some r \<Rightarrow> [r])"
  using assms
proof (induction t)
  case Nil
  then show ?case by (simp add: select_where_def active_at_def)
next
  case (Cons r t)
  then have tail: "select_where (\<lambda>r. res_mac r = m \<and> active now r) t
       = (case active_at now m t of None \<Rightarrow> [] | Some r \<Rightarrow> [r])"
    by (simp add: one_unreleased_Cons)
  show ?case
  proof (cases "res_mac r = m \<and> active now r")
    case True
    with Cons.prems have "\<forall>s \<in> set t. \<not> (res_mac s = m \<and> active now s)"
      by (auto simp: one_unreleased_Cons dest: active_unreleased)
    with True show ?thesis by (simp add: select_where_def active_at_def)
  next
    case False
    with tail show ?thesis by (auto simp: select_where_def active_at_def)
  qed
qed

lemma wf_one_unreleased: "wf_db d \<Longrightarrow> one_unreleased (reservations d)"
  by (simp add: wf_db_def wf_reservations_def)

lemma active_reservation_eq:
  "wf_db d \<Longrightarrow> active_reservation now m d = active_at now (normalise_mac m) (reservations d)"
  by (simp add: active_reservation_def active_rows_unique wf_one_unreleased split: option.split)

lemma active_at_SomeD:
  "active_at now m t = Some r \<Longrightarrow> r \<in> set t \<and> res_mac r = m \<and> active now r"
  by (auto simp: active_at_def dest: fetch_one_SomeD)

lemma active_at_None: "active_at now m t = None \<longleftrightarrow> (\<forall>r \<in> set t. res_mac r = m \<longrightarrow> \<not> active now r)"
  by (auto simp: active_at_def fetch_one_None)

lemma active_at_Some:
  assumes "one_unreleased t" and "r \<in> set t" and "active now r"
  shows "active_at now (res_mac r) t = Some r"
proof -
  obtain s where s: "active_at now (res_mac r) t = Some s"
    using assms by (cases "active_at now (res_mac r) t") (auto simp: active_at_None)
  then have "s = r"
    using assms by (intro one_unreleasedD [of t]) (auto dest!: active_at_SomeD active_unreleased)
  with s show ?thesis by simp
qed

lemma availability_hold:
  "wf_db d \<Longrightarrow> availability now m d = (case hold now d (normalise_mac m) of
     Free \<Rightarrow> AVAILABILITY_AVAILABLE | Held h \<Rightarrow> AVAILABILITY_PERMANENT | Leased h e \<Rightarrow> AVAILABILITY_RESERVED)"
  by (simp add: availability_def availability_of_def hold_def active_reservation_eq split: option.split)

section \<open>What each statement does to the holds\<close>

lemma hold_machines [simp]:
  "hold now (machines_update f d) = hold now d" "hold now (upd_machine m g d) = hold now d"
  "hold now (res_seq_update h d) = hold now d"
  by (rule ext, simp add: hold_def)+

lemma hold_cong: "reservations d = reservations d' \<Longrightarrow> hold now d = hold now d'"
  by (rule ext) (simp add: hold_def)

lemma hold_release_where:
  assumes "\<And>r. P r \<Longrightarrow> released_at (f r) \<noteq> None"
  shows "hold now (d\<lparr>reservations := update_where P f (reservations d)\<rparr>) k
       = hold_of (fetch_one (\<lambda>r. (res_mac r = k \<and> active now r) \<and> \<not> P r) (reservations d))"
  using assms by (simp add: hold_def active_at_def fetch_one_update_kill active_def)

lemma hold_release_unreleased:
  "hold now (release_unreleased t m d) k = (if k = m then Free else hold now d k)"
proof -
  have "fetch_one (\<lambda>r. (res_mac r = k \<and> active now r) \<and> \<not> (res_mac r = m \<and> released_at r = None)) (reservations d)
      = (if k = m then None else active_at now k (reservations d))"
    by (auto simp: active_at_def active_def fetch_one_None intro: fetch_one_cong)
  then show ?thesis
    unfolding release_unreleased_def by (subst hold_release_where) (simp_all add: hold_def)
qed

lemma active_new [simp]:
  "active now (new_reservation t m h why kind prof expires i)
     \<longleftrightarrow> (case expires of None \<Rightarrow> True | Some e \<Rightarrow> now < e)"
  by (simp add: active_def)

lemma active_at_append:
  "active_at now k (t @ [r]) = (case active_at now k t of
     None \<Rightarrow> (if res_mac r = k \<and> active now r then Some r else None) | Some s \<Rightarrow> Some s)"
  by (simp add: active_at_def fetch_one_append split: option.split)

lemma hold_insert:
  assumes "hold now d m = Free" and "case expires of None \<Rightarrow> True | Some e \<Rightarrow> now < e"
  shows "hold now (d\<lparr>reservations := reservations d @ [new_reservation t m h why kind prof expires i],
             res_seq := j\<rparr>) k
       = (if k = m then (if kind = Permanent then Held h else Leased h expires) else hold now d k)"
proof -
  have "active_at now m (reservations d) = None" using assms(1) by (simp add: hold_def)
  with assms(2) show ?thesis
    by (cases "active_at now k (reservations d)") (auto simp: hold_def active_at_append)
qed

lemma release_unreleased_other [simp]:
  "machines (release_unreleased now m d) = machines d"
  "machine_at k (release_unreleased now m d) = machine_at k d"
  "res_seq (release_unreleased now m d) = res_seq d"
  by (simp_all add: release_unreleased_def machine_at_def)

lemma wf_release_where [wf_intros]:
  assumes "wf_db d" and "\<And>r. P r \<Longrightarrow> unreleased r"
  shows "wf_db (d\<lparr>reservations := update_where P (\<lambda>r. r\<lparr>released_at := Some now\<rparr>) (reservations d)\<rparr>)"
  using assms by (auto simp: wf_db_def unreleased_def intro!: wf_reservations_update)

lemma wf_release_unreleased [wf_intros]: "wf_db d \<Longrightarrow> wf_db (release_unreleased now m d)"
  unfolding release_unreleased_def by (rule wf_release_where) (simp_all add: unreleased_def)

lemma none_left:
  assumes "r \<in> set (reservations (release_unreleased t m d))" and "res_mac r = m"
  shows "released_at r \<noteq> None"
proof -
  obtain x where "r = (if res_mac x = m \<and> released_at x = None then x\<lparr>released_at := Some t\<rparr> else x)"
    using update_where_memD [of r] assms(1) unfolding release_unreleased_def by simp blast
  with assms(2) show ?thesis by (simp split: if_splits)
qed

lemma insert_after_release:
  "insert_reservation now m h why kind prof expires (release_unreleased t m d)
   = (Inr (), (release_unreleased t m d)\<lparr>
       reservations := reservations (release_unreleased t m d) @
         [new_reservation now m h why kind prof expires (Suc (res_seq d))],
       res_seq := Suc (res_seq d)\<rparr>)"
proof -
  have "\<not> (\<exists>r \<in> set (reservations (release_unreleased t m d)). res_mac r = m \<and> released_at r = None)"
    using none_left by blast
  then show ?thesis by (simp only: insert_reservation_def if_False release_unreleased_other)
qed

lemma replace_hold:
  assumes "wf_db d" and "m \<in> mac ` set (machines d)"
    and "case expires of None \<Rightarrow> True | Some e \<Rightarrow> now < e" and "kind = Permanent \<Longrightarrow> expires = None"
  shows "\<exists>d'. insert_reservation now m h why kind prof expires (release_unreleased now m d) = (Inr (), d')
    \<and> wf_db d' \<and> machines d' = machines d
    \<and> (\<forall>k. hold now d' k
           = (if k = m then (if kind = Permanent then Held h else Leased h expires) else hold now d k))"
proof (intro exI conjI allI)
  let ?d' = "(release_unreleased now m d)\<lparr>
       reservations := reservations (release_unreleased now m d) @
         [new_reservation now m h why kind prof expires (Suc (res_seq d))],
       res_seq := Suc (res_seq d)\<rparr>"
  show ins: "insert_reservation now m h why kind prof expires (release_unreleased now m d) = (Inr (), ?d')"
    by (rule insert_after_release)
  show "wf_db ?d'"
    by (rule wf_insert_reservation [OF _ _ _ ins])
       (use assms in \<open>auto intro: wf_release_unreleased\<close>)
  show "machines ?d' = machines d" by simp
  show "hold now ?d' k
      = (if k = m then (if kind = Permanent then Held h else Leased h expires) else hold now d k)" for k
  proof -
    have "hold now (release_unreleased now m d) m = Free"
      by (simp add: hold_release_unreleased)
    from hold_insert [OF this assms(3)] show ?thesis by (simp add: hold_release_unreleased)
  qed
qed

section \<open>Claiming machines\<close>

lemma datetime_plus_later: "0 < ttl \<Longrightarrow> case datetime_plus now ttl of None \<Rightarrow> True | Some e \<Rightarrow> now < e"
  by (simp add: datetime_plus_def)

lemma lease_one_effect:
  assumes "wf_db d" and "m \<in> mac ` set (machines d)" and "0 < ttl"
  obtains d' where "lease_one now profile h why ttl m d = (Inr (), d')" and "wf_db d'"
    and "hold now d' = (hold now d)(m := Leased h (datetime_plus now ttl))"
    and "mac ` set (machines d') = mac ` set (machines d)"
    and "\<And>k. machine_at k d'
           = (if k = m then map_option (\<lambda>r. r\<lparr>profile_name := profile\<rparr>) (machine_at k d) else machine_at k d)"
proof -
  obtain d1 where d1: "insert_reservation now m h why Lease (Some profile) (datetime_plus now ttl)
      (release_unreleased now m d) = (Inr (), d1)" "wf_db d1" "machines d1 = machines d"
    "\<And>k. hold now d1 k = (if k = m then Leased h (datetime_plus now ttl) else hold now d k)"
    using replace_hold [OF assms(1,2) datetime_plus_later [OF assms(3), of now],
        where kind = Lease and h = h and why = why and prof = "Some profile"] by auto
  let ?d' = "upd_machine m (\<lambda>r. r\<lparr>profile_name := profile\<rparr>) d1"
  show thesis
  proof (rule that)
    show "lease_one now profile h why ttl m d = (Inr (), ?d')" by (simp add: lease_one_def d1(1))
    show "wf_db ?d'" using d1(2) by (rule wf_upd_machine) simp
    show "hold now ?d' = (hold now d)(m := Leased h (datetime_plus now ttl))"
      by (rule ext) (simp add: d1(4))
    show "mac ` set (machines ?d') = mac ` set (machines d)"
      by (simp add: machines_upd d1(3))
    have "machine_at k d1 = machine_at k d" for k by (simp add: machine_at_def d1(3))
    then show "machine_at k ?d' = (if k = m then map_option (\<lambda>r. r\<lparr>profile_name := profile\<rparr>) (machine_at k d)
        else machine_at k d)" for k
      by (simp add: machine_at_upd)
  qed
qed

lemma lease_each_effect:
  assumes "wf_db d" and "set ms \<subseteq> mac ` set (machines d)" and "0 < ttl"
  shows "\<exists>d'. lease_each now profile h why ttl ms d = (Inr (), d') \<and> wf_db d'
    \<and> (\<forall>k. hold now d' k = (if k \<in> set ms then Leased h (datetime_plus now ttl) else hold now d k))
    \<and> mac ` set (machines d') = mac ` set (machines d)
    \<and> (\<forall>k. machine_at k d' = (if k \<in> set ms then map_option (\<lambda>r. r\<lparr>profile_name := profile\<rparr>) (machine_at k d)
                              else machine_at k d))"
  using assms
proof (induction ms arbitrary: d)
  case Nil
  then show ?case by simp
next
  case (Cons m ms)
  then have m: "m \<in> mac ` set (machines d)" by simp
  obtain d1 where d1: "lease_one now profile h why ttl m d = (Inr (), d1)" "wf_db d1"
    "hold now d1 = (hold now d)(m := Leased h (datetime_plus now ttl))"
    "mac ` set (machines d1) = mac ` set (machines d)"
    "\<And>k. machine_at k d1
       = (if k = m then map_option (\<lambda>r. r\<lparr>profile_name := profile\<rparr>) (machine_at k d) else machine_at k d)"
    using lease_one_effect [OF Cons.prems(1) m Cons.prems(3)] by metis
  from Cons.IH [OF d1(2) _ Cons.prems(3)] Cons.prems(2) d1(4)
  obtain d' where d': "lease_each now profile h why ttl ms d1 = (Inr (), d')" "wf_db d'"
    "\<forall>k. hold now d' k = (if k \<in> set ms then Leased h (datetime_plus now ttl) else hold now d1 k)"
    "mac ` set (machines d') = mac ` set (machines d1)"
    "\<forall>k. machine_at k d' = (if k \<in> set ms then map_option (\<lambda>r. r\<lparr>profile_name := profile\<rparr>) (machine_at k d1)
         else machine_at k d1)"
    by auto
  have "map_option (\<lambda>r. r\<lparr>profile_name := profile\<rparr>) (map_option (\<lambda>r. r\<lparr>profile_name := profile\<rparr>) x)
      = map_option (\<lambda>r. r\<lparr>profile_name := profile\<rparr>) x" for x :: "machine_row option"
    by (cases x) simp_all
  with d1 d' show ?case by (intro exI [of _ d']) auto
qed

definition claimable :: "timestamp \<Rightarrow> string option \<Rightarrow> db \<Rightarrow> string set" where
  \<comment> \<open>the machines of the wanted architecture nobody holds\<close>
  "claimable now arch d = {m. \<exists>r. machine_at m d = Some r \<and> hold now d m = Free
     \<and> (truthy arch \<longrightarrow> matches_architecture (architecture r) (opt_str arch))}"

lemma machine_at_mem: "wf_db d \<Longrightarrow> r \<in> set (machines d) \<Longrightarrow> machine_at (mac r) d = Some r"
  by (simp add: machine_at_def wf_db_def wf_machines_def fetch_one_eq)

lemma finite_claimable: "finite (claimable now arch d)"
  by (rule finite_subset [of _ "mac ` set (machines d)"])
     (auto simp: claimable_def dest!: machine_at_SomeD)

lemma candidates_eq:
  assumes "wf_db d" and "0 < count"
  shows "candidates now arch count d = take (nat count) (sorted_list_of_set (claimable now arch d))"
proof -
  let ?P = "\<lambda>m. \<not> (\<exists>r \<in> set (reservations d). res_mac r = mac m \<and> active now r) \<and>
            (truthy arch \<longrightarrow> architecture m \<in> set (architecture_aliases (opt_str arch)))"
  let ?rows = "order_by mac (select_where ?P (machines d))"
  have "distinct (map mac (select_where ?P (machines d)))"
    using assms(1) by (simp add: wf_db_def wf_machines_def keys_distinct_def select_where_def distinct_map_filter)
  then have "distinct (map mac ?rows)"
    by (simp add: order_by_def distinct_map)
  moreover have "set (map mac ?rows) = claimable now arch d"
    using machine_at_mem [OF assms(1)]
    by (force simp: claimable_def hold_def active_at_None matches_architecture_def dest: machine_at_SomeD)
  ultimately have "map mac ?rows = sorted_list_of_set (claimable now arch d)"
    using sorted_distinct_set_unique [of "map mac ?rows" "sorted_list_of_set (claimable now arch d)"]
    by (simp add: finite_claimable)
  then show ?thesis
    using assms(2) by (simp add: candidates_def sql_limit_def take_map [symmetric])
qed

lemma known_normal: "wf_db d \<Longrightarrow> m \<in> mac ` set (machines d) \<Longrightarrow> normalise_mac m = m"
  by (auto simp: wf_db_def wf_machines_def)

lemma map_filter_all:
  "(\<And>x. x \<in> set xs \<Longrightarrow> f x \<noteq> None) \<Longrightarrow> List.map_filter f xs = map (\<lambda>x. the (f x)) xs"
proof (induction xs)
  case Nil
  then show ?case by (simp add: List.map_filter_simps)
next
  case (Cons x xs)
  moreover obtain y where "f x = Some y" using Cons.prems [of x] by auto
  ultimately show ?case by (simp add: List.map_filter_simps)
qed

lemma reserve_effect:
  assumes "wf_db d" and "strip profile \<noteq> []" and "strip h \<noteq> []" and "0 < count" and "0 < ttl"
  shows "\<exists>ms d'. reserve now profile count h ttl why arch d = (Inr ms, d') \<and> wf_db d'
    \<and> map mac ms = take (nat count) (sorted_list_of_set (claimable now arch d))
    \<and> (\<forall>machine \<in> set ms. profile_name machine = strip profile)
    \<and> (\<forall>k. hold now d' k = (if k \<in> mac ` set ms then Leased (strip h) (datetime_plus now ttl) else hold now d k))
    \<and> (\<forall>k. k \<notin> mac ` set ms \<longrightarrow> machine_at k d' = machine_at k d)"
proof -
  let ?cs = "candidates now arch count d"
  have cs: "?cs = take (nat count) (sorted_list_of_set (claimable now arch d))"
    using assms(1,4) by (rule candidates_eq)
  have known: "set ?cs \<subseteq> mac ` set (machines d)"
  proof -
    have "set ?cs \<subseteq> claimable now arch d"
      unfolding cs using set_take_subset [of "nat count" "sorted_list_of_set (claimable now arch d)"]
      by (simp add: finite_claimable)
    then show ?thesis by (force simp: claimable_def dest: machine_at_SomeD)
  qed
  obtain d' where d': "lease_each now (strip profile) (strip h) why ttl ?cs d = (Inr (), d')" "wf_db d'"
    "\<forall>k. hold now d' k = (if k \<in> set ?cs then Leased (strip h) (datetime_plus now ttl) else hold now d k)"
    "\<forall>k. machine_at k d' = (if k \<in> set ?cs then map_option (\<lambda>r. r\<lparr>profile_name := strip profile\<rparr>) (machine_at k d)
         else machine_at k d)"
    using lease_each_effect [OF assms(1) known assms(5), of now "strip profile" "strip h" why] by blast
  let ?ms = "List.map_filter (\<lambda>m. lookup m d') ?cs"
  have row: "\<exists>r. machine_at m d = Some r \<and> mac r = m \<and> normalise_mac m = m" if "m \<in> set ?cs" for m
    using that known known_normal [OF assms(1), of m] machine_at_known [of m d]
    by (auto dest: machine_at_SomeD)
  have look: "\<exists>x. lookup m d' = Some x \<and> mac x = m \<and> profile_name x = strip profile" if "m \<in> set ?cs" for m
    using row [OF that] that d'(4) by (auto simp: lookup_def)
  then have ms: "?ms = map (\<lambda>m. the (lookup m d')) ?cs"
    by (intro map_filter_all) auto
  then have macs: "map mac ?ms = ?cs"
    unfolding ms map_map by (intro map_idI) (use look in force)
  have "\<forall>machine \<in> set ?ms. profile_name machine = strip profile"
    unfolding ms using look by force
  moreover have "mac ` set ?ms = set ?cs"
    using arg_cong [OF macs, of set] by simp
  moreover have "reserve now profile count h ttl why arch d = (Inr ?ms, d')"
    using assms(2-5) d'(1) by (simp add: reserve_def Let_def)
  ultimately show ?thesis
    using d' macs cs by (intro exI [of _ ?ms] exI [of _ d']) simp
qed


definition pool_example :: db where
  \<comment> \<open>two machines, one held permanently\<close>
  "pool_example = empty_db\<lparr>
     machines := [new_machine_row 1 ''aa'' ''desktop'' ''x86_64'' ''efi'' False ''manual'' ''volatile'',
                  new_machine_row 2 ''bb'' ''desktop'' ''x86_64'' ''efi'' False ''manual'' ''volatile''],
     reservations := [new_reservation 2 ''bb'' ''school'' None Permanent (Some ''desktop'') None 1],
     res_seq := 1\<rparr>"

lemma pool_example_facts:
  "wf_db pool_example" "hold now pool_example ''aa'' = Free" "hold now pool_example ''bb'' = Held ''school''"
  "mac ` set (machines pool_example) = {''aa'', ''bb''}"
proof -
  have "normal_mac ''aa''" "normal_mac ''bb''" by code_simp+
  then show "wf_db pool_example"
    by (auto simp: pool_example_def wf_db_def wf_machines_def keys_distinct_def new_machine_row_def
        wf_reservations_def one_unreleased_def wf_rules_def wf_events_def empty_db_def)
  show "hold now pool_example ''aa'' = Free" "hold now pool_example ''bb'' = Held ''school''"
    by (simp_all add: pool_example_def hold_def active_at_def)
  show "mac ` set (machines pool_example) = {''aa'', ''bb''}"
    by (auto simp: pool_example_def new_machine_row_def)
qed

lemma claimable_pool_example: "claimable now None pool_example = {''aa''}"
proof -
  have "k \<in> claimable now None pool_example \<longleftrightarrow> k = ''aa''" for k
    using machine_at_known [of k pool_example] pool_example_facts
    by (auto simp: claimable_def truthy_def)
  then show ?thesis by auto
qed


section \<open>Pinning, renewing and releasing\<close>

lemma pin_effect:
  assumes "wf_db d" and "strip h \<noteq> []"
  shows "\<exists>res d'. pin now m h profile why d = (Inr res, d') \<and> wf_db d'
    \<and> (if machine_at (normalise_mac m) d = None then res = None \<and> d' = d
       else (\<exists>r. res = Some r \<and> lease_kind r = Permanent \<and> holder r = strip h \<and> purpose r = why
               \<and> active_reservation now m d' = Some r)
         \<and> hold now d' = (hold now d)(normalise_mac m := Held (strip h))
         \<and> map_option profile_name (lookup m d') = (if truthy profile \<and> strip (opt_str profile) \<noteq> []
              then Some (strip (opt_str profile)) else map_option profile_name (lookup m d)))"
proof (cases "machine_at (normalise_mac m) d")
  case None
  then show ?thesis using assms by (simp add: pin_def)
next
  case (Some row)
  let ?nm = "normalise_mac m"
  let ?d1 = "release_unreleased now ?nm d"
  let ?new = "new_reservation now ?nm (strip h) why Permanent profile None (Suc (res_seq d))"
  have known: "?nm \<in> mac ` set (machines d)" using Some machine_at_known [of ?nm d] by blast
  obtain d' where d': "insert_reservation now ?nm (strip h) why Permanent profile None ?d1 = (Inr (), d')"
    "wf_db d'" "machines d' = machines d"
    "\<forall>k. hold now d' k = (if k = ?nm then Held (strip h) else hold now d k)"
    using replace_hold [OF assms(1) known, where expires = None and kind = Permanent and h = "strip h" and why = why
        and prof = profile and now = now] by auto
  let ?d2 = "if truthy profile \<and> strip (opt_str profile) \<noteq> []
      then upd_machine ?nm (\<lambda>r. r\<lparr>profile_name := strip (opt_str profile)\<rparr>) d' else d'"
  have wf2: "wf_db ?d2" using d'(2) by (simp add: wf_upd_machine)
  have res2: "reservations ?d2 = reservations ?d1 @ [?new]"
    using d'(1) unfolding insert_after_release by auto
  have act: "active_reservation now m ?d2 = Some ?new"
  proof -
    have "?new \<in> set (reservations ?d2)" using res2 by simp
    from active_at_Some [OF wf_one_unreleased [OF wf2] this, of now] show ?thesis
      using wf2 by (simp add: active_reservation_eq)
  qed
  have pin: "pin now m h profile why d = (Inr (Some ?new), ?d2)"
    using assms(2) Some d'(1) act wf2 by (simp add: pin_def Let_def active_reservation_eq)
  have hold: "hold now ?d2 = (hold now d)(?nm := Held (strip h))"
    using d'(4) by (auto simp: fun_eq_iff)
  have "machine_at ?nm d' = Some row" using Some d'(3) by (simp add: machine_at_def)
  then have "map_option profile_name (lookup m ?d2) = (if truthy profile \<and> strip (opt_str profile) \<noteq> []
      then Some (strip (opt_str profile)) else map_option profile_name (lookup m d))"
    using Some by (auto simp: lookup_def machine_at_upd)
  with pin wf2 act hold Some show ?thesis
    by (intro exI [of _ "Some ?new"] exI [of _ ?d2] conjI) simp_all
qed

text \<open>Pinning a known machine succeeds, whatever held it before, and makes its hold permanent
  and the new reservation the active one; the machine switches to the given profile unless that
  is blank. An unknown machine is reported and nothing changes.\<close>
theorem pin_correct:
  assumes "wf_db d" and "strip h \<noteq> []"
  shows "\<exists>res d'. pin now m h profile why d = (Inr res, d') \<and> wf_db d'
    \<and> (if machine_at (normalise_mac m) d = None then res = None \<and> d' = d
       else (\<exists>r. res = Some r \<and> lease_kind r = Permanent \<and> holder r = strip h \<and> purpose r = why
               \<and> active_reservation now m d' = Some r)
         \<and> hold now d' = (hold now d)(normalise_mac m := Held (strip h))
         \<and> map_option profile_name (lookup m d') = (if truthy profile \<and> strip (opt_str profile) \<noteq> []
              then Some (strip (opt_str profile)) else map_option profile_name (lookup m d)))"
  using assms by (rule pin_effect)

lemma pin_correct_witness:
  "\<exists>res d'. pin 10 ''AA'' '' lab '' None None pool_example = (Inr res, d') \<and> wf_db d'
     \<and> hold 10 d' ''aa'' = Held ''lab''"
proof -
  have s: "strip '' lab '' = ''lab''" "normalise_mac ''AA'' = ''aa''" by code_simp+
  have "machine_at ''aa'' pool_example \<noteq> None"
    using pool_example_facts(4) by (simp add: machine_at_None)
  then show ?thesis
    using pin_correct [OF pool_example_facts(1), of "'' lab ''" 10 "''AA''" None None] s by auto
qed

lemma fetch_by_kind:
  assumes "one_unreleased t"
  shows "fetch_one (\<lambda>r. (res_mac r = k \<and> active now r) \<and> \<not> (res_mac r = m \<and> Q r \<and> active now r)) t
       = (case active_at now k t of None \<Rightarrow> None | Some r \<Rightarrow> if k = m \<and> Q r then None else Some r)"
    (is "fetch_one ?L t = _")
proof (cases "active_at now k t")
  case None
  then have "\<forall>r \<in> set t. \<not> ?L r" by (auto simp: active_at_None)
  with None show ?thesis unfolding fetch_one_None [symmetric] by simp
next
  case (Some r)
  then have r: "r \<in> set t" "res_mac r = k" "active now r" by (auto dest: active_at_SomeD)
  have only: "s = r" if "s \<in> set t" "res_mac s = k" "active now s" for s
    using active_at_Some [OF assms that(1,3)] that(2) Some by simp
  show ?thesis
  proof (cases "k = m \<and> Q r")
    case True
    with only Some show ?thesis by (auto simp: fetch_one_None)
  next
    case False
    have "fetch_one ?L t = active_at now k t"
      unfolding active_at_def using only False by (intro fetch_one_cong) auto
    with False Some show ?thesis by auto
  qed
qed

lemma hold_release_kind:
  assumes "wf_db d"
  shows "hold now (d\<lparr>reservations := update_where (\<lambda>r. res_mac r = m \<and> Q r \<and> active now r)
             (\<lambda>r. r\<lparr>released_at := Some now\<rparr>) (reservations d)\<rparr>) k
       = (case active_at now k (reservations d) of
            None \<Rightarrow> Free | Some r \<Rightarrow> if k = m \<and> Q r then Free else hold_of (Some r))"
  by (subst hold_release_where)
     (simp_all only: fetch_by_kind [OF wf_one_unreleased [OF assms]], simp_all split: option.split)

lemma release_to_pool_effect:
  assumes "wf_db d"
  shows "wf_db (snd (release_to_pool now m d))
    \<and> fst (release_to_pool now m d) = is_Held (hold now d (normalise_mac m))
    \<and> hold now (snd (release_to_pool now m d)) = (\<lambda>k. if k = normalise_mac m
        then (case hold now d k of Held h \<Rightarrow> Free | x \<Rightarrow> x) else hold now d k)"
proof (intro conjI ext)
  let ?nm = "normalise_mac m"
  show "wf_db (snd (release_to_pool now m d))"
    using wf_release_where [OF assms, of "active_permanent now ?nm" now]
    by (auto simp: release_to_pool_def Let_def active_permanent_def dest: active_unreleased)
  have "(\<exists>r \<in> set (reservations d). active_permanent now ?nm r) \<longleftrightarrow> is_Held (hold now d ?nm)"
  proof
    assume "\<exists>r \<in> set (reservations d). active_permanent now ?nm r"
    then obtain r where "r \<in> set (reservations d)" "res_mac r = ?nm" "lease_kind r = Permanent" "active now r"
      by (auto simp: active_permanent_def)
    with active_at_Some [OF wf_one_unreleased [OF assms], of r now] show "is_Held (hold now d ?nm)"
      by (simp add: hold_def)
  next
    assume "is_Held (hold now d ?nm)"
    then obtain r where "active_at now ?nm (reservations d) = Some r" "lease_kind r = Permanent"
      by (cases "active_at now ?nm (reservations d)") (auto simp: hold_def split: if_splits)
    then show "\<exists>r \<in> set (reservations d). active_permanent now ?nm r"
      by (auto simp: active_permanent_def dest: active_at_SomeD)
  qed
  then show "fst (release_to_pool now m d) = is_Held (hold now d ?nm)"
    by (simp add: release_to_pool_def Let_def)
  show "hold now (snd (release_to_pool now m d)) k
      = (if k = ?nm then (case hold now d k of Held h \<Rightarrow> Free | x \<Rightarrow> x) else hold now d k)" for k
    using hold_release_kind [OF assms, of now ?nm "\<lambda>r. lease_kind r = Permanent" k]
    by (auto simp: release_to_pool_def Let_def active_permanent_def [abs_def] hold_def split: option.split)
qed

text \<open>Releasing a machine to the pool frees it exactly when its hold is permanent, and says so;
  a leased or free machine is left alone, and so is every other machine.\<close>
theorem release_to_pool_correct:
  assumes "wf_db d"
  shows "wf_db (snd (release_to_pool now m d))
    \<and> fst (release_to_pool now m d) = is_Held (hold now d (normalise_mac m))
    \<and> hold now (snd (release_to_pool now m d)) = (\<lambda>k. if k = normalise_mac m
        then (case hold now d k of Held h \<Rightarrow> Free | x \<Rightarrow> x) else hold now d k)"
  using assms by (rule release_to_pool_effect)

lemma release_to_pool_correct_witness:
  "fst (release_to_pool 10 ''BB'' pool_example) \<and> hold 10 (snd (release_to_pool 10 ''BB'' pool_example)) ''bb'' = Free"
proof -
  have "normalise_mac ''BB'' = ''bb''" by code_simp
  then show ?thesis
    using release_to_pool_correct [OF pool_example_facts(1), of 10 "''BB''"]
    by (simp add: pool_example_facts)
qed

lemma active_lease_eq: "active_lease now m = (\<lambda>r. res_mac r = m \<and> lease_kind r = Lease \<and> active now r)"
  by (simp add: active_lease_def fun_eq_iff)

lemma leased_iff:
  assumes "wf_db d"
  shows "(\<exists>r \<in> set (reservations d). active_lease now m r) \<longleftrightarrow> is_Leased (hold now d m)"
proof
  assume "\<exists>r \<in> set (reservations d). active_lease now m r"
  then obtain r where "r \<in> set (reservations d)" "res_mac r = m" "lease_kind r = Lease" "active now r"
    by (auto simp: active_lease_def)
  with active_at_Some [OF wf_one_unreleased [OF assms], of r now] show "is_Leased (hold now d m)"
    by (simp add: hold_def)
next
  assume "is_Leased (hold now d m)"
  then obtain r where "active_at now m (reservations d) = Some r" "lease_kind r \<noteq> Permanent"
    by (cases "active_at now m (reservations d)") (auto simp: hold_def split: if_splits)
  then show "\<exists>r \<in> set (reservations d). active_lease now m r"
    by (cases "lease_kind r") (auto simp: active_lease_def dest: active_at_SomeD)
qed

lemma renew_effect:
  assumes "wf_db d" and "0 < ttl"
  shows "\<exists>d'. renew now m ttl d = (Inr (is_Leased (hold now d (normalise_mac m))), d') \<and> wf_db d'
    \<and> hold now d' = (\<lambda>k. case hold now d k of
         Leased h e \<Rightarrow> Leased h (if k = normalise_mac m then datetime_plus now ttl else e) | x \<Rightarrow> x)"
proof -
  let ?nm = "normalise_mac m"
  let ?f = "\<lambda>r. r\<lparr>expires_at := datetime_plus now ttl\<rparr>"
  let ?d' = "d\<lparr>reservations := update_where (active_lease now ?nm) ?f (reservations d)\<rparr>"
  have "hold now ?d' k = (case hold now d k of
         Leased h e \<Rightarrow> Leased h (if k = ?nm then datetime_plus now ttl else e) | x \<Rightarrow> x)" for k
  proof -
    have keep: "active_lease now ?nm r \<Longrightarrow> (res_mac (?f r) = k \<and> active now (?f r)) = (res_mac r = k \<and> active now r)" for r
      using datetime_plus_later [OF assms(2), of now] by (simp add: active_lease_def active_def)
    have "active_at now k (reservations ?d')
        = map_option (\<lambda>r. if active_lease now ?nm r then ?f r else r) (active_at now k (reservations d))"
      using fetch_one_update_where [of "active_lease now ?nm" "\<lambda>r. res_mac r = k \<and> active now r" ?f, OF keep]
      by (simp add: active_at_def)
    then show ?thesis
      by (cases "active_at now k (reservations d)")
         (auto simp: hold_def active_lease_def dest!: active_at_SomeD, (metis lease_kind.exhaust)+)
  qed
  moreover have "wf_db ?d'"
    using assms(1) by (auto simp: wf_db_def active_lease_def unreleased_def intro!: wf_reservations_update)
  ultimately show ?thesis
    using assms(2) leased_iff [OF assms(1), of now ?nm] by (simp add: renew_def Let_def fun_eq_iff)
qed

text \<open>Renewing succeeds exactly on a running lease, whose holder keeps it until \<open>now + ttl\<close>; a
  permanent hold, an expired lease and every other machine stay as they are.\<close>
theorem renew_correct:
  assumes "wf_db d" and "0 < ttl"
  shows "\<exists>d'. renew now m ttl d = (Inr (is_Leased (hold now d (normalise_mac m))), d') \<and> wf_db d'
    \<and> hold now d' = (\<lambda>k. case hold now d k of
         Leased h e \<Rightarrow> Leased h (if k = normalise_mac m then datetime_plus now ttl else e) | x \<Rightarrow> x)"
  using assms by (rule renew_effect)

lemma release_each_effect:
  assumes "wf_db d"
  shows "wf_db (snd (release_each now ms d)) \<and> distinct (fst (release_each now ms d))
    \<and> set (fst (release_each now ms d)) = {k \<in> set ms. is_Leased (hold now d k)}
    \<and> (\<forall>k. hold now (snd (release_each now ms d)) k =
         (if k \<in> set (fst (release_each now ms d)) then Free else hold now d k))"
  using assms
proof (induction ms arbitrary: d)
  case Nil
  then show ?case by simp
next
  case (Cons m ms)
  let ?d' = "d\<lparr>reservations := update_where (active_lease now m) (\<lambda>r. r\<lparr>released_at := Some now\<rparr>) (reservations d)\<rparr>"
  have wf': "wf_db ?d'"
    by (rule wf_release_where [OF Cons.prems]) (auto simp: active_lease_def dest: active_unreleased)
  have hold': "hold now ?d' k = (if k = m \<and> is_Leased (hold now d k) then Free else hold now d k)" for k
    using hold_release_kind [OF Cons.prems, of now m "\<lambda>r. lease_kind r = Lease" k] lease_kind.exhaust
    by (auto simp: active_lease_eq hold_def split: option.split)
  obtain freed d'' where rec: "release_each now ms ?d' = (freed, d'')" by force
  have "release_each now (m # ms) d
      = (if is_Leased (hold now d m) then m # freed else freed, d'')"
    by (simp add: Let_def rec leased_iff [OF Cons.prems])
  with Cons.IH [OF wf'] rec show ?case
    by (auto simp: hold')
qed

definition release_targets :: "timestamp \<Rightarrow> string list option \<Rightarrow> string option \<Rightarrow> db \<Rightarrow> string set" where
  \<comment> \<open>what a release names: the machines listed, or else everything the holder leases\<close>
  "release_targets now macs h d =
     (if macs \<noteq> None \<and> macs \<noteq> Some [] then normalise_mac ` set (the macs)
      else if truthy h then {k. \<exists>e. hold now d k = Leased (opt_str h) e} else {})"

lemma holder_leases:
  assumes "wf_db d"
  shows "res_mac ` {r \<in> set (reservations d). holder r = h \<and> lease_kind r = Lease \<and> active now r}
       = {k. \<exists>e. hold now d k = Leased h e}"
proof (intro set_eqI iffI)
  fix k assume "k \<in> res_mac ` {r \<in> set (reservations d). holder r = h \<and> lease_kind r = Lease \<and> active now r}"
  then obtain r where "r \<in> set (reservations d)" "holder r = h" "lease_kind r = Lease" "active now r" "k = res_mac r"
    by blast
  with active_at_Some [OF wf_one_unreleased [OF assms], of r now]
  show "k \<in> {k. \<exists>e. hold now d k = Leased h e}" by (simp add: hold_def)
next
  fix k assume "k \<in> {k. \<exists>e. hold now d k = Leased h e}"
  then obtain r where "active_at now k (reservations d) = Some r" "lease_kind r = Lease" "holder r = h"
    by (cases "active_at now k (reservations d)")
       (auto simp: hold_def split: if_splits intro: lease_kind.exhaust)
  then show "k \<in> res_mac ` {r \<in> set (reservations d). holder r = h \<and> lease_kind r = Lease \<and> active now r}"
    by (force dest: active_at_SomeD)
qed

lemma release_effect:
  assumes "wf_db d"
  shows "wf_db (snd (release now macs h d)) \<and> distinct (fst (release now macs h d))
    \<and> set (fst (release now macs h d)) = {k \<in> release_targets now macs h d. is_Leased (hold now d k)}
    \<and> (\<forall>k. hold now (snd (release now macs h d)) k =
         (if k \<in> set (fst (release now macs h d)) then Free else hold now d k))"
proof (cases "macs \<noteq> None \<and> macs \<noteq> Some []")
  case True
  with release_each_effect [OF assms, of now "map normalise_mac (the macs)"] show ?thesis
    by (simp add: release_def release_targets_def)
next
  case False
  show ?thesis
  proof (cases "truthy h")
    case True
    let ?ms = "map res_mac (select_where (\<lambda>r. holder r = opt_str h \<and> lease_kind r = Lease \<and> active now r) (reservations d))"
    have "set ?ms = release_targets now macs h d"
      using False True holder_leases [OF assms, of "opt_str h" now] by (auto simp: release_targets_def)
    moreover have "release now macs h d = release_each now ?ms d"
      using False True unfolding release_def by auto
    ultimately show ?thesis
      using release_each_effect [OF assms, of now ?ms] by simp
  next
    case not: False
    then have "release now macs h d = ([], d)" using False unfolding release_def by auto
    with False not assms show ?thesis by (auto simp: release_targets_def)
  qed
qed

text \<open>C24: A release frees exactly the leased machines among those it names, lists each of them
  once, and touches no other hold: a permanent hold named in the list stays.\<close>
theorem release_correct:
  assumes "wf_db d"
  shows "wf_db (snd (release now macs h d)) \<and> distinct (fst (release now macs h d))
    \<and> set (fst (release now macs h d)) = {k \<in> release_targets now macs h d. is_Leased (hold now d k)}
    \<and> (\<forall>k. hold now (snd (release now macs h d)) k =
         (if k \<in> set (fst (release now macs h d)) then Free else hold now d k))"
  using assms by (rule release_effect)

lemma release_correct_witness:
  "hold 10 (snd (release 10 (Some [''AA'', ''BB'']) None pool_example)) ''bb'' = Held ''school''"
proof -
  have "''bb'' \<notin> set (fst (release 10 (Some [''AA'', ''BB'']) None pool_example))"
    using release_correct [OF pool_example_facts(1), of 10 "Some [''AA'', ''BB'']" None]
    by (auto simp: pool_example_facts)
  then show ?thesis
    using release_correct [OF pool_example_facts(1), of 10 "Some [''AA'', ''BB'']" None]
    by (simp add: pool_example_facts)
qed

section \<open>Expiry and the reaper\<close>

lemma hold_later:
  assumes "wf_db d" and "now \<le> later"
  shows "hold later d m = (case hold now d m of
      Leased h (Some e) \<Rightarrow> if later < e then Leased h (Some e) else Free | x \<Rightarrow> x)"
proof (cases "active_at now m (reservations d)")
  case None
  with assms(2) have "active_at later m (reservations d) = None"
    by (fastforce simp: active_at_None active_def split: option.splits)
  with None show ?thesis by (simp add: hold_def)
next
  case (Some r)
  then have r: "r \<in> set (reservations d)" "res_mac r = m" "active now r" by (auto dest: active_at_SomeD)
  have only: "active_at later m (reservations d) = (if active later r then Some r else None)"
  proof (cases "active later r")
    case True
    with r active_at_Some [OF wf_one_unreleased [OF assms(1)], of r later] show ?thesis by simp
  next
    case False
    have "s = r" if "s \<in> set (reservations d)" "res_mac s = m" "active later s" for s
      using one_unreleasedD [OF wf_one_unreleased [OF assms(1)], of s r] that r
      by (auto dest: active_unreleased)
    with False show ?thesis by (auto simp: active_at_None)
  qed
  have perm: "lease_kind r = Permanent \<Longrightarrow> expires_at r = None"
    using assms(1) r(1) by (auto simp: wf_db_def wf_reservations_def)
  with Some only r(3) show ?thesis
    by (auto simp: hold_def active_def split: option.split)
qed

text \<open>As time passes a hold changes in one way only: a lease ends when its expiry is reached. A
  permanent hold never lapses and a free machine never becomes held by waiting.\<close>
theorem lease_lapses:
  assumes "wf_db d" and "now \<le> later"
  shows "hold later d m = (case hold now d m of
      Leased h (Some e) \<Rightarrow> if later < e then Leased h (Some e) else Free | x \<Rightarrow> x)"
  using assms by (rule hold_later)

lemma expired_not_active: "expired_lease now r \<Longrightarrow> \<not> active now r \<and> unreleased r"
  by (auto simp: expired_lease_def active_def unreleased_def split: option.splits)

lemma fold_release_effect:
  "wf_db d \<Longrightarrow> wf_db (fold (release_unreleased now) ms d)
     \<and> (\<forall>k. hold now (fold (release_unreleased now) ms d) k = (if k \<in> set ms then Free else hold now d k))
     \<and> machines (fold (release_unreleased now) ms d) = machines d"
  by (induction ms arbitrary: d) (auto simp: wf_release_unreleased hold_release_unreleased)

lemma fold_release_unreleased_left:
  "r \<in> set (reservations (fold (release_unreleased now) ms d)) \<Longrightarrow> unreleased r \<Longrightarrow>
   r \<in> set (reservations d) \<and> res_mac r \<notin> set ms"
proof (induction ms arbitrary: d)
  case Nil
  then show ?case by simp
next
  case (Cons m ms)
  then have r: "r \<in> set (reservations (release_unreleased now m d))" "res_mac r \<notin> set ms" by auto
  from none_left [OF r(1)] Cons.prems(2) have "res_mac r \<noteq> m" by (auto simp: unreleased_def)
  moreover from r(1) obtain x where "x \<in> set (reservations d)"
    "r = (if res_mac x = m \<and> released_at x = None then x\<lparr>released_at := Some now\<rparr> else x)"
    using update_where_memD [of r] unfolding release_unreleased_def by simp blast
  ultimately show ?case using r(2) Cons.prems(2) by (auto simp: unreleased_def split: if_splits)
qed

lemma reap_expired_list:
  "set (fst (reap_expired now d)) = res_mac ` {r \<in> set (reservations d). expired_lease now r}"
  by (simp add: reap_expired_def Let_def)

lemma reap_expired_effect:
  assumes "wf_db d"
  shows "wf_db (snd (reap_expired now d)) \<and> distinct (fst (reap_expired now d))
    \<and> set (fst (reap_expired now d)) = res_mac ` {r \<in> set (reservations d). expired_lease now r}
    \<and> hold now (snd (reap_expired now d)) = hold now d
    \<and> {r \<in> set (reservations (snd (reap_expired now d))). expired_lease now r} = {}
    \<and> machines (snd (reap_expired now d)) = machines d"
proof -
  let ?freed = "map res_mac (select_where (expired_lease now) (reservations d))"
  have reap: "reap_expired now d = (?freed, fold (release_unreleased now) ?freed d)"
    by (simp add: reap_expired_def Let_def)
  have set: "set ?freed = res_mac ` {r \<in> set (reservations d). expired_lease now r}" by simp
  have "filter (expired_lease now) (reservations d)
      = filter (expired_lease now) (filter unreleased (reservations d))"
    by (auto intro!: filter_cong dest: expired_not_active)
  then have distinct: "distinct ?freed"
    using wf_one_unreleased [OF assms]
    by (simp add: select_where_def one_unreleased_def distinct_map_filter del: filter_filter)
  have free: "hold now d k = Free" if "k \<in> set ?freed" for k
  proof -
    from that obtain r where r: "r \<in> set (reservations d)" "expired_lease now r" "res_mac r = k" by auto
    have "\<not> (s \<in> set (reservations d) \<and> res_mac s = k \<and> active now s)" for s
      using one_unreleasedD [OF wf_one_unreleased [OF assms], of s r] r expired_not_active [of now r]
      by (auto dest: active_unreleased)
    then show ?thesis by (simp add: hold_def active_at_None)
  qed
  have "hold now (fold (release_unreleased now) ?freed d) = hold now d"
    using fold_release_effect [OF assms, of now ?freed] free by (auto simp: fun_eq_iff)
  moreover have "{r \<in> set (reservations (fold (release_unreleased now) ?freed d)). expired_lease now r} = {}"
    using fold_release_unreleased_left [of _ now ?freed d] expired_not_active set by blast
  ultimately show ?thesis
    using fold_release_effect [OF assms, of now ?freed] distinct set by (simp add: reap)
qed

text \<open>C23: The reaper's sweep ends exactly the leases whose expiry has passed: it lists the machine of
  each of them once, leaves none behind, and changes no one's hold, since an expired lease no
  longer counted.\<close>
theorem reap_expired_correct:
  assumes "wf_db d"
  shows "wf_db (snd (reap_expired now d)) \<and> distinct (fst (reap_expired now d))
    \<and> set (fst (reap_expired now d)) = res_mac ` {r \<in> set (reservations d). expired_lease now r}
    \<and> hold now (snd (reap_expired now d)) = hold now d
    \<and> {r \<in> set (reservations (snd (reap_expired now d))). expired_lease now r} = {}
    \<and> machines (snd (reap_expired now d)) = machines d"
  using assms by (rule reap_expired_effect)

definition expired_example :: db where
  \<comment> \<open>\<open>pool_example\<close> with a lease on the free machine that ended at time 40\<close>
  "expired_example = pool_example\<lparr>
     reservations := reservations pool_example @ [new_reservation 5 ''aa'' ''agent'' None Lease (Some ''worker'') (Some 40) 2],
     res_seq := 2\<rparr>"

lemma wf_expired_example: "wf_db expired_example"
proof -
  have "insert_reservation 5 ''aa'' ''agent'' None Lease (Some ''worker'') (Some 40) pool_example = (Inr (), expired_example)"
    by (simp add: insert_reservation_def expired_example_def) (simp add: pool_example_def)
  then show ?thesis
    by (rule wf_insert_reservation [OF pool_example_facts(1), rotated 2]) (simp_all add: pool_example_facts)
qed

lemma reap_expired_correct_witness:
  "set (fst (reap_expired 50 expired_example)) = {''aa''}
   \<and> {r \<in> set (reservations (snd (reap_expired 50 expired_example))). expired_lease 50 r} = {}"
proof -
  have "res_mac ` {r \<in> set (reservations expired_example). expired_lease 50 r} = {''aa''}"
    by (force simp: expired_example_def pool_example_def expired_lease_def)
  then show ?thesis using reap_expired_correct [OF wf_expired_example, of 50] by simp
qed

lemma lease_lapses_witness:
  "hold 39 expired_example ''aa'' = Leased ''agent'' (Some 40) \<and> hold 40 expired_example ''aa'' = Free"
proof -
  have "hold 39 expired_example ''aa'' = Leased ''agent'' (Some 40)"
    by (simp add: hold_def active_at_def expired_example_def pool_example_def active_def)
  then show ?thesis using lease_lapses [OF wf_expired_example, of 39 40 "''aa''"] by simp
qed

lemma renew_correct_witness:
  "\<exists>d'. renew 39 ''AA'' 100 expired_example = (Inr True, d') \<and> hold 39 d' ''aa'' = Leased ''agent'' (Some 139)"
proof -
  have nm: "normalise_mac ''AA'' = ''aa''" by code_simp
  have "hold 39 expired_example ''aa'' = Leased ''agent'' (Some 40)"
    by (simp add: hold_def active_at_def expired_example_def pool_example_def active_def)
  then show ?thesis
    using renew_correct [OF wf_expired_example, of 100 39 "''AA''"]
    by (auto simp: nm datetime_plus_def max_datetime_def)
qed

lemma hold_some: "hold now d k = Leased h e \<Longrightarrow>
   \<exists>r \<in> set (reservations d). res_mac r = k \<and> unreleased r \<and> lease_kind r = Lease \<and> holder r = h \<and> expires_at r = e"
  by (cases "active_at now k (reservations d)")
     (force simp: hold_def split: if_splits intro: lease_kind.exhaust dest: active_at_SomeD active_unreleased)+

text \<open>A lease renewed past the last date SQLite can represent has no expiry at all: it never
  lapses, however late, and the reaper never frees it.\<close>
theorem overlong_lease_never_lapses:
  assumes "wf_db d" and "0 < ttl" and "max_datetime < now + ttl"
    and "is_Leased (hold now d (normalise_mac m))" and "now \<le> later"
  shows "\<exists>h d'. renew now m ttl d = (Inr True, d')
    \<and> hold later d' (normalise_mac m) = Leased h None
    \<and> normalise_mac m \<notin> set (fst (reap_expired later d'))"
proof -
  let ?nm = "normalise_mac m"
  obtain h e where he: "hold now d ?nm = Leased h e" using assms(4) by (cases "hold now d ?nm") auto
  obtain d' where d': "renew now m ttl d = (Inr True, d')" "wf_db d'" "hold now d' ?nm = Leased h None"
    using renew_effect [OF assms(1,2), of now m] he assms(3,4) by (auto simp: datetime_plus_def)
  have "hold later d' ?nm = Leased h None"
    using hold_later [OF d'(2) assms(5), of ?nm] d'(3) by simp
  moreover obtain r where r: "r \<in> set (reservations d')" "res_mac r = ?nm" "unreleased r" "expires_at r = None"
    using hold_some [OF d'(3)] by blast
  have "\<not> expired_lease later s" if s: "s \<in> set (reservations d')" "res_mac s = ?nm" for s
  proof
    assume exp: "expired_lease later s"
    then have "s = r"
      using one_unreleasedD [OF wf_one_unreleased [OF d'(2)] s(1) r(1)] s(2) r(2,3) expired_not_active
      by simp
    with exp r(4) show False by (simp add: expired_lease_def)
  qed
  then have "?nm \<notin> set (fst (reap_expired later d'))"
    unfolding reap_expired_list by force
  ultimately show ?thesis using d'(1) by blast
qed

lemma overlong_lease_never_lapses_witness:
  "\<exists>h d'. renew 39 ''AA'' 300000000000 expired_example = (Inr True, d') \<and> hold 999999999999 d' ''aa'' = Leased h None"
proof -
  have nm: "normalise_mac ''AA'' = ''aa''" by code_simp
  have "hold 39 expired_example ''aa'' = Leased ''agent'' (Some 40)"
    by (simp add: hold_def active_at_def expired_example_def pool_example_def active_def)
  then show ?thesis
    using overlong_lease_never_lapses [OF wf_expired_example, of 300000000000 39 "''AA''" 999999999999]
    by (auto simp: nm max_datetime_def)
qed

end
