(* ===== verification/Ip_Address.thy ===== *)
theory Ip_Address
  imports Py_Strings "HOL-Library.Word"
begin

text \<open>
  The functions of Python's \<open>ipaddress\<close> module that the auto-enrol rules use: \<open>ip_address\<close> and
  \<open>ip_network(strict=False)\<close> on strings, \<open>str\<close> of a network, and membership of an address in a
  network. Addresses are words of 32 and 128 bits; \<open>None\<close> is the module's \<open>ValueError\<close>.
\<close>

unbundle bit_operations_syntax

section \<open>Addresses and networks\<close>

datatype ip_addr = V4 "32 word" | V6 "128 word" "string option"

datatype ip_net = Net4 "32 word" nat | Net6 "128 word" "string option" nat

section \<open>Parsing\<close>

definition all_digits :: "string \<Rightarrow> bool" where
  \<comment> \<open>\<open>s.isascii() and s.isdigit()\<close>\<close>
  "all_digits s \<longleftrightarrow> s \<noteq> [] \<and> (\<forall>c \<in> set s. py_digit c)"

definition int_of_digits :: "string \<Rightarrow> int" where
  "int_of_digits s = fold (\<lambda>c n. 10 * n + (int (code c) - 48)) s 0"

definition parse_octet :: "string \<Rightarrow> int option" where
  "parse_octet s =
     (if \<not> all_digits s then None
      else if 3 < length s then None
      else if s \<noteq> ''0'' \<and> hd s = CHR ''0'' then None
      else if 255 < int_of_digits s then None
      else Some (int_of_digits s))"

definition parse_ipv4 :: "string \<Rightarrow> 32 word option" where
  "parse_ipv4 s = (case map parse_octet (split_char (CHR ''.'') s) of
     [Some a, Some b, Some c, Some d] \<Rightarrow> Some (word_of_int (((a * 256 + b) * 256 + c) * 256 + d))
   | _ \<Rightarrow> None)"

definition hex_value :: "char \<Rightarrow> int option" where
  "hex_value c = (let n = int (code c) in
     if 48 \<le> n \<and> n \<le> 57 then Some (n - 48)
     else if 97 \<le> n \<and> n \<le> 102 then Some (n - 87)
     else if 65 \<le> n \<and> n \<le> 70 then Some (n - 55)
     else None)"

definition parse_hextet :: "string \<Rightarrow> int option" where
  "parse_hextet s =
     (if s = [] \<or> 4 < length s \<or> (\<exists>c \<in> set s. hex_value c = None) then None
      else Some (fold (\<lambda>c n. 16 * n + the (hex_value c)) s 0))"

definition hex_of_int :: "int \<Rightarrow> string" where
  \<comment> \<open>\<open>'%x' % n\<close> for \<open>n < 65536\<close>\<close>
  "hex_of_int n =
     (let ds = map (\<lambda>d. hex_digit (nat d)) [n div 4096 mod 16, n div 256 mod 16, n div 16 mod 16, n mod 16]
      in if n < 16 then drop 3 ds else if n < 256 then drop 2 ds else if n < 4096 then drop 1 ds else ds)"

definition hextets_value :: "int list \<Rightarrow> int" where
  "hextets_value hs = fold (\<lambda>h n. 65536 * n + h) hs 0"

definition expand_ipv4_tail :: "string list \<Rightarrow> string list option" where
  \<comment> \<open>a last part with a dot is a dotted quad and stands for two groups\<close>
  "expand_ipv4_tail parts =
     (if CHR ''.'' \<in> set (last parts) then
        (case parse_ipv4 (last parts) of
           None \<Rightarrow> None
         | Some v \<Rightarrow> Some (butlast parts @ [hex_of_int (uint v div 65536), hex_of_int (uint v mod 65536)]))
      else Some parts)"

fun sequence_opt :: "'a option list \<Rightarrow> 'a list option" where
  "sequence_opt [] = Some []"
| "sequence_opt (None # xs) = None"
| "sequence_opt (Some x # xs) = map_option ((#) x) (sequence_opt xs)"

definition parse_ipv6 :: "string \<Rightarrow> 128 word option" where
  "parse_ipv6 s =
     (let parts = split_char (CHR '':'') s in
      if s = [] \<or> length parts < 3 then None
      else case expand_ipv4_tail parts of
        None \<Rightarrow> None
      | Some parts \<Rightarrow>
          (if 9 < length parts then None
           else case filter (\<lambda>i. parts ! i = []) [1..<length parts - 1] of
             [] \<Rightarrow>
               (if length parts \<noteq> 8 then None
                else map_option (\<lambda>hs. word_of_int (hextets_value hs)) (sequence_opt (map parse_hextet parts)))
           | [skip] \<Rightarrow>
               (let hi = (if hd parts = [] then skip - 1 else skip);
                    lo = length parts - skip - 1;
                    lo' = (if last parts = [] then lo - 1 else lo)
                in if hd parts = [] \<and> hi \<noteq> 0 \<or> last parts = [] \<and> lo' \<noteq> 0 \<or> 8 < hi + lo' + 1 then None
                   else case (sequence_opt (map parse_hextet (take hi parts)),
                              sequence_opt (map parse_hextet (drop (length parts - lo') parts))) of
                     (Some his, Some los) \<Rightarrow>
                       Some (word_of_int (hextets_value (his @ replicate (8 - (hi + lo')) 0 @ los)))
                   | _ \<Rightarrow> None)
           | _ \<Rightarrow> None))"

definition split_scope :: "string \<Rightarrow> (string \<times> string option) option" where
  "split_scope s = (case find_split ''%'' s of
     None \<Rightarrow> Some (s, None)
   | Some (a, scope) \<Rightarrow> (if scope = [] \<or> CHR ''%'' \<in> set scope then None else Some (a, Some scope)))"

definition IPv4Address :: "string \<Rightarrow> 32 word option" where
  "IPv4Address s = (if CHR ''/'' \<in> set s then None else parse_ipv4 s)"

definition IPv6Address :: "string \<Rightarrow> (128 word \<times> string option) option" where
  "IPv6Address s =
     (if CHR ''/'' \<in> set s then None
      else case split_scope s of
        None \<Rightarrow> None
      | Some (a, scope) \<Rightarrow> map_option (\<lambda>v. (v, scope)) (parse_ipv6 a))"

definition ip_address :: "string \<Rightarrow> ip_addr option" where
  "ip_address s = (case IPv4Address s of
     Some v \<Rightarrow> Some (V4 v)
   | None \<Rightarrow> map_option (\<lambda>(v, scope). V6 v scope) (IPv6Address s))"

definition prefix_mask :: "nat \<Rightarrow> 'a::len word" where
  "prefix_mask p = push_bit (LENGTH('a) - p) (mask p)"

definition prefix_from_string :: "nat \<Rightarrow> string \<Rightarrow> nat option" where
  "prefix_from_string bits s = (if all_digits s \<and> int_of_digits s \<le> int bits then Some (nat (int_of_digits s)) else None)"

definition prefix_from_mask :: "32 word \<Rightarrow> nat option" where
  \<comment> \<open>a dotted netmask, or its complement, a host mask\<close>
  "prefix_from_mask v = (case List.find (\<lambda>p. v = prefix_mask p) [0..<33] of
     Some p \<Rightarrow> Some p
   | None \<Rightarrow> List.find (\<lambda>p. NOT v = prefix_mask p) [0..<33])"

definition make_netmask4 :: "string \<Rightarrow> nat option" where
  "make_netmask4 s = (case prefix_from_string 32 s of
     Some p \<Rightarrow> Some p
   | None \<Rightarrow> Option.bind (parse_ipv4 s) prefix_from_mask)"

definition split_netmask :: "string \<Rightarrow> (string \<times> string option) option" where
  "split_netmask s = (case split_char (CHR ''/'') s of
     [a] \<Rightarrow> Some (a, None) | [a, m] \<Rightarrow> Some (a, Some m) | _ \<Rightarrow> None)"

definition IPv4Network :: "string \<Rightarrow> ip_net option" where
  "IPv4Network s = (case split_netmask s of
     None \<Rightarrow> None
   | Some (a, m) \<Rightarrow>
       (case (IPv4Address a, case m of None \<Rightarrow> Some 32 | Some t \<Rightarrow> make_netmask4 t) of
          (Some v, Some p) \<Rightarrow> Some (Net4 (v AND prefix_mask p) p)
        | _ \<Rightarrow> None))"

definition IPv6Network :: "string \<Rightarrow> ip_net option" where
  \<comment> \<open>a network address with host bits is rebuilt from its number and loses its scope\<close>
  "IPv6Network s = (case split_netmask s of
     None \<Rightarrow> None
   | Some (a, m) \<Rightarrow>
       (case (IPv6Address a, case m of None \<Rightarrow> Some 128 | Some t \<Rightarrow> prefix_from_string 128 t) of
          (Some (v, scope), Some p) \<Rightarrow>
            (if v AND prefix_mask p = v then Some (Net6 v scope p)
             else Some (Net6 (v AND prefix_mask p) None p))
        | _ \<Rightarrow> None))"

definition ip_network :: "string \<Rightarrow> ip_net option" where
  "ip_network s = (case IPv4Network s of Some n \<Rightarrow> Some n | None \<Rightarrow> IPv6Network s)"

section \<open>Membership and printing\<close>

fun in_network :: "ip_addr \<Rightarrow> ip_net \<Rightarrow> bool" where
  "in_network (V4 a) (Net4 n p) = (a AND prefix_mask p = n)"
| "in_network (V6 a _) (Net6 n _ p) = (a AND prefix_mask p = n)"
| "in_network _ _ = False"

definition octets :: "32 word \<Rightarrow> int list" where
  "octets v = (let n = uint v in [n div 16777216, n div 65536 mod 256, n div 256 mod 256, n mod 256])"

definition str_ipv4 :: "32 word \<Rightarrow> string" where
  "str_ipv4 v = join ''.'' (map str_of_int (octets v))"

definition hextets :: "128 word \<Rightarrow> int list" where
  "hextets v = map (\<lambda>i. uint v div 65536 ^ (7 - i) mod 65536) [0..<8]"

definition zero_run :: "int list \<Rightarrow> nat \<Rightarrow> nat" where
  "zero_run hs i = length (takeWhile (\<lambda>h. h = 0) (drop i hs))"

definition best_run :: "int list \<Rightarrow> nat \<times> nat" where
  \<comment> \<open>the start and length of the first longest run of zero groups\<close>
  "best_run hs = fold (\<lambda>i (s, l). if l < zero_run hs i then (i, zero_run hs i) else (s, l)) [0..<length hs] (0, 0)"

definition str_ipv6 :: "128 word \<Rightarrow> string" where
  "str_ipv6 v =
     (let hs = hextets v; (s, l) = best_run hs in
      if l \<le> 1 then join '':'' (map hex_of_int hs)
      else join '':'' ((if s = 0 then [[]] else map hex_of_int (take s hs)) @ [[]]
             @ (if s + l = 8 then [[]] else map hex_of_int (drop (s + l) hs))))"

primrec str_network :: "ip_net \<Rightarrow> string" where
  "str_network (Net4 v p) = str_ipv4 v @ ''/'' @ str_of_nat p"
| "str_network (Net6 v scope p) =
     str_ipv6 v @ (case scope of None \<Rightarrow> [] | Some s \<Rightarrow> ''%'' @ s) @ ''/'' @ str_of_nat p"

section \<open>Decimal numbers\<close>

lemma int_of_digits_snoc: "int_of_digits (s @ [c]) = 10 * int_of_digits s + (int (code c) - 48)"
  by (simp add: int_of_digits_def)

lemma int_of_digits_single [simp]: "int_of_digits [c] = int (code c) - 48"
  by (simp add: int_of_digits_def)

lemma char_zero: "(char_of (48 :: nat) :: char) = CHR ''0''"
  by code_simp

lemma digit_char: "n < 10 \<Longrightarrow> code (char_of (48 + n)) = 48 + n" for n :: nat
  by (simp add: code_char_of)

lemma str_of_nat_digits:
  "all_digits (str_of_nat n) \<and> int_of_digits (str_of_nat n) = int n
   \<and> (n \<noteq> 0 \<longrightarrow> hd (str_of_nat n) \<noteq> CHR ''0'')"
proof (induction n rule: str_of_nat.induct)
  case (1 n)
  show ?case
  proof (cases "n < 10")
    case True
    then show ?thesis
      using digit_char [OF True] code_inject [of "char_of (48 + n)" "CHR ''0''"]
      by (auto simp: str_of_nat.simps [of n] all_digits_def py_digit_def code_def)
  next
    case False
    with 1 have IH: "all_digits (str_of_nat (n div 10))" "int_of_digits (str_of_nat (n div 10)) = int (n div 10)"
      "hd (str_of_nat (n div 10)) \<noteq> CHR ''0''" by auto
    have eq: "str_of_nat n = str_of_nat (n div 10) @ [char_of (48 + n mod 10)]"
      using False by (simp add: str_of_nat.simps [of n])
    have "code (char_of (48 + n mod 10)) = 48 + n mod 10" by (simp add: digit_char)
    moreover have "10 * int (n div 10) + int (n mod 10) = int n" by presburger
    ultimately show ?thesis
      using IH by (auto simp: eq int_of_digits_snoc all_digits_def py_digit_def)
  qed
qed

lemma length_str_of_nat: "n < 1000 \<Longrightarrow> length (str_of_nat n) \<le> 3"
  by (simp add: str_of_nat.simps [of n] str_of_nat.simps [of "n div 10"] str_of_nat.simps [of "n div 10 div 10"])

lemma digits_no_sep: "all_digits s \<Longrightarrow> CHR ''.'' \<notin> set s \<and> CHR ''/'' \<notin> set s"
  by (auto simp: all_digits_def py_digit_def code_def)

lemma parse_octet_str:
  assumes "0 \<le> n" and "n < 256"
  shows "parse_octet (str_of_int n) = Some n"
proof -
  have s: "str_of_int n = str_of_nat (nat n)" using assms(1) by (simp add: str_of_int_def)
  have "length (str_of_nat (nat n)) \<le> 3" using assms(2) by (intro length_str_of_nat) simp
  moreover have "str_of_nat 0 = ''0''" by (simp add: str_of_nat.simps [of 0] char_zero)
  ultimately show ?thesis
    unfolding s using str_of_nat_digits [of "nat n"] assms by (cases "n = 0") (auto simp: parse_octet_def)
qed

section \<open>Canonical notation\<close>

lemma octets_range: "x \<in> set (octets v) \<Longrightarrow> 0 \<le> x \<and> x < 256"
  using uint_bounded [of v] by (auto simp: octets_def Let_def pos_imp_zdiv_nonneg_iff)

lemma octets_value:
  "octets v = [a, b, c, d] \<Longrightarrow> ((a * 256 + b) * 256 + c) * 256 + d = uint v"
proof -
  assume "octets v = [a, b, c, d]"
  then have o: "a = uint v div 16777216" "b = uint v div 65536 mod 256" "c = uint v div 256 mod 256" "d = uint v mod 256"
    by (simp_all add: octets_def Let_def)
  have "a = uint v div 65536 div 256" and c': "uint v div 65536 = uint v div 256 div 256"
    by (simp_all add: o zdiv_zmult2_eq [symmetric])
  then have "a * 256 + b = uint v div 65536" using o by simp
  then have "(a * 256 + b) * 256 + c = uint v div 256" using o c' by simp
  then show ?thesis using o by simp
qed

lemma octet_strings: "w \<in> set (map str_of_int (octets v)) \<Longrightarrow> all_digits w"
  using str_of_nat_digits octets_range [of _ v] by (fastforce simp: str_of_int_def not_less)

lemma parse_str_ipv4: "parse_ipv4 (str_ipv4 v) = Some v"
proof -
  obtain a b c d where o: "octets v = [a, b, c, d]" by (simp add: octets_def Let_def)
  have "split_char (CHR ''.'') (str_ipv4 v) = map str_of_int (octets v)"
    unfolding str_ipv4_def
  proof (rule split_join)
    show "\<forall>w \<in> set (map str_of_int (octets v)). CHR ''.'' \<notin> set w"
      using octet_strings [of _ v] digits_no_sep by blast
  qed (simp add: o)
  moreover have "map parse_octet (map str_of_int (octets v)) = map Some (octets v)"
    using parse_octet_str octets_range by simp
  ultimately show ?thesis
    using octets_value [OF o] by (simp add: parse_ipv4_def o)
qed

lemma str_ipv4_chars: "CHR ''/'' \<notin> set (str_ipv4 v)"
proof -
  have join: "set (join ''.'' ws) \<subseteq> insert (CHR ''.'') (\<Union> (set ` set ws))" for ws
    by (induction ws rule: induct_list012) auto
  have "CHR ''/'' \<notin> \<Union> (set ` set (map str_of_int (octets v)))"
    using octet_strings digits_no_sep by blast
  with join [of "map str_of_int (octets v)"] show ?thesis by (auto simp: str_ipv4_def)
qed

lemma ipv4_network_roundtrip:
  assumes "v AND prefix_mask p = v" and "p \<le> 32"
  shows "ip_network (str_network (Net4 v p)) = Some (Net4 v p)"
proof -
  have d: "all_digits (str_of_nat p)" "int_of_digits (str_of_nat p) = int p"
    using str_of_nat_digits by auto
  have "split_char (CHR ''/'') (str_ipv4 v @ CHR ''/'' # str_of_nat p) = [str_ipv4 v, str_of_nat p]"
    using str_ipv4_chars digits_no_sep [OF d(1)] by (simp add: split_char_append split_char_no_sep)
  then have "split_netmask (str_network (Net4 v p)) = Some (str_ipv4 v, Some (str_of_nat p))"
    by (simp add: split_netmask_def)
  then show ?thesis
    using assms d str_ipv4_chars parse_str_ipv4
    by (simp add: ip_network_def IPv4Network_def IPv4Address_def make_netmask4_def prefix_from_string_def)
qed

lemma IPv4Network_canonical:
  assumes "IPv4Network s = Some n"
  shows "\<exists>v p. n = Net4 v p \<and> p \<le> 32 \<and> v AND prefix_mask p = v"
proof -
  have mask: "p \<le> 32" if "prefix_from_mask v = Some p" for v p
    using that by (auto simp: prefix_from_mask_def dest!: find_SomeD split: option.splits)
  have "p \<le> 32" if "make_netmask4 m = Some p" for m p
    using that mask by (auto simp: make_netmask4_def prefix_from_string_def
        bind_eq_Some_conv split: option.splits if_splits)
  with assms show ?thesis
    by (fastforce simp: IPv4Network_def and.assoc split: option.splits)
qed

lemma str_network_chars:
  assumes "c \<in> set (str_network (Net4 v p))"
  shows "\<not> py_space c"
proof -
  have join: "set (join [CHR ''.''] ws) \<subseteq> insert (CHR ''.'') (\<Union> (set ` set ws))" for ws
    by (induction ws rule: induct_list012) auto
  from assms have "c \<in> set (str_ipv4 v) \<or> c = CHR ''/'' \<or> c \<in> set (str_of_nat p)" by auto
  moreover have "py_digit c" if "c \<in> set w" "all_digits w" for w
    using that by (simp add: all_digits_def)
  moreover have "c = CHR ''.'' \<or> (\<exists>w \<in> set (map str_of_int (octets v)). c \<in> set w)" if "c \<in> set (str_ipv4 v)"
    using that join [of "map str_of_int (octets v)"] unfolding str_ipv4_def by blast
  ultimately have "py_digit c \<or> c = CHR ''.'' \<or> c = CHR ''/''"
    using octet_strings [of _ v] str_of_nat_digits [of p] by blast
  then show ?thesis by (auto simp: py_digit_def py_space_def code_def Let_def)
qed

end
