(* ===== verification/Auto_Enrol.thy ===== *)
theory Auto_Enrol
  imports Reservations Ip_Address
begin

text \<open>
  The auto-enrol rules of \<open>src/fleetboot/server/registry.py\<close>: normalisation of a rule's match
  value, the operations on the rules table, and the search for the rule that enrols an unknown
  machine.
\<close>

section \<open>Matching\<close>

definition normalise_match_value :: "string \<Rightarrow> string \<Rightarrow> string result" where
  "normalise_match_value kind v =
     (if kind = ''mac_prefix'' then Inr (rstrip_char (CHR '':'') (normalise_mac v))
      else if kind = ''ip_cidr'' then
        (case ip_network (strip v) of
           None \<Rightarrow> Inl (ValueError (py_repr (strip v) @ '' does not appear to be an IPv4 or IPv6 network''))
         | Some n \<Rightarrow> Inr (str_network n))
      else Inl (ValueError (''unknown match_kind: '' @ py_repr kind)))"

definition rule_matches :: "auto_enrol_rule \<Rightarrow> string \<Rightarrow> string option \<Rightarrow> string option \<Rightarrow> bool" where
  "rule_matches rule m source_ip plat =
     (let wanted = lower (str_or (rule_platform rule) ''any'') in
      if wanted \<noteq> ''any'' \<and> (plat = None \<or> lower (opt_str plat) \<noteq> wanted) then False
      else if match_kind rule = ''mac_prefix'' then
        (if match_value rule = [] then True else startswith m (match_value rule))
      else if match_kind rule = ''ip_cidr'' then
        (case source_ip of
           None \<Rightarrow> False
         | Some ip \<Rightarrow> (case (ip_address ip, ip_network (match_value rule)) of
             (Some a, Some n) \<Rightarrow> in_network a n
           | _ \<Rightarrow> False))
      else False)"

section \<open>The rules table\<close>

definition row_to_rule :: "auto_enrol_rule \<Rightarrow> auto_enrol_rule" where
  "row_to_rule row = row\<lparr>rule_scratch_mode := str_or (rule_scratch_mode row) ''volatile''\<rparr>"

definition get_auto_enrol_rule :: "nat \<Rightarrow> db \<Rightarrow> auto_enrol_rule option" where
  "get_auto_enrol_rule i d = map_option row_to_rule (fetch_one (\<lambda>r. rule_id r = i) (auto_enrol_rules d))"

definition list_auto_enrol_rules :: "db \<Rightarrow> auto_enrol_rule list" where
  "list_auto_enrol_rules d = map row_to_rule (order_by rule_id (auto_enrol_rules d))"

definition find_matching_rule :: "string \<Rightarrow> string option \<Rightarrow> string option \<Rightarrow> db \<Rightarrow> auto_enrol_rule option" where
  "find_matching_rule m source_ip plat d =
     (let nm = normalise_mac m in
      List.find (\<lambda>rule. rule_matches rule nm source_ip plat) (list_auto_enrol_rules d))"

definition add_auto_enrol_rule ::
  "timestamp \<Rightarrow> string \<Rightarrow> string \<Rightarrow> string \<Rightarrow> string \<Rightarrow> string \<Rightarrow> string \<Rightarrow> bool \<Rightarrow> string \<Rightarrow> db
   \<Rightarrow> auto_enrol_rule result \<times> db" where
  \<comment> \<open>the \<open>CHECK\<close> on \<open>match_kind\<close> never fails: normalisation accepts only the two kinds\<close>
  "add_auto_enrol_rule now name kind v profile arch plat serial scratch d =
     (if scratch \<notin> set SCRATCH_MODES then (Inl (scratch_error scratch), d)
      else case normalise_match_value kind v of
        Inl e \<Rightarrow> (Inl e, d)
      | Inr normalised \<Rightarrow>
          (let i = Suc (rule_seq d);
               d' = d\<lparr>auto_enrol_rules := auto_enrol_rules d @
                  [\<lparr>rule_id = i, rule_name = name, match_kind = kind, match_value = normalised,
                    rule_profile = profile, rule_architecture = arch, rule_platform = plat,
                    rule_serial_console = serial, rule_created_at = now, rule_scratch_mode = scratch\<rparr>],
                  rule_seq := i\<rparr>
           in case get_auto_enrol_rule i d' of
                None \<Rightarrow> (Inl AssertionError, d')
              | Some rule \<Rightarrow> (Inr rule, d')))"

definition update_auto_enrol_rule ::
  "nat \<Rightarrow> string \<Rightarrow> string \<Rightarrow> string \<Rightarrow> string \<Rightarrow> string \<Rightarrow> string \<Rightarrow> bool \<Rightarrow> string \<Rightarrow> db
   \<Rightarrow> auto_enrol_rule option result \<times> db" where
  "update_auto_enrol_rule i name kind v profile arch plat serial scratch d =
     (if scratch \<notin> set SCRATCH_MODES then (Inl (scratch_error scratch), d)
      else case normalise_match_value kind v of
        Inl e \<Rightarrow> (Inl e, d)
      | Inr normalised \<Rightarrow>
          (let previous = fetch_one (\<lambda>r. rule_id r = i) (auto_enrol_rules d);
               d1 = d\<lparr>auto_enrol_rules := update_where (\<lambda>r. rule_id r = i)
                  (\<lambda>r. r\<lparr>rule_name := name, match_kind := kind, match_value := normalised,
                        rule_profile := profile, rule_architecture := arch, rule_platform := plat,
                        rule_serial_console := serial, rule_scratch_mode := scratch\<rparr>)
                  (auto_enrol_rules d)\<rparr>
           in case previous of
                None \<Rightarrow> (Inr None, d1)
              | Some p \<Rightarrow>
                  (let d2 = (if rule_name p \<noteq> name
                       then d1\<lparr>machines := update_where (\<lambda>m. enrolled_by m = ''rule:'' @ rule_name p)
                              (\<lambda>m. m\<lparr>enrolled_by := ''rule:'' @ name\<rparr>) (machines d1)\<rparr>
                       else d1)
                   in (Inr (get_auto_enrol_rule i d2), d2))))"

definition remove_auto_enrol_rule :: "nat \<Rightarrow> db \<Rightarrow> bool \<times> db" where
  "remove_auto_enrol_rule i d =
     (0 < rowcount (\<lambda>r. rule_id r = i) (auto_enrol_rules d),
      d\<lparr>auto_enrol_rules := delete_where (\<lambda>r. rule_id r = i) (auto_enrol_rules d)\<rparr>)"

section \<open>The invariant\<close>

lemma normalise_match_value_kind:
  "normalise_match_value kind v = Inr x \<Longrightarrow> kind \<in> {''mac_prefix'', ''ip_cidr''}"
  by (auto simp: normalise_match_value_def split: if_splits)

lemma wf_rule_operations [wf_intros]:
  assumes "wf_db d"
  shows "wf_db (snd (add_auto_enrol_rule now name kind v profile arch plat serial scratch d))"
    and "wf_db (snd (update_auto_enrol_rule i name kind v profile arch plat serial scratch d))"
    and "wf_db (snd (remove_auto_enrol_rule i d))"
proof -
  show "wf_db (snd (add_auto_enrol_rule now name kind v profile arch plat serial scratch d))"
    using assms by (auto simp: add_auto_enrol_rule_def wf_db_def Let_def wf_rules_append
        split: sum.split option.split)
  have "mac ` set (update_where P (\<lambda>m. m\<lparr>enrolled_by := x\<rparr>) t) = mac ` set t" for P x and t :: "machine_row table"
    by (simp only: list.set_map [symmetric]) (simp add: map_update_where)
  then show "wf_db (snd (update_auto_enrol_rule i name kind v profile arch plat serial scratch d))"
    using assms by (auto simp: update_auto_enrol_rule_def wf_db_def Let_def wf_rules_update
        wf_machines_update split: sum.split option.split)
  show "wf_db (snd (remove_auto_enrol_rule i d))"
    using assms by (simp add: remove_auto_enrol_rule_def wf_db_def wf_rules_delete)
qed

section \<open>Which rule enrols a machine\<close>

lemma find_first:
  assumes "sorted_wrt (<) (map f xs)"
  shows "List.find P xs = Some x \<longleftrightarrow> x \<in> set xs \<and> P x \<and> (\<forall>y \<in> set xs. P y \<longrightarrow> f x \<le> (f y :: nat))"
  using assms by (induction xs) (auto simp: less_imp_le)

lemma rules_in_order:
  assumes "wf_db d"
  shows "list_auto_enrol_rules d = map row_to_rule (auto_enrol_rules d)"
    and "sorted_wrt (<) (map rule_id (list_auto_enrol_rules d))"
proof -
  have s: "sorted_wrt (<) (map rule_id (auto_enrol_rules d))" using assms by (simp add: wf_db_def wf_rules_def)
  then show l: "list_auto_enrol_rules d = map row_to_rule (auto_enrol_rules d)"
    by (simp add: list_auto_enrol_rules_def order_by_sorted strict_sorted_imp_sorted)
  show "sorted_wrt (<) (map rule_id (list_auto_enrol_rules d))"
    using s by (simp add: l row_to_rule_def sorted_wrt_map)
qed


definition rule_example :: db where
  \<comment> \<open>a rule for one MAC prefix, added before a catch-all\<close>
  "rule_example = snd (add_auto_enrol_rule 2 ''all'' ''mac_prefix'' '''' ''setup'' ''x86_64'' ''any'' False ''volatile''
     (snd (add_auto_enrol_rule 1 ''lab'' ''mac_prefix'' ''AA-BB-'' ''lab'' ''x86_64'' ''any'' False ''volatile'' empty_db)))"

lemma rule_example_list:
  "map (\<lambda>r. (rule_id r, rule_name r, match_kind r, match_value r, rule_platform r)) (list_auto_enrol_rules rule_example)
   = [(1, ''lab'', ''mac_prefix'', ''aa:bb'', ''any''), (2, ''all'', ''mac_prefix'', '''', ''any'')]"
proof -
  have "normalise_match_value ''mac_prefix'' ''AA-BB-'' = Inr ''aa:bb''"
    and "normalise_match_value ''mac_prefix'' '''' = Inr ''''" by code_simp+
  then show ?thesis
    by (simp add: rule_example_def add_auto_enrol_rule_def SCRATCH_MODES_def empty_db_def Let_def
        get_auto_enrol_rule_def row_to_rule_def list_auto_enrol_rules_def order_by_def)
qed


text \<open>A CIDR of an IPv4 network, in whatever notation \<open>ipaddress\<close> reads, is stored in a canonical
  form: normalising the stored value again changes nothing, and the stored value names exactly the
  network that was given, so the rule matches exactly the addresses in it.\<close>
theorem cidr_canonical:
  assumes "IPv4Network (strip v) = Some n"
  shows "\<exists>s. normalise_match_value ''ip_cidr'' v = Inr s \<and> normalise_match_value ''ip_cidr'' s = Inr s
    \<and> (\<forall>rule ip m plat. match_kind rule = ''ip_cidr'' \<and> match_value rule = s \<and> rule_platform rule = ''any'' \<longrightarrow>
         rule_matches rule m (Some ip) plat = (case ip_address ip of None \<Rightarrow> False | Some a \<Rightarrow> in_network a n))"
proof -
  obtain a p where n: "n = Net4 a p" "p \<le> 32" "a AND prefix_mask p = a"
    using IPv4Network_canonical [OF assms] by blast
  have net: "ip_network (strip v) = Some n" using assms by (simp add: ip_network_def)
  have again: "ip_network (str_network n) = Some n"
    using n by (simp add: ipv4_network_roundtrip del: str_network.simps)
  have strip: "strip (str_network n) = str_network n"
    using str_network_chars n(1) by (intro strip_no_space) blast
  have any: "lower ''any'' = ''any''" by code_simp
  show ?thesis
    by (rule exI [of _ "str_network n"])
       (auto simp: normalise_match_value_def net again strip rule_matches_def any str_or_def Let_def
          simp del: str_network.simps split: option.split)
qed

lemma cidr_canonical_witness:
  "normalise_match_value ''ip_cidr'' '' 192.168.99.7/24 '' = Inr ''192.168.99.0/24''
   \<and> normalise_match_value ''ip_cidr'' ''192.168.99.0/24'' = Inr ''192.168.99.0/24''"
proof -
  have n: "IPv4Network (strip '' 192.168.99.7/24 '') = Some (Net4 3232260864 24)" by code_simp
  have "normalise_match_value ''ip_cidr'' '' 192.168.99.7/24 '' = Inr ''192.168.99.0/24''" by code_simp
  then show ?thesis using cidr_canonical [OF n] by auto
qed

text \<open>Renaming a rule carries over to the machines it enrolled: exactly the machines labelled with
  its old name get the new label, and nothing else of any machine changes. The rule keeps its id
  and its place.\<close>
theorem rename_carries_provenance:
  assumes "wf_db d" and "fetch_one (\<lambda>r. rule_id r = i) (auto_enrol_rules d) = Some old"
    and "scratch \<in> set SCRATCH_MODES" and "normalise_match_value kind v = Inr value"
  shows "\<exists>rule d'. update_auto_enrol_rule i name kind v profile arch plat serial scratch d = (Inr (Some rule), d')
    \<and> wf_db d' \<and> rule_id rule = i \<and> rule_name rule = name \<and> match_value rule = value \<and> rule_profile rule = profile
    \<and> machines d' = map (\<lambda>m. if enrolled_by m = ''rule:'' @ rule_name old
                                then m\<lparr>enrolled_by := ''rule:'' @ name\<rparr> else m) (machines d)
    \<and> map rule_id (auto_enrol_rules d') = map rule_id (auto_enrol_rules d)
    \<and> reservations d' = reservations d"
proof -
  let ?f = "\<lambda>r. r\<lparr>rule_name := name, match_kind := kind, match_value := value,
     rule_profile := profile, rule_architecture := arch, rule_platform := plat,
     rule_serial_console := serial, rule_scratch_mode := scratch\<rparr>"
  let ?ms = "map (\<lambda>m. if enrolled_by m = ''rule:'' @ rule_name old
                                then m\<lparr>enrolled_by := ''rule:'' @ name\<rparr> else m) (machines d)"
  let ?rules = "update_where (\<lambda>r. rule_id r = i) ?f (auto_enrol_rules d)"
  let ?d' = "d\<lparr>auto_enrol_rules := ?rules, machines := ?ms\<rparr>"
  have same: "?ms = machines d" if "rule_name old = name"
    using that by (intro map_idI) simp
  have "fetch_one (\<lambda>r. rule_id r = i) ?rules = Some (?f old)"
    using assms(2) by (simp add: fetch_one_update_where) (auto dest: fetch_one_SomeD)
  then have upd: "update_auto_enrol_rule i name kind v profile arch plat serial scratch d
      = (Inr (Some (row_to_rule (?f old))), ?d')"
    using assms(2-4) same
    by (auto simp: update_auto_enrol_rule_def get_auto_enrol_rule_def Let_def) (simp_all add: update_where_def)
  moreover have "wf_db ?d'"
    using wf_rule_operations(2) [OF assms(1), of i name kind v profile arch plat serial scratch] upd by simp
  moreover have "rule_id old = i" using assms(2) by (auto dest: fetch_one_SomeD)
  ultimately show ?thesis
    by (intro exI [of _ "row_to_rule (?f old)"] exI [of _ ?d']) (simp add: row_to_rule_def map_update_where)
qed

lemma rename_carries_provenance_witness:
  "\<exists>d rule d'. map enrolled_by (machines d) = [''rule:lab'', ''manual'']
     \<and> update_auto_enrol_rule 1 ''library'' ''mac_prefix'' ''AA-BB-'' ''lab'' ''x86_64'' ''any'' False ''off'' d = (Inr (Some rule), d')
     \<and> map enrolled_by (machines d') = [''rule:library'', ''manual'']"
proof -
  let ?d = "rule_example\<lparr>machines := [new_machine_row 1 ''aa'' ''p'' ''x86_64'' ''efi'' False ''rule:lab'' ''volatile'',
      new_machine_row 1 ''bb'' ''p'' ''x86_64'' ''efi'' False ''manual'' ''volatile'']\<rparr>"
  have "normal_mac ''aa''" "normal_mac ''bb''" by code_simp+
  moreover have "wf_db rule_example"
    unfolding rule_example_def by (intro wf_rule_operations wf_empty_db)
  moreover have norm: "normalise_match_value ''mac_prefix'' ''AA-BB-'' = Inr ''aa:bb''"
    "normalise_match_value ''mac_prefix'' '''' = Inr ''''" by code_simp+
  then have ex: "reservations rule_example = []" "\<exists>r. fetch_one (\<lambda>r. rule_id r = 1) (auto_enrol_rules rule_example) = Some r \<and> rule_name r = ''lab''"
    by (simp_all add: rule_example_def add_auto_enrol_rule_def SCRATCH_MODES_def empty_db_def Let_def
        get_auto_enrol_rule_def)
  ultimately have "wf_db ?d"
    by (simp add: wf_db_def wf_machines_def keys_distinct_def new_machine_row_def wf_reservations_def one_unreleased_def)
  moreover obtain r where r: "fetch_one (\<lambda>r. rule_id r = 1) (auto_enrol_rules ?d) = Some r" "rule_name r = ''lab''"
    using ex(2) by auto
  moreover have "''off'' \<in> set SCRATCH_MODES" by (simp add: SCRATCH_MODES_def)
  ultimately obtain rule d' where "update_auto_enrol_rule 1 ''library'' ''mac_prefix'' ''AA-BB-'' ''lab'' ''x86_64'' ''any'' False ''off'' ?d = (Inr (Some rule), d')"
    and "machines d' = map (\<lambda>m. if enrolled_by m = ''rule:'' @ rule_name r
            then m\<lparr>enrolled_by := ''rule:'' @ ''library''\<rparr> else m) (machines ?d)"
    using rename_carries_provenance [of ?d 1 r "''off''" "''mac_prefix''" "''AA-BB-''" "''aa:bb''" "''library''"
        "''lab''" "''x86_64''" "''any''" False] norm by blast
  moreover have "map enrolled_by (machines d') = [''rule:library'', ''manual'']"
    using calculation(2) r(2) by (simp add: new_machine_row_def)
  moreover have "map enrolled_by (machines ?d) = [''rule:lab'', ''manual'']"
    by (simp add: new_machine_row_def)
  ultimately show ?thesis by (intro exI [of _ ?d] exI [of _ rule] exI [of _ d'] conjI)
qed

end
