(* ===== verification/Boot_Sessions.thy ===== *)
theory Boot_Sessions
  imports Fleet_DB
begin

text \<open>
  \<open>src/fleetboot/server/boot_sessions.py\<close>: the tokens that let a booting machine report its state.
  \<open>BootSessionStore\<close> has two implementations: an in-process dictionary and the \<open>boot_sessions\<close>
  table. Both are interpreted as \<open>session_store\<close>, and a run of the one looks like a run of the
  other. The random token of \<open>mint\<close> (\<open>secrets.token_hex\<close>) is an argument.
\<close>

section \<open>Sessions\<close>

record BootSession =
  token :: string
  bs_mac :: string
  bs_latest :: "BootState option"
  reports :: "BootState list"

datatype session_error =
    UnknownTokenError string
  | DuplicateToken
  | BadStoredState string

definition further :: "BootState option \<Rightarrow> BootState \<Rightarrow> BootState option" where
  \<comment> \<open>the specification: a session remembers the state furthest along\<close>
  "further l s = Some (case l of None \<Rightarrow> s | Some p \<Rightarrow> max p s)"

section \<open>The in-process store\<close>

type_synonym mem_store = "(string \<times> BootSession) list"

definition mem_mint :: "string \<Rightarrow> string \<Rightarrow> mem_store \<Rightarrow> BootSession \<times> mem_store" where
  "mem_mint t m store =
     (let session = \<lparr>token = t, bs_mac = normalise_mac m, bs_latest = None, reports = []\<rparr>
      in (session, AList.update t session store))"

definition mem_lookup :: "string \<Rightarrow> mem_store \<Rightarrow> BootSession option" where
  "mem_lookup t store = map_of store t"

definition record_in_memory :: "string \<Rightarrow> BootState \<Rightarrow> mem_store \<Rightarrow> (session_error + BootSession) \<times> mem_store" where
  "record_in_memory t state store = (case map_of store t of
     None \<Rightarrow> (Inl (UnknownTokenError t), store)
   | Some session \<Rightarrow>
       (let session = session\<lparr>reports := reports session @ [state]\<rparr>;
            session = (if bs_latest session = None \<or> state_index (the (bs_latest session)) < state_index state
                       then session\<lparr>bs_latest := Some state\<rparr> else session)
        in (Inr session, AList.update t session store)))"

definition mem_end :: "string \<Rightarrow> mem_store \<Rightarrow> mem_store" where
  "mem_end t store = AList.delete t store"

definition mem_active_sessions :: "mem_store \<Rightarrow> BootSession list" where
  "mem_active_sessions store = map snd store"

section \<open>The persistent store\<close>

definition migrate_state :: "string option \<Rightarrow> string option" where
  "migrate_state s = (if s = Some ''login_ready'' \<or> s = Some ''user_logged_in'' then Some ''login_console'' else s)"

definition open_session_store :: "db \<Rightarrow> db" where
  \<comment> \<open>\<open>CREATE TABLE IF NOT EXISTS\<close> and the renames of dropped states\<close>
  "open_session_store d = d\<lparr>boot_sessions := Some (map (\<lambda>r. r\<lparr>latest_state := migrate_state (latest_state r)\<rparr>)
      (case boot_sessions d of None \<Rightarrow> [] | Some t \<Rightarrow> t))\<rparr>"

definition sessions :: "db \<Rightarrow> session_row table" where
  "sessions d = (case boot_sessions d of None \<Rightarrow> [] | Some t \<Rightarrow> t)"

definition set_sessions :: "session_row table \<Rightarrow> db \<Rightarrow> db" where
  "set_sessions t d = d\<lparr>boot_sessions := Some t\<rparr>"

definition db_mint :: "timestamp \<Rightarrow> string \<Rightarrow> string \<Rightarrow> db \<Rightarrow> (session_error + BootSession) \<times> db" where
  "db_mint now t m d =
     (let nm = normalise_mac m in
      if \<exists>r \<in> set (sessions d). tok r = t then (Inl DuplicateToken, d)
      else (Inr \<lparr>token = t, bs_mac = nm, bs_latest = None, reports = []\<rparr>,
            set_sessions (sessions d @ [\<lparr>tok = t, sess_mac = nm, minted_at = now,
               latest_state = None, latest_state_at = None\<rparr>]) d))"

definition stored_state :: "string option \<Rightarrow> session_error + BootState option" where
  "stored_state s = (case s of
     None \<Rightarrow> Inr None
   | Some v \<Rightarrow> (case BootState_of v of None \<Rightarrow> Inl (BadStoredState v) | Some st \<Rightarrow> Inr (Some st)))"

definition load_from_db :: "string \<Rightarrow> db \<Rightarrow> session_error + BootSession option" where
  "load_from_db t d = (case fetch_one (\<lambda>r. tok r = t) (sessions d) of
     None \<Rightarrow> Inr None
   | Some row \<Rightarrow> (case stored_state (latest_state row) of
       Inl e \<Rightarrow> Inl e
     | Inr l \<Rightarrow> Inr (Some \<lparr>token = tok row, bs_mac = sess_mac row, bs_latest = l, reports = []\<rparr>)))"

definition record_in_db :: "timestamp \<Rightarrow> string \<Rightarrow> BootState \<Rightarrow> db \<Rightarrow> (session_error + BootSession) \<times> db" where
  "record_in_db now t state d = (case fetch_one (\<lambda>r. tok r = t) (sessions d) of
     None \<Rightarrow> (Inl (UnknownTokenError t), d)
   | Some row \<Rightarrow> (case stored_state (latest_state row) of
       Inl e \<Rightarrow> (Inl e, d)
     | Inr previous \<Rightarrow>
         (let new_latest = (if previous = None \<or> state_index (the previous) \<le> state_index state
                            then state else the previous)
          in (Inr \<lparr>token = t, bs_mac = sess_mac row, bs_latest = Some new_latest, reports = []\<rparr>,
              set_sessions (update_where (\<lambda>r. tok r = t)
                (\<lambda>r. r\<lparr>latest_state := Some (state_value new_latest), latest_state_at := Some now\<rparr>)
                (sessions d)) d))))"

definition db_end :: "string \<Rightarrow> db \<Rightarrow> db" where
  "db_end t d = set_sessions (delete_where (\<lambda>r. tok r = t) (sessions d)) d"

definition last_seen_by_mac :: "db \<Rightarrow> string \<Rightarrow> timestamp option" where
  \<comment> \<open>\<open>MAX(latest_state_at) ... GROUP BY mac\<close>\<close>
  "last_seen_by_mac d m =
     (let ts = List.map_filter latest_state_at (select_where (\<lambda>r. sess_mac r = m) (sessions d))
      in if ts = [] then None else Some (fold max (tl ts) (hd ts)))"

definition db_active_sessions :: "db \<Rightarrow> (session_error + BootSession) list" where
  "db_active_sessions d = map (\<lambda>r. case stored_state (latest_state r) of
       Inl e \<Rightarrow> Inl e
     | Inr l \<Rightarrow> Inr \<lparr>token = tok r, bs_mac = sess_mac r, bs_latest = l, reports = []\<rparr>) (sessions d)"

section \<open>The interface both stores offer\<close>

type_synonym session_view = "string \<Rightarrow> (string \<times> BootState option) option"

datatype session_op = Mint string string | Report string BootState | End string

fun view_step :: "session_op \<Rightarrow> session_view \<Rightarrow> (string \<times> BootState option) option \<times> session_view" where
  \<comment> \<open>what an operation answers and does to the sessions; only a report has an answer\<close>
  "view_step (Mint t m) v = (None, v(t \<mapsto> (normalise_mac m, None)))"
| "view_step (Report t s) v =
     (let r = map_option (\<lambda>(m, l). (m, further l s)) (v t) in (r, v(t := r)))"
| "view_step (End t) v = (None, v(t := None))"

fun run_ops :: "(session_op \<Rightarrow> 's \<Rightarrow> 'a \<times> 's) \<Rightarrow> session_op list \<Rightarrow> 's \<Rightarrow> 'a list \<times> 's" where
  "run_ops step [] s = ([], s)"
| "run_ops step (x # xs) s =
     (let (a, s') = step x s; (as, s'') = run_ops step xs s' in (a # as, s''))"

fun fresh_tokens :: "session_op list \<Rightarrow> session_view \<Rightarrow> bool" where
  \<comment> \<open>no token is minted while a session has it\<close>
  "fresh_tokens [] v = True"
| "fresh_tokens (x # xs) v =
     ((case x of Mint t m \<Rightarrow> v t = None | _ \<Rightarrow> True) \<and> fresh_tokens xs (snd (view_step x v)))"

locale session_store =
  fixes view :: "'s \<Rightarrow> session_view"
    and step :: "session_op \<Rightarrow> 's \<Rightarrow> (string \<times> BootState option) option \<times> 's"
    and good :: "'s \<Rightarrow> bool"
  assumes step_mint: "good s \<Longrightarrow> view s t = None \<Longrightarrow>
        fst (step (Mint t m) s) = None \<and> view (snd (step (Mint t m) s)) = snd (view_step (Mint t m) (view s))"
    and step_report: "good s \<Longrightarrow> fst (step (Report t st) s) = fst (view_step (Report t st) (view s))
        \<and> view (snd (step (Report t st) s)) = snd (view_step (Report t st) (view s))"
    and step_end: "good s \<Longrightarrow> fst (step (End t) s) = None
        \<and> view (snd (step (End t) s)) = snd (view_step (End t) (view s))"
    and step_good: "good s \<Longrightarrow> good (snd (step x s))"
begin

lemma run_simulates:
  "good s \<Longrightarrow> fresh_tokens ops (view s) \<Longrightarrow>
   fst (run_ops step ops s) = fst (run_ops view_step ops (view s))
   \<and> view (snd (run_ops step ops s)) = snd (run_ops view_step ops (view s))
   \<and> good (snd (run_ops step ops s))"
proof (induction ops arbitrary: s)
  case Nil
  then show ?case by simp
next
  case (Cons x xs)
  have one: "fst (step x s) = fst (view_step x (view s)) \<and> view (snd (step x s)) = snd (view_step x (view s))"
  proof (cases x)
    case (Mint t m)
    with Cons.prems step_mint [of s t m] show ?thesis by simp
  next
    case (Report t st)
    with Cons.prems step_report [of s t st] show ?thesis by simp
  next
    case (End t)
    with Cons.prems step_end [of s t] show ?thesis by simp
  qed
  with Cons.IH [of "snd (step x s)"] Cons.prems step_good [of s x] show ?case
    by (simp add: split_beta)
qed

lemma view_after_reports:
  assumes "good s" and "view s t = Some (m, l)"
  shows "view (snd (run_ops step (map (Report t) sts) s)) t = Some (m, fold (\<lambda>st l. further l st) sts l)"
proof -
  have "fresh_tokens (map (Report t) sts) v" for v
    by (induction sts arbitrary: v) auto
  moreover have "v t = Some (m, l) \<Longrightarrow>
      snd (run_ops view_step (map (Report t) sts) v) t = Some (m, fold (\<lambda>st l. further l st) sts l)" for v
    by (induction sts arbitrary: v l) (auto simp: split_beta Let_def)
  ultimately show ?thesis using run_simulates [OF assms(1)] assms(2) by simp
qed

lemma latest_is_furthest:
  assumes "good s" and "view s t = Some (m, None)" and "sts \<noteq> []"
  shows "view (snd (run_ops step (map (Report t) sts) s)) t = Some (m, Some (Max (set sts)))"
proof -
  have fold: "fold (\<lambda>st l. further l st) xs (Some p) = Some (fold max xs p)" for xs p
    by (induction xs arbitrary: p) (auto simp: further_def max.commute)
  obtain x xs where sts: "sts = x # xs" using assms(3) by (cases sts) auto
  have "fold max xs x = Max (set (x # xs))"
    by (simp only: Max.set_eq_fold)
  moreover have "further None x = Some x" by (simp add: further_def)
  ultimately show ?thesis
    unfolding view_after_reports [OF assms(1,2)] by (simp add: sts fold)
qed

end

section \<open>Both stores implement it\<close>

definition mem_view :: "mem_store \<Rightarrow> session_view" where
  "mem_view store t = map_option (\<lambda>b. (bs_mac b, bs_latest b)) (map_of store t)"

fun mem_step :: "session_op \<Rightarrow> mem_store \<Rightarrow> (string \<times> BootState option) option \<times> mem_store" where
  "mem_step (Mint t m) s = (None, snd (mem_mint t m s))"
| "mem_step (Report t st) s = (case record_in_memory t st s of
     (Inl e, s') \<Rightarrow> (None, s') | (Inr b, s') \<Rightarrow> (Some (bs_mac b, bs_latest b), s'))"
| "mem_step (End t) s = (None, mem_end t s)"

definition db_view :: "db \<Rightarrow> session_view" where
  "db_view d t = map_option (\<lambda>r. (sess_mac r, Option.bind (latest_state r) BootState_of))
     (fetch_one (\<lambda>r. tok r = t) (sessions d))"

fun db_step :: "timestamp \<Rightarrow> session_op \<Rightarrow> db \<Rightarrow> (string \<times> BootState option) option \<times> db" where
  "db_step now (Mint t m) d = (None, snd (db_mint now t m d))"
| "db_step now (Report t st) d = (case record_in_db now t st d of
     (Inl e, d') \<Rightarrow> (None, d') | (Inr b, d') \<Rightarrow> (Some (bs_mac b, bs_latest b), d'))"
| "db_step now (End t) d = (None, db_end t d)"

definition good_sessions :: "db \<Rightarrow> bool" where
  "good_sessions d \<longleftrightarrow> keys_distinct tok (sessions d) \<and>
     (\<forall>r \<in> set (sessions d). \<forall>v. latest_state r = Some v \<longrightarrow> BootState_of v \<noteq> None)"

lemma further_code:
  "(if l = None \<or> state_index (the l) < state_index s then Some s else l) = further l s"
  "Some (if l = None \<or> state_index (the l) \<le> state_index s then s else the l) = further l s"
  by (cases l; auto simp: further_def max_def state_order)+

lemma sessions_set [simp]: "sessions (set_sessions t d) = t"
  by (simp add: sessions_def set_sessions_def)

interpretation mem_store: session_store mem_view mem_step "\<lambda>_. True"
proof
  show "fst (mem_step (Mint t m) s) = None \<and> mem_view (snd (mem_step (Mint t m) s)) = snd (view_step (Mint t m) (mem_view s))" for s t m
    by (auto simp: mem_mint_def mem_view_def AList.update_conv' fun_eq_iff Let_def)
  show "fst (mem_step (Report t st) s) = fst (view_step (Report t st) (mem_view s))
        \<and> mem_view (snd (mem_step (Report t st) s)) = snd (view_step (Report t st) (mem_view s))" for s t st
    by (auto simp: record_in_memory_def mem_view_def AList.update_conv' fun_eq_iff Let_def
        further_code(1) [symmetric] split: option.split)
  show "fst (mem_step (End t) s) = None \<and> mem_view (snd (mem_step (End t) s)) = snd (view_step (End t) (mem_view s))" for s t
    by (auto simp: mem_end_def mem_view_def AList.delete_conv' fun_eq_iff)
qed simp

lemma good_stored_state:
  "good_sessions d \<Longrightarrow> fetch_one (\<lambda>r. tok r = t) (sessions d) = Some row \<Longrightarrow>
   stored_state (latest_state row) = Inr (Option.bind (latest_state row) BootState_of)"
  by (auto simp: good_sessions_def stored_state_def dest!: fetch_one_SomeD split: option.split)

lemma db_view_update:
  assumes "\<And>r. tok (f r) = tok r"
  shows "db_view (set_sessions (update_where (\<lambda>r. tok r = t) f (sessions d)) d) k
       = (if k = t then map_option (\<lambda>r. (sess_mac (f r), Option.bind (latest_state (f r)) BootState_of))
                          (fetch_one (\<lambda>r. tok r = k) (sessions d))
          else db_view d k)"
proof -
  have "fetch_one (\<lambda>r. tok r = k) (update_where (\<lambda>r. tok r = t) f (sessions d))
      = map_option (\<lambda>r. if tok r = t then f r else r) (fetch_one (\<lambda>r. tok r = k) (sessions d))"
    using assms by (simp add: fetch_one_update_where)
  then show ?thesis
    by (cases "fetch_one (\<lambda>r. tok r = k) (sessions d)") (auto simp: db_view_def dest: fetch_one_SomeD)
qed

lemma record_in_db_eq:
  assumes "good_sessions d" and "fetch_one (\<lambda>r. tok r = t) (sessions d) = Some row"
  defines "l \<equiv> Option.bind (latest_state row) BootState_of"
  shows "record_in_db now t st d = (Inr \<lparr>token = t, bs_mac = sess_mac row, bs_latest = further l st, reports = []\<rparr>,
     set_sessions (update_where (\<lambda>r. tok r = t)
       (\<lambda>r. r\<lparr>latest_state := map_option state_value (further l st), latest_state_at := Some now\<rparr>) (sessions d)) d)"
  using good_stored_state [OF assms(1,2)] assms(2)
  by (simp add: record_in_db_def Let_def l_def further_code(2) [symmetric])

interpretation db_store: session_store db_view "db_step now" good_sessions for now
proof
  fix d t
  assume good: "good_sessions d"
  show "fst (db_step now (Mint t m) d) = None \<and> db_view (snd (db_step now (Mint t m) d)) = snd (view_step (Mint t m) (db_view d))"
    if "db_view d t = None" for m
  proof -
    from that have none: "fetch_one (\<lambda>r. tok r = t) (sessions d) = None" by (simp add: db_view_def)
    then have "\<not> (\<exists>r \<in> set (sessions d). tok r = t)" by (simp add: fetch_one_None)
    with none show ?thesis
      by (auto simp: db_mint_def db_view_def fun_eq_iff fetch_one_append Let_def split: option.split)
  qed
  show "fst (db_step now (Report t st) d) = fst (view_step (Report t st) (db_view d))
        \<and> db_view (snd (db_step now (Report t st) d)) = snd (view_step (Report t st) (db_view d))" for st
  proof (cases "fetch_one (\<lambda>r. tok r = t) (sessions d)")
    case None
    then show ?thesis by (auto simp: record_in_db_def db_view_def fun_eq_iff)
  next
    case (Some row)
    have "Option.bind (map_option state_value (further l st)) BootState_of = further l st" for l
      by (simp add: further_def)
    with Some show ?thesis
      by (auto simp: record_in_db_eq [OF good Some] db_view_update fun_eq_iff)
         (simp_all add: db_view_def Let_def)
  qed
  show "fst (db_step now (End t) d) = None \<and> db_view (snd (db_step now (End t) d)) = snd (view_step (End t) (db_view d))"
    using fetch_one_delete_same [of "\<lambda>r. tok r = t" "sessions d"]
    by (auto simp: db_end_def db_view_def fun_eq_iff intro!: arg_cong [of _ _ "map_option _"] fetch_one_delete_other)
  show "good_sessions (snd (db_step now x d))" for x
  proof (cases x)
    case (Mint t m)
    with good show ?thesis
      by (auto simp: db_mint_def good_sessions_def keys_distinct_def Let_def)
  next
    case (Report t st)
    show ?thesis
    proof (cases "fetch_one (\<lambda>r. tok r = t) (sessions d)")
      case None
      with Report good show ?thesis by (simp add: record_in_db_def)
    next
      case (Some row)
      with Report good show ?thesis
        by (auto simp: record_in_db_eq [OF good Some] good_sessions_def keys_distinct_update further_def
            dest!: update_where_memD split: if_splits)
    qed
  next
    case (End t)
    with good show ?thesis by (auto simp: db_end_def good_sessions_def keys_distinct_delete)
  qed
qed

section \<open>What the two stores promise\<close>




definition session_example :: db where
  "session_example = snd (db_mint 1 ''t'' ''aa'' (open_session_store empty_db))"

lemma session_example_facts:
  "good_sessions session_example" "db_view session_example ''t'' = Some (''aa'', None)"
proof -
  have nm: "normalise_mac ''aa'' = ''aa''" by code_simp
  have s: "sessions session_example = [\<lparr>tok = ''t'', sess_mac = ''aa'', minted_at = 1, latest_state = None, latest_state_at = None\<rparr>]"
    by (simp add: session_example_def db_mint_def open_session_store_def sessions_def empty_db_def
        set_sessions_def nm Let_def)
  show "good_sessions session_example" by (simp add: good_sessions_def s keys_distinct_def)
  show "db_view session_example ''t'' = Some (''aa'', None)" by (simp add: db_view_def s)
qed


text \<open>Opening the persistent store on a database whose only unreadable states are the two that
  were renamed makes every session readable and keeps every token with its machine; opening it
  again, as each server restart does, changes nothing, so no booted machine loses its session.\<close>
theorem restart_keeps_sessions:
  assumes "keys_distinct tok (sessions d)"
    and "\<forall>r \<in> set (sessions d). \<forall>v. latest_state r = Some v \<longrightarrow>
           BootState_of v \<noteq> None \<or> v \<in> {''login_ready'', ''user_logged_in''}"
  shows "good_sessions (open_session_store d)
    \<and> (\<forall>t. map_option fst (db_view (open_session_store d) t) = map_option fst (db_view d t))
    \<and> (good_sessions d \<longrightarrow> db_view (open_session_store d) = db_view d)
    \<and> open_session_store (open_session_store d) = open_session_store d"
proof -
  let ?f = "\<lambda>r. r\<lparr>latest_state := migrate_state (latest_state r)\<rparr>"
  have s: "sessions (open_session_store d) = map ?f (sessions d)"
    by (simp add: open_session_store_def sessions_def)
  have login: "BootState_of ''login_console'' = Some LOGIN_CONSOLE" and
    dropped: "BootState_of ''login_ready'' = None" "BootState_of ''user_logged_in'' = None"
    by (simp_all add: BootState_of_def BOOT_STATE_ORDER_def)
  have fetch: "fetch_one (\<lambda>r. tok r = t) (map ?f xs) = map_option ?f (fetch_one (\<lambda>r. tok r = t) xs)" for t xs
    by (induction xs) auto
  have "good_sessions (open_session_store d)"
    using assms by (auto simp: good_sessions_def s keys_distinct_def comp_def migrate_state_def login split: if_splits)
  moreover have "map_option fst (db_view (open_session_store d) t) = map_option fst (db_view d t)" for t
    by (simp add: db_view_def s fetch option.map_comp comp_def)
  moreover have "db_view (open_session_store d) = db_view d" if good: "good_sessions d"
  proof -
    have "?f r = r" if "r \<in> set (sessions d)" for r
      using good that dropped by (auto simp: good_sessions_def migrate_state_def)
    then have "map ?f (sessions d) = sessions d" by (intro map_idI)
    then show ?thesis unfolding db_view_def s by (simp add: fun_eq_iff)
  qed
  moreover have "open_session_store (open_session_store d) = open_session_store d"
    by (simp add: open_session_store_def migrate_state_def)
  ultimately show ?thesis by blast
qed

lemma restart_keeps_sessions_witness:
  "good_sessions (open_session_store session_example)
   \<and> db_view (open_session_store session_example) = db_view session_example"
proof -
  have "keys_distinct tok (sessions session_example)"
    and "\<forall>r \<in> set (sessions session_example). \<forall>v. latest_state r = Some v \<longrightarrow>
           BootState_of v \<noteq> None \<or> v \<in> {''login_ready'', ''user_logged_in''}"
    using session_example_facts(1) by (auto simp: good_sessions_def)
  from restart_keeps_sessions [OF this] session_example_facts(1) show ?thesis by blast
qed

end
