(* ===== verification/Profile_Resolver.thy ===== *)
theory Profile_Resolver
  imports Py_Strings
begin

text \<open>
  \<open>src/scripts/resolve-profile.py\<close>: linearising a profile and its ancestors and merging what they
  contribute. The profiles directory is an association list from directory names to their
  contents, in \<open>iterdir\<close> order; a name in a \<open>parent\<close> file is a single path component.
\<close>

section \<open>The profiles directory\<close>

record profile_dir =
  parent_file :: "string option"
  packages_file :: "string option"
  overlay :: "string pydict option"
  setup_chroot :: "string option"
  suite_file :: "string option"

type_synonym profiles = "(string \<times> profile_dir) list"

definition profile_names :: "profiles \<Rightarrow> string list" where
  "profile_names P = map fst P"

definition BASE_PROFILE :: string where
  "BASE_PROFILE = ''base''"

definition declared_lines :: "string option \<Rightarrow> string list" where
  \<comment> \<open>the stripped lines of a file that are neither blank nor a comment\<close>
  "declared_lines text = (case text of None \<Rightarrow> []
     | Some t \<Rightarrow> filter (\<lambda>l. l \<noteq> [] \<and> \<not> startswith l ''#'') (map strip (splitlines t)))"

definition read_parents :: "profiles \<Rightarrow> string \<Rightarrow> string list" where
  "read_parents P name =
     (let parents = declared_lines (Option.bind (map_of P name) parent_file) in
      if name \<noteq> BASE_PROFILE \<and> BASE_PROFILE \<notin> set parents \<and> BASE_PROFILE \<in> set (profile_names P)
      then BASE_PROFILE # parents else parents)"

section \<open>The chain\<close>

datatype resolution_error = Cycle string string | Profile_Not_Found string

definition unvisited :: "profiles \<Rightarrow> string list \<Rightarrow> nat" where
  "unvisited P visiting = card (set (profile_names P) - set visiting)"

text \<open>
  \<open>visit\<close> is the closure inside \<open>resolve_chain\<close>. A name is added to \<open>visiting\<close> on entry and removed
  before the call returns, so \<open>visiting\<close> holds the names of the enclosing calls and is passed down;
  \<open>seen\<close> always holds exactly the members of \<open>chain\<close>.
\<close>

function visit :: "profiles \<Rightarrow> string \<Rightarrow> string list \<Rightarrow> string \<Rightarrow> string list \<Rightarrow> resolution_error + string list"
  and visit_each :: "profiles \<Rightarrow> string \<Rightarrow> string list \<Rightarrow> string list \<Rightarrow> string list \<Rightarrow> resolution_error + string list"
where
  "visit P target visiting name chain =
     (if name \<in> set chain then Inr chain
      else if name \<in> set visiting then Inl (Cycle target name)
      else if name \<notin> set (profile_names P) then Inl (Profile_Not_Found name)
      else case visit_each P target (name # visiting) (read_parents P name) chain of
        Inl e \<Rightarrow> Inl e
      | Inr chain' \<Rightarrow> Inr (if name \<notin> set chain' then chain' @ [name] else chain'))"
| "visit_each P target visiting [] chain = Inr chain"
| "visit_each P target visiting (p # ps) chain =
     (case visit P target visiting p chain of
        Inl e \<Rightarrow> Inl e
      | Inr chain' \<Rightarrow> visit_each P target visiting ps chain')"
  by pat_completeness auto

termination
proof (relation "inv_image (less_than <*lex*> less_than)
    (\<lambda>x. case x of Inl (P, t, v, n, c) \<Rightarrow> (unvisited P v, 0)
                 | Inr (P, t, v, ps, c) \<Rightarrow> (unvisited P v, Suc (length ps)))")
  fix P :: profiles and target name :: string and visiting chain :: "string list"
  assume "name \<notin> set visiting" and "\<not> name \<notin> set (profile_names P)"
  then have "set (profile_names P) - set (name # visiting) \<subset> set (profile_names P) - set visiting"
    by auto
  then have "unvisited P (name # visiting) < unvisited P visiting"
    unfolding unvisited_def by (intro psubset_card_mono) simp_all
  then show "(Inr (P, target, name # visiting, read_parents P name, chain), Inl (P, target, visiting, name, chain))
      \<in> inv_image (less_than <*lex*> less_than)
        (\<lambda>x. case x of Inl (P, t, v, n, c) \<Rightarrow> (unvisited P v, 0)
                 | Inr (P, t, v, ps, c) \<Rightarrow> (unvisited P v, Suc (length ps)))"
    by simp
qed (auto intro!: wf_inv_image wf_lex_prod)

declare visit.simps [simp del]

definition resolve_chain :: "profiles \<Rightarrow> string \<Rightarrow> resolution_error + string list" where
  "resolve_chain P name = visit P name [] name []"

section \<open>Merging the contributions\<close>

fun merge_lines :: "string list \<Rightarrow> string list \<Rightarrow> string list" where
  \<comment> \<open>append the lines not seen yet\<close>
  "merge_lines out [] = out"
| "merge_lines out (l # ls) = merge_lines (if l \<in> set out then out else out @ [l]) ls"

definition merge_extra_packages :: "profiles \<Rightarrow> string list \<Rightarrow> string list" where
  "merge_extra_packages P chain =
     fold (\<lambda>ancestor out. merge_lines out (declared_lines (Option.bind (map_of P ancestor) packages_file))) chain []"

definition merge_overlays :: "profiles \<Rightarrow> string list \<Rightarrow> string pydict" where
  \<comment> \<open>\<open>copytree(..., dirs_exist_ok=True)\<close> of each overlay in turn, by file path\<close>
  "merge_overlays P chain =
     fold (\<lambda>ancestor dest. case Option.bind (map_of P ancestor) overlay of
        None \<Rightarrow> dest | Some files \<Rightarrow> dict_update dest files) chain []"

definition setup_section :: "profiles \<Rightarrow> string \<Rightarrow> string list" where
  "setup_section P ancestor = (case Option.bind (map_of P ancestor) setup_chroot of
     None \<Rightarrow> []
   | Some content \<Rightarrow>
       (let lines = splitlines content;
            lines = (if lines \<noteq> [] \<and> startswith (hd lines) ''#!'' then tl lines else lines)
        in (''# === from profile: '' @ ancestor @ '' ==='') # lines @ [[]]))"

definition combine_setup_chroots :: "profiles \<Rightarrow> string list \<Rightarrow> string" where
  "combine_setup_chroots P chain =
     (let have_any = (\<exists>a \<in> set chain. Option.bind (map_of P a) setup_chroot \<noteq> None);
          parts = [''#!/bin/sh'', ''set -eu'', []] @ concat (map (setup_section P) chain)
      in join [CHR 0x0A] (if have_any then parts else parts @ [''# (no setup-chroot in any ancestor)'']))"

record resolved =
  extra_packages :: string
  merged_overlay :: "string pydict"
  combined_setup :: string
  resolved_from :: string

definition resolve :: "profiles \<Rightarrow> string \<Rightarrow> resolution_error + resolved" where
  "resolve P name = (case resolve_chain P name of
     Inl e \<Rightarrow> Inl e
   | Inr chain \<Rightarrow>
       (let packages = merge_extra_packages P chain in
        Inr \<lparr>extra_packages = join [CHR 0x0A] packages @ (if packages \<noteq> [] then [CHR 0x0A] else []),
             merged_overlay = merge_overlays P chain,
             combined_setup = combine_setup_chroots P chain,
             resolved_from = join '' -> '' chain @ [CHR 0x0A]\<rparr>))"

definition resolve_exit_code :: "profiles \<Rightarrow> string \<Rightarrow> int" where
  \<comment> \<open>\<open>main\<close>\<close>
  "resolve_exit_code P name = (case resolve P name of Inl e \<Rightarrow> 1 | Inr r \<Rightarrow> 0)"

section \<open>Inheritance\<close>

text \<open>
  What the resolver and the build cascade rely on: every profile has a list of parents, and only
  finitely many profiles exist. \<open>topological\<close> is an order in which parents come first.
\<close>

primrec topological_rev :: "(string \<Rightarrow> string list) \<Rightarrow> string list \<Rightarrow> bool" where
  "topological_rev parents [] = True"
| "topological_rev parents (x # xs) =
     (x \<notin> set xs \<and> set (parents x) \<subseteq> set xs \<and> topological_rev parents xs)"

definition topological :: "(string \<Rightarrow> string list) \<Rightarrow> string list \<Rightarrow> bool" where
  \<comment> \<open>no name twice, and every parent of a name before it\<close>
  "topological parents xs = topological_rev parents (rev xs)"

definition inherits :: "(string \<Rightarrow> string list) \<Rightarrow> (string \<times> string) set" where
  "inherits parents = {(x, p). p \<in> set (parents x)}"

lemma topological_Nil [simp]: "topological parents []"
  by (simp add: topological_def)

lemma topological_snoc [simp]:
  "topological parents (xs @ [x]) \<longleftrightarrow> x \<notin> set xs \<and> set (parents x) \<subseteq> set xs \<and> topological parents xs"
  by (simp add: topological_def)

lemma topological_distinct: "topological parents xs \<Longrightarrow> distinct xs"
  by (induction xs rule: rev_induct) auto

lemma topological_closed: "topological parents xs \<Longrightarrow> x \<in> set xs \<Longrightarrow> set (parents x) \<subseteq> set xs"
  by (induction xs rule: rev_induct) auto

lemma topological_closed_rtrancl:
  assumes "topological parents xs" and "(x, y) \<in> (inherits parents)\<^sup>*" and "x \<in> set xs"
  shows "y \<in> set xs"
  using assms(2,3) by (induction rule: rtrancl_induct)
    (use topological_closed [OF assms(1)] in \<open>auto simp: inherits_def\<close>)

lemma topological_acyclic:
  "topological parents xs \<Longrightarrow> x \<in> set xs \<Longrightarrow> (x, x) \<notin> (inherits parents)\<^sup>+"
proof (induction xs arbitrary: x rule: rev_induct)
  case Nil
  then show ?case by simp
next
  case (snoc z xs)
  then have topo: "topological parents xs" and z: "z \<notin> set xs" "set (parents z) \<subseteq> set xs" by auto
  show ?case
  proof (cases "x = z")
    case True
    show ?thesis
    proof
      assume "(x, x) \<in> (inherits parents)\<^sup>+"
      then obtain p where "(x, p) \<in> inherits parents" "(p, x) \<in> (inherits parents)\<^sup>*"
        by (meson tranclD)
      with True z topological_closed_rtrancl [OF topo] show False by (auto simp: inherits_def)
    qed
  next
    case False
    with snoc show ?thesis by auto
  qed
qed

definition ancestors :: "(string \<Rightarrow> string list) \<Rightarrow> string \<Rightarrow> string set" where
  \<comment> \<open>a profile and everything it inherits from\<close>
  "ancestors parents x = {y. (x, y) \<in> (inherits parents)\<^sup>*}"

definition legal :: "(string \<Rightarrow> string list) \<Rightarrow> string set \<Rightarrow> string \<Rightarrow> bool" where
  \<comment> \<open>every ancestor exists and none inherits from itself\<close>
  "legal parents names x \<longleftrightarrow> ancestors parents x \<subseteq> names
     \<and> (\<forall>y \<in> ancestors parents x. (y, y) \<notin> (inherits parents)\<^sup>+)"

definition descendants :: "(string \<Rightarrow> string list) \<Rightarrow> string set \<Rightarrow> string \<Rightarrow> string set" where
  "descendants parents names r = {x. (x, r) \<in> (inherits parents \<inter> names \<times> UNIV)\<^sup>+}"

locale profile_tree =
  fixes parents :: "string \<Rightarrow> string list" and names :: "string set"
  assumes finite_names: "finite names"
    and implicit_base: "BASE_PROFILE \<in> names \<Longrightarrow> x \<noteq> BASE_PROFILE \<Longrightarrow> BASE_PROFILE \<in> set (parents x)"
begin

lemma ancestors_unfold: "ancestors parents x = insert x (\<Union> (ancestors parents ` set (parents x)))"
proof -
  have "(x, y) \<in> (inherits parents)\<^sup>* \<longleftrightarrow> y = x \<or> (\<exists>p \<in> set (parents x). (p, y) \<in> (inherits parents)\<^sup>*)" for y
    by (subst rtrancl_eq_or_trancl, subst trancl_unfold_left) (auto simp: inherits_def)
  then show ?thesis by (auto simp: ancestors_def)
qed

lemma ancestors_trans: "y \<in> ancestors parents x \<Longrightarrow> ancestors parents y \<subseteq> ancestors parents x"
  by (auto simp: ancestors_def intro: rtrancl_trans)

lemma self_ancestor [simp]: "x \<in> ancestors parents x"
  by (simp add: ancestors_def)

lemma legal_parent: "legal parents names x \<Longrightarrow> p \<in> set (parents x) \<Longrightarrow> legal parents names p"
  using ancestors_unfold [of x] unfolding legal_def by blast

lemma legal_descends:
  assumes "legal parents names x" and "r \<noteq> x"
  shows "x \<in> descendants parents names r \<longleftrightarrow> r \<in> ancestors parents x"
proof
  assume "x \<in> descendants parents names r"
  then have "(x, r) \<in> (inherits parents)\<^sup>+"
    unfolding descendants_def by (auto elim: trancl_mono)
  then show "r \<in> ancestors parents x" by (simp add: ancestors_def trancl_into_rtrancl)
next
  assume "r \<in> ancestors parents x"
  then have "(x, r) \<in> (inherits parents)\<^sup>*" by (simp add: ancestors_def)
  then have "(x, r) \<in> (inherits parents \<inter> names \<times> UNIV)\<^sup>*"
  proof (induction rule: rtrancl_induct)
    case base
    then show ?case by simp
  next
    case (step y z)
    then have "y \<in> names" using assms(1) by (auto simp: legal_def ancestors_def)
    with step show ?case by (auto intro: rtrancl_into_rtrancl)
  qed
  with assms(2) show "x \<in> descendants parents names r"
    by (auto simp: descendants_def rtrancl_eq_or_trancl)
qed

lemma base_is_ancestor: "BASE_PROFILE \<in> names \<Longrightarrow> BASE_PROFILE \<in> ancestors parents x"
  using implicit_base [of x] ancestors_unfold [of x] self_ancestor [of BASE_PROFILE] by blast

lemma base_reaches_all:
  assumes "BASE_PROFILE \<in> names" and "x \<in> names" and "x \<noteq> BASE_PROFILE"
  shows "x \<in> descendants parents names BASE_PROFILE"
  using implicit_base [OF assms(1,3)] assms(2) by (auto simp: descendants_def inherits_def)

end

interpretation resolver: profile_tree "read_parents P" "set (profile_names P)" for P
  by unfold_locales (auto simp: read_parents_def Let_def)

section \<open>The chain is the ancestry in a topological order\<close>

lemma visit_sound:
  "visit P t v name chain = Inr chain' \<Longrightarrow> topological (read_parents P) chain \<Longrightarrow> set chain \<subseteq> set (profile_names P) \<Longrightarrow>
     topological (read_parents P) chain' \<and> set chain' \<subseteq> set (profile_names P)
     \<and> set chain' = set chain \<union> ancestors (read_parents P) name \<and> (name \<notin> set chain \<longrightarrow> last chain' = name)"
  "visit_each P t v ps chain = Inr chain' \<Longrightarrow> topological (read_parents P) chain \<Longrightarrow> set chain \<subseteq> set (profile_names P) \<Longrightarrow>
     topological (read_parents P) chain' \<and> set chain' \<subseteq> set (profile_names P)
     \<and> set chain' = set chain \<union> \<Union> (ancestors (read_parents P) ` set ps)"
proof (induction P t v name chain and P t v ps chain arbitrary: chain' and chain' rule: visit_visit_each.induct)
  case (1 P t v name chain)
  show ?case
  proof (cases "name \<in> set chain")
    case True
    then have "ancestors (read_parents P) name \<subseteq> set chain"
      using topological_closed_rtrancl [OF "1.prems"(2)] by (auto simp: ancestors_def)
    with True 1 show ?thesis by (auto simp: visit.simps)
  next
    case False
    with "1.prems"(1) obtain mid where mid: "name \<notin> set v" "name \<in> set (profile_names P)"
      "visit_each P t (name # v) (read_parents P name) chain = Inr mid"
      "chain' = (if name \<notin> set mid then mid @ [name] else mid)"
      by (auto simp: visit.simps split: if_splits sum.splits)
    with "1.IH" [of mid] False "1.prems"
    have IH: "topological (read_parents P) mid" "set mid \<subseteq> set (profile_names P)"
      "set mid = set chain \<union> \<Union> (ancestors (read_parents P) ` set (read_parents P name))" by auto
    have "name \<notin> set mid"
    proof
      assume "name \<in> set mid"
      with False IH(3) obtain p where "p \<in> set (read_parents P name)" "name \<in> ancestors (read_parents P) p" by auto
      then have "(name, name) \<in> (inherits (read_parents P))\<^sup>+"
        by (auto simp: ancestors_def inherits_def intro: rtrancl_into_trancl2)
      with topological_acyclic [OF IH(1) \<open>name \<in> set mid\<close>] show False by simp
    qed
    with mid(2,4) IH resolver.ancestors_unfold [of P name] show ?thesis
      using resolver.self_ancestor by auto
  qed
next
  case (2 P t v chain)
  then show ?case by simp
next
  case (3 P t v p ps chain)
  from "3.prems"(1) obtain mid where "visit P t v p chain = Inr mid" "visit_each P t v ps mid = Inr chain'"
    by (auto split: sum.splits)
  with 3 show ?case by auto
qed

lemma visit_complete:
  "legal (read_parents P) (set (profile_names P)) name \<Longrightarrow>
   \<forall>x \<in> set v. (x, name) \<in> (inherits (read_parents P))\<^sup>+ \<Longrightarrow> \<exists>chain'. visit P t v name chain = Inr chain'"
  "\<forall>p \<in> set ps. legal (read_parents P) (set (profile_names P)) p
     \<and> (\<forall>x \<in> set v. (x, p) \<in> (inherits (read_parents P))\<^sup>+) \<Longrightarrow> \<exists>chain'. visit_each P t v ps chain = Inr chain'"
proof (induction P t v name chain and P t v ps chain rule: visit_visit_each.induct)
  case (1 P t v name chain)
  have "name \<in> set (profile_names P)" and "(name, name) \<notin> (inherits (read_parents P))\<^sup>+"
    using "1.prems"(1) resolver.self_ancestor by (auto simp: legal_def)
  moreover from this "1.prems"(2) have "name \<notin> set v" by auto
  moreover have "\<forall>p \<in> set (read_parents P name). legal (read_parents P) (set (profile_names P)) p
     \<and> (\<forall>x \<in> set (name # v). (x, p) \<in> (inherits (read_parents P))\<^sup>+)"
    using resolver.legal_parent [OF "1.prems"(1)] "1.prems"(2)
    by (auto simp: inherits_def intro: trancl_into_trancl)
  ultimately show ?case
    using "1.IH" by (auto simp: visit.simps split: sum.split)
next
  case (2 P t v chain)
  then show ?case by simp
next
  case (3 P t v p ps chain)
  then obtain mid where "visit P t v p chain = Inr mid" by auto
  with 3 show ?case by auto
qed

lemma resolve_chain_sound:
  assumes "resolve_chain P name = Inr chain"
  shows "topological (read_parents P) chain" and "set chain \<subseteq> set (profile_names P)"
    and "set chain = ancestors (read_parents P) name" and "last chain = name"
  using visit_sound(1) [OF assms [unfolded resolve_chain_def]] by auto

lemma resolve_chain_complete:
  "legal (read_parents P) (set (profile_names P)) name \<Longrightarrow> \<exists>chain. resolve_chain P name = Inr chain"
  unfolding resolve_chain_def by (rule visit_complete(1)) simp_all

lemma resolve_chain_legal:
  assumes "resolve_chain P name = Inr chain"
  shows "legal (read_parents P) (set (profile_names P)) name"
  using resolve_chain_sound [OF assms] topological_acyclic by (auto simp: legal_def)

text \<open>C7: Resolution succeeds exactly when every ancestor of the profile exists and none inherits from
  itself. The chain then lists the profile and all its ancestors, each exactly once, every profile
  after all of its parents, and the profile itself last.\<close>
theorem resolve_chain_correct:
  assumes "legal (read_parents P) (set (profile_names P)) name \<or> (\<exists>chain. resolve_chain P name = Inr chain)"
  shows "legal (read_parents P) (set (profile_names P)) name
    \<and> (\<exists>chain. resolve_chain P name = Inr chain \<and> set chain = ancestors (read_parents P) name
         \<and> topological (read_parents P) chain \<and> distinct chain \<and> last chain = name)"
  using assms resolve_chain_complete [of P name] resolve_chain_legal [of P name]
    resolve_chain_sound [of P name] topological_distinct by metis

definition profiles_example :: profiles where
  \<comment> \<open>a diamond: the kiosk inherits from two profiles that both inherit from the desktop\<close>
  "profiles_example =
     (let p = (\<lambda>text. \<lparr>parent_file = text, packages_file = Some ''vim'', overlay = None, setup_chroot = None, suite_file = None\<rparr>)
      in [(''kiosk'', p (Some (''amd'' @ [CHR 0x0A] @ ''lab'' @ [CHR 0x0A]))), (''amd'', p (Some ''desktop'')),
          (''base'', p None), (''lab'', p (Some ''desktop'')), (''desktop'', p None)])"

lemma resolve_chain_correct_witness:
  "resolve_chain profiles_example ''kiosk'' = Inr [''base'', ''desktop'', ''amd'', ''lab'', ''kiosk'']
   \<and> topological (read_parents profiles_example) [''base'', ''desktop'', ''amd'', ''lab'', ''kiosk'']"
proof -
  have "resolve_chain profiles_example ''kiosk'' = Inr [''base'', ''desktop'', ''amd'', ''lab'', ''kiosk'']"
    by code_simp
  with resolve_chain_correct [of profiles_example "''kiosk''"] show ?thesis by auto
qed

text \<open>A resolved build contains each package line once, and contains exactly the package lines
  some ancestor declares; a file of the merged overlay comes from the most derived profile of the
  chain that has it.\<close>
theorem merged_contributions:
  "distinct (merge_extra_packages P chain)
   \<and> set (merge_extra_packages P chain)
     = (\<Union>a \<in> set chain. set (declared_lines (Option.bind (map_of P a) packages_file)))
   \<and> (\<forall>a path. (case Option.bind (map_of P a) overlay of
         None \<Rightarrow> dict_get (merge_overlays P (chain @ [a])) path = dict_get (merge_overlays P chain) path
       | Some files \<Rightarrow> distinct (map fst files) \<longrightarrow>
           dict_get (merge_overlays P (chain @ [a])) path
           = (case dict_get files path of None \<Rightarrow> dict_get (merge_overlays P chain) path | Some c \<Rightarrow> Some c)))"
proof -
  have lines: "distinct out \<Longrightarrow> distinct (merge_lines out ls) \<and> set (merge_lines out ls) = set out \<union> set ls" for out ls
    by (induction ls arbitrary: out) auto
  have "distinct (merge_extra_packages P chain) \<and> set (merge_extra_packages P chain)
     = (\<Union>a \<in> set chain. set (declared_lines (Option.bind (map_of P a) packages_file)))"
    unfolding merge_extra_packages_def
    by (induction chain rule: rev_induct) (auto simp: lines)
  then show ?thesis
    by (auto simp: merge_overlays_def dict_get_update split: option.split)
qed

lemma merged_contributions_witness:
  "\<exists>P. merge_extra_packages P [''base''] = [''vim'']
     \<and> dict_get (merge_overlays P [''base'', ''kiosk'']) ''etc/motd'' = Some ''kiosk''"
proof -
  let ?p = "\<lambda>name. \<lparr>parent_file = None, packages_file = Some ''vim'', overlay = Some [(''etc/motd'', name)],
      setup_chroot = None, suite_file = None\<rparr>"
  let ?P = "[(''base'', ?p ''base''), (''kiosk'', ?p ''kiosk'')]"
  have "(case Option.bind (map_of ?P ''kiosk'') overlay of
         None \<Rightarrow> dict_get (merge_overlays ?P ([''base''] @ [''kiosk''])) ''etc/motd'' = dict_get (merge_overlays ?P [''base'']) ''etc/motd''
       | Some files \<Rightarrow> distinct (map fst files) \<longrightarrow>
           dict_get (merge_overlays ?P ([''base''] @ [''kiosk''])) ''etc/motd''
           = (case dict_get files ''etc/motd'' of None \<Rightarrow> dict_get (merge_overlays ?P [''base'']) ''etc/motd'' | Some c \<Rightarrow> Some c))"
    using merged_contributions [of ?P "[''base'']"] by blast
  then have "dict_get (merge_overlays ?P [''base'', ''kiosk'']) ''etc/motd'' = Some ''kiosk''" by simp
  moreover have "merge_extra_packages ?P [''base''] = [''vim'']" by code_simp
  ultimately show ?thesis by blast
qed

end
