(* ===== verification/Build_Cascade.thy ===== *)
theory Build_Cascade
  imports Profile_Resolver
begin

text \<open>
  \<open>compute_build_cascade\<close> and \<open>_read_profile_parents\<close> of \<open>src/fleetboot/server/build_jobs.py\<close>: which
  images to rebuild, and in which order, when a profile changes. The module reads the \<open>parent\<close>
  files by itself; \<open>parents_agree\<close> shows it reads them as the resolver does, so the two share the
  theory of \<open>profile_tree\<close>.
\<close>

section \<open>Reading the parents\<close>

definition read_profile_parents :: "profiles \<Rightarrow> string \<Rightarrow> string list" where
  "read_profile_parents P name =
     (let parents = (case Option.bind (map_of P name) parent_file of
            None \<Rightarrow> []
          | Some text \<Rightarrow> List.map_filter (\<lambda>line. let stripped = strip line in
                if stripped \<noteq> [] \<and> \<not> startswith stripped ''#'' then Some stripped else None) (splitlines text))
      in if name \<noteq> BASE_PROFILE \<and> BASE_PROFILE \<notin> set parents \<and> BASE_PROFILE \<in> set (map fst P)
         then BASE_PROFILE # parents else parents)"

section \<open>The descendants\<close>

definition children :: "profiles \<Rightarrow> string \<Rightarrow> string list" where
  \<comment> \<open>\<open>children[parent]\<close>; a profile that lists a parent twice is its child twice\<close>
  "children P parent = concat (map (\<lambda>profile.
     map (\<lambda>p. profile) (filter (\<lambda>p. p = parent) (read_profile_parents P profile))) (map fst P))"

lemma children_iff: "x \<in> set (children P p) \<longleftrightarrow> x \<in> set (map fst P) \<and> p \<in> set (read_profile_parents P x)"
  by (auto simp: children_def)

function collect :: "profiles \<Rightarrow> string list \<Rightarrow> string list \<Rightarrow> string list" where
  \<comment> \<open>the top of the stack is the head of the list\<close>
  "collect P in_set [] = in_set"
| "collect P in_set (node # stack) =
     (if node \<in> set in_set then collect P in_set stack
      else collect P (in_set @ [node]) (rev (children P node) @ stack))"
  by pat_completeness auto

termination
proof (relation "inv_image (less_than <*lex*> less_than)
    (\<lambda>(P, in_set, stack). (card (set (map fst P) \<union> set stack - set in_set), length stack))")
  fix P :: profiles and in_set stack :: "string list" and node
  assume "node \<in> set in_set"
  then have "set (map fst P) \<union> set (node # stack) - set in_set = set (map fst P) \<union> set stack - set in_set"
    by auto
  then show "((P, in_set, stack), P, in_set, node # stack) \<in> inv_image (less_than <*lex*> less_than)
      (\<lambda>(P, in_set, stack). (card (set (map fst P) \<union> set stack - set in_set), length stack))"
    by simp
next
  fix P :: profiles and in_set stack :: "string list" and node
  assume "node \<notin> set in_set"
  then have "set (map fst P) \<union> set (rev (children P node) @ stack) - set (in_set @ [node])
      \<subset> set (map fst P) \<union> set (node # stack) - set in_set"
    using children_iff by auto
  then have "card (set (map fst P) \<union> set (rev (children P node) @ stack) - set (in_set @ [node]))
      < card (set (map fst P) \<union> set (node # stack) - set in_set)"
    by (intro psubset_card_mono) simp_all
  then show "((P, in_set @ [node], rev (children P node) @ stack), P, in_set, node # stack)
      \<in> inv_image (less_than <*lex*> less_than)
      (\<lambda>(P, in_set, stack). (card (set (map fst P) \<union> set stack - set in_set), length stack))"
    by simp
qed (auto intro!: wf_inv_image wf_lex_prod)

section \<open>The order\<close>

definition ready_nodes :: "(string \<times> string list) list \<Rightarrow> string list" where
  "ready_nodes remaining = sort (map fst (filter (\<lambda>(node, ps). ps = []) remaining))"

definition without :: "string list \<Rightarrow> (string \<times> string list) list \<Rightarrow> (string \<times> string list) list" where
  \<comment> \<open>delete the ready nodes and discard them from the parents of the rest\<close>
  "without ready remaining = map (\<lambda>(node, ps). (node, filter (\<lambda>p. p \<notin> set ready) ps))
     (filter (\<lambda>(node, ps). node \<notin> set ready) remaining)"

lemma ready_iff: "n \<in> set (ready_nodes remaining) \<longleftrightarrow> (n, []) \<in> set remaining"
  by (force simp: ready_nodes_def)

lemma without_iff:
  "(n, ps) \<in> set (without ready remaining) \<longleftrightarrow>
     n \<notin> set ready \<and> (\<exists>qs. (n, qs) \<in> set remaining \<and> ps = filter (\<lambda>p. p \<notin> set ready) qs)"
  by (auto simp: without_def)

lemma fst_without: "map fst (without ready remaining) = filter (\<lambda>n. n \<notin> set ready) (map fst remaining)"
  by (simp add: without_def filter_map comp_def case_prod_unfold)

lemma fst_set_without: "fst ` set (without ready remaining) = fst ` set remaining - set ready"
  using arg_cong [OF fst_without, of set ready remaining] by auto

lemma length_without: "n \<in> set ready \<Longrightarrow> n \<in> fst ` set remaining \<Longrightarrow> length (without ready remaining) < length remaining"
  unfolding without_def length_map by (auto intro!: length_filter_less)

function emit :: "(string \<times> string list) list \<Rightarrow> string list \<Rightarrow> string list" where
  "emit remaining ordered =
     (if remaining = [] then ordered
      else let ready = ready_nodes remaining in
        if ready = [] then ordered @ sort (map fst remaining)
        else emit (without ready remaining) (ordered @ ready))"
  by pat_completeness auto

termination
proof (relation "measure (\<lambda>(remaining, ordered). length remaining)")
  fix remaining :: "(string \<times> string list) list" and ordered ready
  assume ready: "ready = ready_nodes remaining" "ready \<noteq> []"
  then have "hd ready \<in> set ready" by simp
  moreover from this ready(1) have "hd ready \<in> fst ` set remaining" by (force simp: ready_iff)
  ultimately show "((without ready remaining, ordered @ ready), remaining, ordered)
      \<in> measure (\<lambda>(remaining, ordered). length remaining)"
    by (simp add: length_without)
qed simp

declare emit.simps [simp del]

definition cascade_set :: "profiles \<Rightarrow> string \<Rightarrow> string list" where
  "cascade_set P root = collect P [root] (rev (children P root))"

definition compute_build_cascade :: "profiles option \<Rightarrow> string \<Rightarrow> string list" where
  \<comment> \<open>\<open>None\<close> when there is no profiles directory\<close>
  "compute_build_cascade dir root = (case dir of
     None \<Rightarrow> [root]
   | Some P \<Rightarrow>
       (let in_set = cascade_set P root;
            remaining = map (\<lambda>node. (node,
              remdups (filter (\<lambda>p. p \<in> set in_set) (read_profile_parents P node)))) in_set
        in emit remaining []))"

section \<open>Both modules read the same parents\<close>

text \<open>
  The build cascade and the resolver read the same parents of every profile, so their two
  copies of the rule (declared lines, plus the implicit base) cannot disagree.
\<close>

lemma parents_agree: "read_profile_parents P name = read_parents P name"
proof -
  have "List.map_filter (\<lambda>line. let stripped = strip line in
      if stripped \<noteq> [] \<and> \<not> startswith stripped ''#'' then Some stripped else None) ls
    = filter (\<lambda>l. l \<noteq> [] \<and> \<not> startswith l ''#'') (map strip ls)" for ls
    by (induction ls) (auto simp: List.map_filter_simps Let_def)
  then show ?thesis
    by (auto simp: read_profile_parents_def read_parents_def declared_lines_def profile_names_def Let_def
        split: option.split)
qed

interpretation builder: profile_tree "read_profile_parents P" "set (profile_names P)" for P
  by unfold_locales (auto simp: read_profile_parents_def profile_names_def Let_def)

section \<open>The cascade is the descendants in a topological order\<close>

lemma collect_sound:
  "set (collect P in_set stack) \<subseteq> X" if "set in_set \<subseteq> X" "set stack \<subseteq> X" "\<And>p. p \<in> X \<Longrightarrow> set (children P p) \<subseteq> X"
  using that by (induction P in_set stack rule: collect.induct) auto

lemma collect_complete:
  assumes "\<forall>p \<in> set in_set. set (children P p) \<subseteq> set in_set \<union> set stack"
  shows "set in_set \<union> set stack \<subseteq> set (collect P in_set stack)
    \<and> (\<forall>p \<in> set (collect P in_set stack). set (children P p) \<subseteq> set (collect P in_set stack))"
  using assms
proof (induction P in_set stack rule: collect.induct)
  case (1 P in_set)
  then show ?case by simp
next
  case (2 P in_set node stack)
  show ?case
  proof (cases "node \<in> set in_set")
    case True
    with 2 show ?thesis by auto
  next
    case False
    have "\<forall>p \<in> set (in_set @ [node]). set (children P p) \<subseteq> set (in_set @ [node]) \<union> set (rev (children P node) @ stack)"
      using "2.prems" by auto
    with "2.IH"(2) [OF False] False show ?thesis by auto
  qed
qed

lemma collect_distinct: "distinct in_set \<Longrightarrow> distinct (collect P in_set stack)"
  by (induction P in_set stack rule: collect.induct) auto

lemma child_rel:
  "x \<in> set (children P p) \<longleftrightarrow> (x, p) \<in> inherits (read_profile_parents P) \<inter> set (profile_names P) \<times> UNIV"
  by (auto simp: children_iff inherits_def profile_names_def)

lemma cascade_set_eq:
  "set (cascade_set P root) = insert root (descendants (read_profile_parents P) (set (profile_names P)) root)"
proof
  let ?R = "inherits (read_profile_parents P) \<inter> set (profile_names P) \<times> UNIV"
  let ?X = "insert root (descendants (read_profile_parents P) (set (profile_names P)) root)"
  have "set (children P p) \<subseteq> ?X" if "p \<in> ?X" for p
  proof
    fix x assume "x \<in> set (children P p)"
    then have "(x, p) \<in> ?R" by (simp add: child_rel)
    with that show "x \<in> ?X" by (auto simp: descendants_def intro: trancl_into_trancl2)
  qed
  then show "set (cascade_set P root) \<subseteq> ?X"
    unfolding cascade_set_def by (intro collect_sound) auto
  have "\<forall>p \<in> set [root]. set (children P p) \<subseteq> set [root] \<union> set (rev (children P root))" by auto
  from collect_complete [OF this]
  have root: "root \<in> set (cascade_set P root)"
    and closed: "x \<in> set (children P p) \<Longrightarrow> p \<in> set (cascade_set P root) \<Longrightarrow> x \<in> set (cascade_set P root)" for x p
    unfolding cascade_set_def by auto
  have "x \<in> set (cascade_set P root)" if "(x, root) \<in> ?R\<^sup>+" for x
    using that
  proof (induction rule: converse_trancl_induct)
    case (base y)
    with root closed show ?case by (simp add: child_rel)
  next
    case (step y z)
    with closed [of y z] show ?case by (simp add: child_rel)
  qed
  with root show "?X \<subseteq> set (cascade_set P root)" by (auto simp: descendants_def)
qed

lemma emit_step:
  "remaining \<noteq> [] \<Longrightarrow> ready_nodes remaining \<noteq> [] \<Longrightarrow>
   emit remaining ordered = emit (without (ready_nodes remaining) remaining) (ordered @ ready_nodes remaining)"
  by (subst emit.simps) (simp add: Let_def)

lemma ready_facts:
  assumes "distinct (map fst remaining)"
  shows "distinct (ready_nodes remaining)" and "set (ready_nodes remaining) \<subseteq> fst ` set remaining"
  using assms by (auto simp: ready_nodes_def distinct_map_filter)

lemma emit_set:
  assumes "distinct (map fst remaining)" and "distinct ordered" and "set ordered \<inter> fst ` set remaining = {}"
  shows "set (emit remaining ordered) = set ordered \<union> fst ` set remaining \<and> distinct (emit remaining ordered)
    \<and> (\<exists>zs. emit remaining ordered = ordered @ zs)"
  using assms
proof (induction remaining ordered rule: emit.induct)
  case (1 remaining ordered)
  let ?ready = "ready_nodes remaining"
  note ready = ready_facts [OF "1.prems"(1)]
  consider "remaining = []" | "remaining \<noteq> []" "?ready = []" | "remaining \<noteq> []" "?ready \<noteq> []" by blast
  then show ?case
  proof cases
    case 1
    with \<open>distinct ordered\<close> show ?thesis by (simp add: emit.simps)
  next
    case 2
    then have "emit remaining ordered = ordered @ sort (map fst remaining)"
      by (subst emit.simps) simp
    with "1.prems" show ?thesis by auto
  next
    case 3
    have "distinct (map fst (without ?ready remaining))" unfolding fst_without using "1.prems"(1) by simp
    moreover have "distinct (ordered @ ?ready)" using "1.prems"(2,3) ready by auto
    moreover have "set (ordered @ ?ready) \<inter> fst ` set (without ?ready remaining) = {}"
      using "1.prems"(3) by (auto simp: fst_set_without)
    ultimately have "set (emit (without ?ready remaining) (ordered @ ?ready))
          = set (ordered @ ?ready) \<union> fst ` set (without ?ready remaining)
        \<and> distinct (emit (without ?ready remaining) (ordered @ ?ready))
        \<and> (\<exists>zs. emit (without ?ready remaining) (ordered @ ?ready) = (ordered @ ?ready) @ zs)"
      using "1.IH" [OF 3(1) refl 3(2)] by blast
    with ready(2) show ?thesis unfolding emit_step [OF 3] fst_set_without by auto
  qed
qed

lemma topological_append:
  assumes "topological par xs" and "distinct ys" and "set xs \<inter> set ys = {}" and "\<forall>y \<in> set ys. set (par y) \<subseteq> set xs"
  shows "topological par (xs @ ys)"
  using assms(2-4)
proof (induction ys rule: rev_induct)
  case Nil
  with assms(1) show ?case by simp
next
  case (snoc y ys)
  then show ?case using topological_snoc [of par "xs @ ys" y] by auto
qed

lemma some_parentless:
  assumes "finite N" and "N \<noteq> {}" and "\<forall>n \<in> N. (n, n) \<notin> (inherits par)\<^sup>+"
  shows "\<exists>z \<in> N. set (par z) \<inter> N = {}"
proof -
  let ?r = "inherits par \<inter> N \<times> N"
  have "(x, x) \<notin> ?r\<^sup>+" for x
  proof
    assume loop: "(x, x) \<in> ?r\<^sup>+"
    then obtain y where "(x, y) \<in> ?r" by (meson tranclD)
    then have "x \<in> N" by auto
    moreover from loop have "(x, x) \<in> (inherits par)\<^sup>+" by (rule trancl_mono) auto
    ultimately show False using assms(3) by blast
  qed
  moreover have "finite ?r" using assms(1) by simp
  ultimately have wf: "wf (?r\<inverse>)" by (intro finite_acyclic_wf_converse) (auto simp: acyclic_def)
  obtain n where "n \<in> N" using assms(2) by blast
  from wfE_min [OF wf this] obtain z where z: "z \<in> N" "\<And>y. (y, z) \<in> ?r\<inverse> \<Longrightarrow> y \<notin> N" by metis
  have "p \<notin> N" if "p \<in> set (par z)" for p
    using z(2) [of p] z(1) that by (auto simp: inherits_def)
  with z(1) show ?thesis by blast
qed

lemma none_pending: "A = B - C \<Longrightarrow> B \<subseteq> C \<union> N \<Longrightarrow> B \<inter> N = {} \<Longrightarrow> A = {}"
  by blast

lemma ready_topological:
  assumes "distinct (map fst remaining)" "topological par ordered" "set ordered \<inter> fst ` set remaining = {}"
    and "\<forall>(n, ps) \<in> set remaining. set ps = set (par n) - set ordered \<and> set (par n) \<subseteq> set ordered \<union> fst ` set remaining"
  shows "topological par (ordered @ ready_nodes remaining)"
proof (rule topological_append [OF assms(2) ready_facts(1) [OF assms(1)]])
  show "set ordered \<inter> set (ready_nodes remaining) = {}" using assms(3) ready_facts(2) [OF assms(1)] by blast
  show "\<forall>y \<in> set (ready_nodes remaining). set (par y) \<subseteq> set ordered"
  proof
    fix y assume "y \<in> set (ready_nodes remaining)"
    then have "(y, []) \<in> set remaining" by (simp add: ready_iff)
    from bspec [OF assms(4) this] have "set [] = set (par y) - set ordered" by simp
    then show "set (par y) \<subseteq> set ordered" by auto
  qed
qed

lemma pending_without_ready:
  assumes "\<forall>(n, ps) \<in> set remaining. set ps = set (par n) - set ordered \<and> set (par n) \<subseteq> set ordered \<union> fst ` set remaining"
  shows "\<forall>(n, ps) \<in> set (without ready remaining). set ps = set (par n) - set (ordered @ ready)
    \<and> set (par n) \<subseteq> set (ordered @ ready) \<union> fst ` set (without ready remaining)"
proof (intro ballI, clarify)
  fix n ps assume "(n, ps) \<in> set (without ready remaining)"
  then obtain qs where qs: "(n, qs) \<in> set remaining" "ps = filter (\<lambda>p. p \<notin> set ready) qs"
    by (auto simp: without_iff)
  from bspec [OF assms this(1)]
  have "set qs = set (par n) - set ordered" "set (par n) \<subseteq> set ordered \<union> fst ` set remaining" by simp_all
  with qs(2) show "set ps = set (par n) - set (ordered @ ready)
      \<and> set (par n) \<subseteq> set (ordered @ ready) \<union> fst ` set (without ready remaining)"
    unfolding fst_set_without by auto
qed

lemma emit_topological:
  assumes "distinct (map fst remaining)" and "topological par ordered"
    and "set ordered \<inter> fst ` set remaining = {}"
    and "\<forall>(n, ps) \<in> set remaining. set ps = set (par n) - set ordered
           \<and> set (par n) \<subseteq> set ordered \<union> fst ` set remaining"
    and "\<forall>n \<in> fst ` set remaining. (n, n) \<notin> (inherits par)\<^sup>+"
  shows "topological par (emit remaining ordered)"
  using assms
proof (induction remaining ordered rule: emit.induct)
  case (1 remaining ordered)
  show ?case
  proof (cases "remaining = []")
    case True
    with "1.prems"(2) show ?thesis by (simp add: emit.simps)
  next
    case False
    let ?N = "fst ` set remaining" and ?ready = "ready_nodes remaining"
    have "finite ?N" "?N \<noteq> {}" using False by auto
    from some_parentless [OF this "1.prems"(5)] obtain z where "z \<in> ?N" and none: "set (par z) \<inter> ?N = {}" ..
    from \<open>z \<in> ?N\<close> obtain ps where z: "(z, ps) \<in> set remaining" by (auto simp only: image_iff fst_conv)
    from bspec [OF "1.prems"(4) z] have ps: "set ps = set (par z) - set ordered" "set (par z) \<subseteq> set ordered \<union> ?N"
      by simp_all
    from ps none have "set ps = {}" by (rule none_pending)
    then have "ps = []" by simp
    with z have "z \<in> set ?ready" by (simp add: ready_iff)
    then have ne: "?ready \<noteq> []" by auto
    have topo: "topological par (ordered @ ?ready)"
      using "1.prems"(1-4) by (rule ready_topological)
    have "topological par (emit (without ?ready remaining) (ordered @ ?ready))"
    proof (rule "1.IH" [OF False refl ne _ topo])
      show "distinct (map fst (without ?ready remaining))" unfolding fst_without using "1.prems"(1) by simp
      show "set (ordered @ ?ready) \<inter> fst ` set (without ?ready remaining) = {}"
        using "1.prems"(3) by (auto simp: fst_set_without)
      show "\<forall>(n, ps) \<in> set (without ?ready remaining). set ps = set (par n) - set (ordered @ ?ready)
           \<and> set (par n) \<subseteq> set (ordered @ ?ready) \<union> fst ` set (without ?ready remaining)"
        by (rule pending_without_ready [OF "1.prems"(4)])
      show "\<forall>n \<in> fst ` set (without ?ready remaining). (n, n) \<notin> (inherits par)\<^sup>+"
        unfolding fst_set_without using "1.prems"(5) by blast
    qed
    then show ?thesis unfolding emit_step [OF False ne] .
  qed
qed

definition in_set_parents :: "profiles \<Rightarrow> string \<Rightarrow> string \<Rightarrow> string list" where
  \<comment> \<open>the parents of a profile that are themselves rebuilt\<close>
  "in_set_parents P root node =
     remdups (filter (\<lambda>p. p \<in> set (cascade_set P root)) (read_profile_parents P node))"

lemma cascade_eq:
  "compute_build_cascade (Some P) root = emit (map (\<lambda>node. (node, in_set_parents P root node)) (cascade_set P root)) []"
  by (simp add: compute_build_cascade_def in_set_parents_def Let_def)

lemma cascade_set_distinct: "distinct (cascade_set P root)"
  unfolding cascade_set_def by (rule collect_distinct) simp

lemma cascade_members:
  "distinct (compute_build_cascade (Some P) root) \<and>
   set (compute_build_cascade (Some P) root)
     = insert root (descendants (read_profile_parents P) (set (profile_names P)) root)"
proof -
  let ?rem = "map (\<lambda>node. (node, in_set_parents P root node)) (cascade_set P root)"
  have "distinct (map fst ?rem)" using cascade_set_distinct by (simp add: comp_def)
  from emit_set [OF this, of "[]"] show ?thesis
    by (simp add: cascade_eq image_image cascade_set_eq)
qed

lemma inherits_in_set: "(x, y) \<in> (inherits (in_set_parents P root))\<^sup>+ \<Longrightarrow> (x, y) \<in> (inherits (read_profile_parents P))\<^sup>+"
  by (erule trancl_mono) (auto simp: inherits_def in_set_parents_def)

lemma distinct_single: "distinct xs \<Longrightarrow> set xs = {a} \<Longrightarrow> xs = [a]"
  by (cases xs rule: list.exhaust; cases "tl xs") auto

lemma only_root_is_ready:
  assumes "(root, root) \<notin> (inherits (read_profile_parents P))\<^sup>+"
  shows "ready_nodes (map (\<lambda>node. (node, in_set_parents P root node)) (cascade_set P root)) = [root]"
proof -
  let ?S = "cascade_set P root"
  let ?rem = "map (\<lambda>node. (node, in_set_parents P root node)) ?S"
  let ?R = "inherits (read_profile_parents P)" and ?RN = "inherits (read_profile_parents P) \<inter> set (profile_names P) \<times> UNIV"
  have mem: "x \<in> set ?S \<longleftrightarrow> x = root \<or> (x, root) \<in> ?RN\<^sup>+" for x
    using cascade_set_eq [of P root] by (auto simp: descendants_def)
  have sub: "(x, y) \<in> ?RN\<^sup>+ \<Longrightarrow> (x, y) \<in> ?R\<^sup>+" for x y by (erule trancl_mono) auto
  have root_free: "in_set_parents P root root = []"
  proof -
    have "p \<notin> set ?S" if "p \<in> set (read_profile_parents P root)" for p
    proof
      assume "p \<in> set ?S"
      then have "p = root \<or> (p, root) \<in> ?R\<^sup>+" using mem sub by blast
      moreover have "(root, p) \<in> ?R" using that by (simp add: inherits_def)
      ultimately show False using assms by (metis r_into_trancl' trancl_into_trancl2)
    qed
    then have "filter (\<lambda>p. p \<in> set ?S) (read_profile_parents P root) = []" by (simp add: filter_empty_conv)
    then show ?thesis by (simp add: in_set_parents_def)
  qed
  have others: "in_set_parents P root x \<noteq> []" if "x \<in> set ?S" "x \<noteq> root" for x
  proof -
    from that mem have "(x, root) \<in> ?RN\<^sup>+" by blast
    then obtain p where "(x, p) \<in> ?RN" "p = root \<or> (p, root) \<in> ?RN\<^sup>+"
      by (metis rtranclD tranclD)
    then have "p \<in> set (in_set_parents P root x)" by (auto simp: in_set_parents_def inherits_def mem)
    then show ?thesis by auto
  qed
  have only: "set (ready_nodes ?rem) = {root}"
  proof -
    have "x \<in> set (ready_nodes ?rem) \<longleftrightarrow> x = root" for x
      using others [of x] root_free mem [of root]
      by (auto simp: ready_iff image_iff eq_commute [of "[]"])
    then show ?thesis by auto
  qed
  have dist: "distinct (map fst ?rem)" using cascade_set_distinct by (simp add: comp_def)
  show ?thesis by (rule distinct_single [OF ready_facts(1) [OF dist] only])
qed

lemma cascade_root_first:
  assumes "(root, root) \<notin> (inherits (read_profile_parents P))\<^sup>+"
  shows "hd (compute_build_cascade (Some P) root) = root"
proof -
  let ?rem = "map (\<lambda>node. (node, in_set_parents P root node)) (cascade_set P root)"
  have dist: "distinct (map fst ?rem)" using cascade_set_distinct by (simp add: comp_def)
  have "root \<in> set (cascade_set P root)" using cascade_set_eq [of P root] by simp
  then have "?rem \<noteq> []" by auto
  with only_root_is_ready [OF assms] have step: "emit ?rem [] = emit (without [root] ?rem) [root]"
    by (subst emit_step) simp_all
  have "\<exists>zs. emit (without [root] ?rem) [root] = [root] @ zs"
    using emit_set [of "without [root] ?rem" "[root]"] dist
    by (auto simp: fst_without fst_set_without)
  then show ?thesis unfolding cascade_eq step by auto
qed

text \<open>C2: A cascade lists the profile and everything that inherits from it, each exactly once. When
  the profile and its descendants are free of cycles it is an order in which they can be built:
  the profile first, and every other after all the parents it is rebuilt with.\<close>
theorem build_cascade_correct:
  assumes "\<forall>x \<in> insert root (descendants (read_profile_parents P) (set (profile_names P)) root).
      (x, x) \<notin> (inherits (read_profile_parents P))\<^sup>+"
  shows "set (compute_build_cascade (Some P) root)
       = insert root (descendants (read_profile_parents P) (set (profile_names P)) root)
    \<and> distinct (compute_build_cascade (Some P) root)
    \<and> hd (compute_build_cascade (Some P) root) = root
    \<and> topological (in_set_parents P root) (compute_build_cascade (Some P) root)"
proof -
  let ?rem = "map (\<lambda>node. (node, in_set_parents P root node)) (cascade_set P root)"
  have "distinct (map fst ?rem)" using cascade_set_distinct by (simp add: comp_def)
  moreover have "\<forall>n \<in> fst ` set ?rem. (n, n) \<notin> (inherits (in_set_parents P root))\<^sup>+"
    using assms inherits_in_set by (auto simp: image_image cascade_set_eq)
  ultimately have "topological (in_set_parents P root) (compute_build_cascade (Some P) root)"
    unfolding cascade_eq by (intro emit_topological) (auto simp: in_set_parents_def image_image)
  then show ?thesis using cascade_members cascade_root_first assms by auto
qed

lemma build_cascade_correct_witness:
  "hd (compute_build_cascade (Some profiles_example) ''desktop'') = ''desktop''
   \<and> set (compute_build_cascade (Some profiles_example) ''desktop'') = {''desktop'', ''amd'', ''lab'', ''kiosk''}"
proof -
  have res: "resolve_chain profiles_example ''kiosk'' = Inr [''base'', ''desktop'', ''amd'', ''lab'', ''kiosk'']"
    and cascade: "compute_build_cascade (Some profiles_example) ''desktop'' = [''desktop'', ''amd'', ''lab'', ''kiosk'']"
    by code_simp+
  have "(x, x) \<notin> (inherits (read_profile_parents profiles_example))\<^sup>+"
    if "x \<in> insert ''desktop'' (descendants (read_profile_parents profiles_example) (set (profile_names profiles_example)) ''desktop'')" for x
  proof -
    have "x \<in> set [''desktop'', ''amd'', ''lab'', ''kiosk'']"
      using that cascade_members [of profiles_example "''desktop''"] cascade by simp
    then have "x \<in> set [''base'', ''desktop'', ''amd'', ''lab'', ''kiosk'']" by auto
    from topological_acyclic [OF resolve_chain_sound(1) [OF res] this] show ?thesis
      by (simp add: parents_agree [abs_def])
  qed
  from build_cascade_correct [OF ballI, OF this] cascade show ?thesis by auto
qed

text \<open>C10: The cascade and the resolver agree on inheritance: for a profile that resolves, rebuilding
  some other profile rebuilds it exactly when its resolved chain contains that profile. So no image
  stays stale, and none is rebuilt for nothing.\<close>
theorem cascade_iff_in_chain:
  assumes "resolve_chain P x = Inr chain"
  shows "x \<in> set (compute_build_cascade (Some P) root) \<longleftrightarrow> root \<in> set chain"
proof (cases "root = x")
  case True
  then show ?thesis
    using cascade_members [of P root] resolve_chain_sound(3) [OF assms] resolver.self_ancestor by simp
next
  case False
  have "legal (read_parents P) (set (profile_names P)) x"
    using assms by (rule resolve_chain_legal)
  from resolver.legal_descends [OF this False] show ?thesis
    using cascade_members [of P root] resolve_chain_sound(3) [OF assms] False
    by (simp add: parents_agree [abs_def])
qed

lemma cascade_iff_in_chain_witness:
  "''kiosk'' \<in> set (compute_build_cascade (Some profiles_example) ''lab'')"
proof -
  have "resolve_chain profiles_example ''kiosk'' = Inr [''base'', ''desktop'', ''amd'', ''lab'', ''kiosk'']"
    by code_simp
  from cascade_iff_in_chain [OF this, of "''lab''"] show ?thesis by simp
qed

text \<open>When a \<open>base\<close> profile exists, rebuilding it rebuilds every profile.\<close>
theorem base_rebuilds_the_fleet:
  assumes "BASE_PROFILE \<in> set (profile_names P)"
  shows "set (profile_names P) = set (compute_build_cascade (Some P) BASE_PROFILE)"
proof -
  have "descendants (read_profile_parents P) (set (profile_names P)) BASE_PROFILE \<subseteq> set (profile_names P)"
    by (auto simp: descendants_def dest: tranclD)
  then show ?thesis
    using builder.base_reaches_all [OF assms] assms cascade_members [of P BASE_PROFILE] by auto
qed

lemma base_rebuilds_the_fleet_witness:
  "''kiosk'' \<in> set (compute_build_cascade (Some profiles_example) BASE_PROFILE)"
proof -
  have "BASE_PROFILE \<in> set (profile_names profiles_example)" and "''kiosk'' \<in> set (profile_names profiles_example)"
    by code_simp+
  with base_rebuilds_the_fleet [of profiles_example] show ?thesis by simp
qed

end
