(* ===== verification/Build_Jobs.thy ===== *)
theory Build_Jobs
  imports Build_Cascade Fleet_DB
begin

text \<open>
  \<open>BuildJobManager\<close> of \<open>src/fleetboot/server/build_jobs.py\<close>: one image build at a time, alone or as the
  root of a cascade. What \<open>make\<close> does in a build is a \<open>make_run\<close>, an argument of the definitions,
  and so are the new job ids (\<open>secrets.token_hex\<close>) and the registry \<open>on_success\<close> works on.
  The worker thread and the callers of the manager interleave; \<open>mgr_step\<close> is the relation of
  their steps.
\<close>

section \<open>Jobs\<close>

datatype JobState = QUEUED | RUNNING | SUCCEEDED | FAILED | REJECTED | SKIPPED

record BuildJob =
  job_id :: string
  job_profile :: string
  job_architecture :: string
  job_state :: JobState
  started_at :: timestamp
  finished_at :: "timestamp option"
  exit_code :: "int option"
  auto_reboot :: bool
  auto_reboot_armed :: "nat option"
  cascade_root :: "string option"
  recent_lines :: "string list"

definition RECENT_LINES :: nat where
  "RECENT_LINES = 2000"

definition append_line :: "string \<Rightarrow> BuildJob \<Rightarrow> BuildJob" where
  \<comment> \<open>\<open>deque(maxlen=2000).append\<close>\<close>
  "append_line l job = job\<lparr>recent_lines :=
     (let ls = recent_lines job @ [l] in drop (length ls - RECENT_LINES) ls)\<rparr>"

definition new_job :: "string \<Rightarrow> string \<Rightarrow> string \<Rightarrow> bool \<Rightarrow> string option \<Rightarrow> BuildJob" where
  "new_job i profile arch reboot first =
     \<lparr>job_id = i, job_profile = profile, job_architecture = arch, job_state = QUEUED, started_at = 0,
      finished_at = None, exit_code = None, auto_reboot = reboot, auto_reboot_armed = None,
      cascade_root = first, recent_lines = []\<rparr>"

section \<open>One build\<close>

definition make_command :: "string \<Rightarrow> profiles \<Rightarrow> BuildJob \<Rightarrow> string list" where
  \<comment> \<open>the command line of the subprocess, with the suite a profile may pin\<close>
  "make_command make_path P job =
     [make_path, ''image'', ''PROFILE='' @ job_profile job, ''ARCH='' @ job_architecture job]
     @ (case Option.bind (map_of P (job_profile job)) suite_file of
          None \<Rightarrow> []
        | Some text \<Rightarrow>
            (let suite = splitlines (strip text) in
             if suite \<noteq> [] \<and> strip (hd suite) \<noteq> [] then [''SUITE='' @ strip (hd suite)] else []))"

datatype make_run =
    Exited "string list" int        \<comment> \<open>the lines it printed and its return code\<close>
  | Crashed "string list" string    \<comment> \<open>lines read before an exception, and its \<open>repr\<close>\<close>

type_synonym 'r success_callback = "BuildJob \<Rightarrow> 'r \<Rightarrow> (string + BuildJob) \<times> 'r"

definition begin_execute :: "timestamp \<Rightarrow> BuildJob \<Rightarrow> BuildJob" where
  "begin_execute now job = job\<lparr>job_state := RUNNING, started_at := now\<rparr>"

definition finish_execute ::
  "'r success_callback option \<Rightarrow> timestamp \<Rightarrow> make_run \<Rightarrow> BuildJob \<Rightarrow> 'r \<Rightarrow> BuildJob \<times> 'r" where
  "finish_execute on_success now run job r =
     (let (job, outcome) = (case run of
            Exited ls rc \<Rightarrow> ((fold append_line ls job)\<lparr>exit_code := Some rc\<rparr>,
                             if rc = 0 then SUCCEEDED else FAILED)
          | Crashed ls exc \<Rightarrow> ((append_line (''build job crashed: '' @ exc) (fold append_line ls job))
                                 \<lparr>exit_code := Some (- 1)\<rparr>, FAILED));
          (job, r) = (case on_success of
              Some callback \<Rightarrow>
                (if outcome = SUCCEEDED then
                   (case callback job r of
                      (Inl exc, r') \<Rightarrow> (append_line (''on_success callback failed: '' @ exc) job, r')
                    | (Inr job', r') \<Rightarrow> (job', r'))
                 else (job, r))
            | None \<Rightarrow> (job, r))
      in (job\<lparr>finished_at := Some now, job_state := outcome\<rparr>, r))"

definition execute ::
  "'r success_callback option \<Rightarrow> timestamp \<Rightarrow> make_run \<Rightarrow> BuildJob \<Rightarrow> 'r \<Rightarrow> BuildJob \<times> 'r" where
  "execute on_success now run job r = finish_execute on_success now run (begin_execute now job) r"

definition skip_job :: "timestamp \<Rightarrow> string \<Rightarrow> BuildJob \<Rightarrow> BuildJob" where
  "skip_job now first job = append_line
     (''skipped: cascade root build '' @ [CHR 0x27] @ first @ [CHR 0x27] @ '' did not succeed'')
     (job\<lparr>job_state := SKIPPED, finished_at := Some now\<rparr>)"

section \<open>A cascade\<close>

fun run_descendants ::
  "'r success_callback option \<Rightarrow> timestamp \<Rightarrow> (BuildJob \<Rightarrow> make_run) \<Rightarrow> bool \<Rightarrow> string \<Rightarrow> BuildJob list \<Rightarrow> 'r
   \<Rightarrow> BuildJob list \<times> 'r" where
  "run_descendants on_success now run root_ok first [] r = ([], r)"
| "run_descendants on_success now run root_ok first (job # jobs) r =
     (let (job', r') = (if root_ok then execute on_success now (run job) job r else (skip_job now first job, r));
          (jobs', r'') = run_descendants on_success now run root_ok first jobs r'
      in (job' # jobs', r''))"

definition run_cascade ::
  "'r success_callback option \<Rightarrow> timestamp \<Rightarrow> (BuildJob \<Rightarrow> make_run) \<Rightarrow> BuildJob list \<Rightarrow> 'r \<Rightarrow> BuildJob list \<times> 'r" where
  "run_cascade on_success now run jobs r = (case jobs of
     [] \<Rightarrow> ([], r)
   | first # rest \<Rightarrow>
       (let (first', r') = execute on_success now (run first) first r;
            (rest', r'') = run_descendants on_success now run (job_state first' = SUCCEEDED) (job_profile first') rest r'
        in (first' # rest', r'')))"

definition succeeds :: "make_run \<Rightarrow> bool" where
  "succeeds run = (case run of Exited ls rc \<Rightarrow> rc = 0 | Crashed ls exc \<Rightarrow> False)"

lemma fold_append_state [simp]: "job_state (fold append_line ls job) = job_state job"
  by (induction ls arbitrary: job) (simp_all add: append_line_def)

lemma execute_state [simp]:
  "job_state (fst (execute on_success now run job r)) = (if succeeds run then SUCCEEDED else FAILED)"
  by (simp add: execute_def finish_execute_def succeeds_def split_beta Let_def split: make_run.split)

lemma run_descendants_states:
  "map job_state (fst (run_descendants on_success now run root_ok first jobs r))
   = map (\<lambda>job. if \<not> root_ok then SKIPPED else if succeeds (run job) then SUCCEEDED else FAILED) jobs"
  by (induction jobs arbitrary: r) (auto simp: split_beta Let_def skip_job_def append_line_def)

text \<open>A cascade ends with every job decided. When the root build fails, every descendant is
  skipped and nothing is done for it; when it succeeds, every descendant is built and ends as its
  own build does, whatever happened to the others.\<close>
theorem cascade_outcomes:
  "map job_state (fst (run_cascade on_success now run (first # rest) r))
   = (if succeeds (run first)
      then SUCCEEDED # map (\<lambda>job. if succeeds (run job) then SUCCEEDED else FAILED) rest
      else FAILED # map (\<lambda>job. SKIPPED) rest)
   \<and> (\<not> succeeds (run first) \<longrightarrow>
        snd (run_cascade on_success now run (first # rest) r) = r)"
proof -
  have skip: "snd (run_descendants on_success now run False p jobs s) = s" for p jobs s
    by (induction jobs arbitrary: s) (auto simp: split_beta Let_def)
  have fail: "snd (execute on_success now run' job s) = s" if "\<not> succeeds run'" for run' job s
    using that by (auto simp: execute_def finish_execute_def succeeds_def split_beta Let_def
        split: make_run.split option.split)
  show ?thesis
    by (auto simp: run_cascade_def split_beta Let_def run_descendants_states skip fail)
qed

lemma cascade_outcomes_witness:
  "snd (run_cascade (Some (\<lambda>job n. (Inr job, Suc n))) 5 (\<lambda>job. Exited [] 2)
     [new_job ''1'' ''base'' ''amd64'' False None, new_job ''2'' ''lab'' ''amd64'' False None] 0) = (0 :: nat)"
  using cascade_outcomes [of "Some (\<lambda>job n. (Inr job, Suc n))" 5 "\<lambda>job. Exited [] 2"
      "new_job ''1'' ''base'' ''amd64'' False None" "[new_job ''2'' ''lab'' ''amd64'' False None]" "0 :: nat"]
  by (simp add: succeeds_def)

section \<open>The manager and its worker thread\<close>

text \<open>
  The thread of a submission works through \<open>todo\<close>, the jobs it has not finished, in order;
  \<open>executing\<close> says whether the head of the list is inside \<open>_execute\<close>, and \<open>root_result\<close> is the
  outcome of the first job once it is there. A single build is a \<open>todo\<close> of one job.
\<close>

record worker =
  todo :: "string list"
  executing :: bool
  root_result :: "bool option"
  root_profile :: string

record manager =
  jobs :: "(string \<times> BuildJob) list"
  running_lock :: bool
  worker :: "worker option"

definition empty_manager :: manager where
  "empty_manager = \<lparr>jobs = [], running_lock = False, worker = None\<rparr>"

definition is_running :: "manager \<Rightarrow> bool" where
  "is_running m = running_lock m"

definition list_jobs :: "manager \<Rightarrow> BuildJob list" where
  "list_jobs m = sort_key (\<lambda>j. - started_at j) (map snd (jobs m))"

definition get_job :: "string \<Rightarrow> manager \<Rightarrow> BuildJob option" where
  "get_job i m = map_of (jobs m) i"

definition tail_log :: "string \<Rightarrow> int \<Rightarrow> manager \<Rightarrow> string list" where
  \<comment> \<open>\<open>list(lines)[-n:]\<close>, which is the whole list for \<open>n = 0\<close>\<close>
  "tail_log i n m = (case get_job i m of
     None \<Rightarrow> []
   | Some job \<Rightarrow> (let ls = recent_lines job in
       if 0 < n then drop (length ls - nat n) ls else drop (nat (- n)) ls))"

definition build_already_running :: exn where
  "build_already_running = RuntimeError ''another build is already running''"

definition submit :: "BuildJob list \<Rightarrow> manager \<Rightarrow> manager" where
  "submit new m = m\<lparr>jobs := fold (\<lambda>j. AList.update (job_id j) j) new (jobs m), running_lock := True,
     worker := Some \<lparr>todo = map job_id new, executing = False, root_result = None,
       root_profile = (case new of [] \<Rightarrow> [] | j # js \<Rightarrow> job_profile j)\<rparr>\<rparr>"

definition start :: "string \<Rightarrow> string \<Rightarrow> string \<Rightarrow> bool \<Rightarrow> manager \<Rightarrow> BuildJob result \<times> manager" where
  "start i profile arch reboot m =
     (if running_lock m then (Inl build_already_running, m)
      else let job = new_job i profile arch reboot None in (Inr job, submit [job] m))"

definition cascade_jobs :: "(nat \<Rightarrow> string) \<Rightarrow> string list \<Rightarrow> string \<Rightarrow> bool \<Rightarrow> string option \<Rightarrow> BuildJob list" where
  \<comment> \<open>\<open>ids n\<close> is the id of the n-th job\<close>
  "cascade_jobs ids names arch reboot origin =
     map (\<lambda>(n, name). new_job (ids n) name arch reboot origin) (enumerate 0 names)"

definition start_with_downstream ::
  "(nat \<Rightarrow> string) \<Rightarrow> profiles option \<Rightarrow> string \<Rightarrow> string \<Rightarrow> bool \<Rightarrow> manager \<Rightarrow> BuildJob list result \<times> manager" where
  "start_with_downstream ids dir profile arch reboot m =
     (if running_lock m then (Inl build_already_running, m)
      else
        let cascade = compute_build_cascade dir profile;
            origin = (if 1 < length cascade then Some profile else None);
            new = cascade_jobs ids cascade arch reboot origin
        in (Inr new, submit new m))"

definition set_job :: "string \<Rightarrow> (BuildJob \<Rightarrow> BuildJob) \<Rightarrow> manager \<Rightarrow> manager" where
  "set_job i f m = (case map_of (jobs m) i of None \<Rightarrow> m | Some j \<Rightarrow> m\<lparr>jobs := AList.update i (f j) (jobs m)\<rparr>)"

inductive mgr_step :: "manager \<Rightarrow> manager \<Rightarrow> bool" where
  Start: "i \<notin> fst ` set (jobs m) \<Longrightarrow> start i profile arch reboot m = (res, m') \<Longrightarrow> mgr_step m m'"
| Start_Cascade: "inj ids \<Longrightarrow> range ids \<inter> fst ` set (jobs m) = {} \<Longrightarrow>
    start_with_downstream ids dir profile arch reboot m = (res, m') \<Longrightarrow> mgr_step m m'"
| Begin: "worker m = Some w \<Longrightarrow> \<not> executing w \<Longrightarrow> todo w = i # rest \<Longrightarrow> root_result w \<noteq> Some False \<Longrightarrow>
    mgr_step m (set_job i (begin_execute now) (m\<lparr>worker := Some (w\<lparr>executing := True\<rparr>)\<rparr>))"
| Line: "worker m = Some w \<Longrightarrow> executing w \<Longrightarrow> todo w = i # rest \<Longrightarrow> mgr_step m (set_job i (append_line l) m)"
| Finish: "worker m = Some w \<Longrightarrow> executing w \<Longrightarrow> todo w = i # rest \<Longrightarrow>
    mgr_step m (set_job i (\<lambda>j. fst (finish_execute on_success now run j (r :: db)))
      (m\<lparr>worker := Some (w\<lparr>todo := rest, executing := False,
         root_result := (if root_result w = None then Some (succeeds run) else root_result w)\<rparr>)\<rparr>))"
| Skip: "worker m = Some w \<Longrightarrow> \<not> executing w \<Longrightarrow> todo w = i # rest \<Longrightarrow> root_result w = Some False \<Longrightarrow>
    mgr_step m (set_job i (skip_job now (root_profile w)) (m\<lparr>worker := Some (w\<lparr>todo := rest\<rparr>)\<rparr>))"
| Release: "worker m = Some w \<Longrightarrow> \<not> executing w \<Longrightarrow> todo w = [] \<Longrightarrow>
    mgr_step m (m\<lparr>running_lock := False, worker := None\<rparr>)"

definition state_of :: "manager \<Rightarrow> string \<Rightarrow> JobState option" where
  "state_of m i = map_option job_state (map_of (jobs m) i)"

definition mgr_ok :: "manager \<Rightarrow> bool" where
  "mgr_ok m \<longleftrightarrow>
     (running_lock m \<longleftrightarrow> worker m \<noteq> None) \<and>
     (\<forall>i. state_of m i \<noteq> Some REJECTED) \<and>
     (case worker m of
        None \<Rightarrow> (\<forall>i. state_of m i \<noteq> Some RUNNING \<and> state_of m i \<noteq> Some QUEUED)
      | Some w \<Rightarrow>
          distinct (todo w) \<and> (executing w \<longrightarrow> todo w \<noteq> [] \<and> root_result w \<noteq> Some False) \<and>
          (\<forall>i. state_of m i = Some RUNNING \<longleftrightarrow> executing w \<and> i = hd (todo w)) \<and>
          (\<forall>i. state_of m i = Some QUEUED \<longleftrightarrow> i \<in> set (if executing w then tl (todo w) else todo w)))"

lemma state_of_set_job:
  "state_of (set_job i f m) k = (if k = i then map_option (\<lambda>j. job_state (f j)) (map_of (jobs m) i) else state_of m k)"
  by (auto simp: state_of_def set_job_def AList.update_conv' split: option.split)

lemma set_job_other [simp]:
  "running_lock (set_job i f m) = running_lock m" "worker (set_job i f m) = worker m"
  by (simp_all add: set_job_def split: option.split)

lemma step_states [simp]:
  "job_state (begin_execute now j) = RUNNING" "job_state (append_line l j) = job_state j"
  "job_state (fst (finish_execute on_success now run j r)) = (if succeeds run then SUCCEEDED else FAILED)"
  "job_state (skip_job now p j) = SKIPPED"
  by (simp_all add: begin_execute_def append_line_def finish_execute_def skip_job_def succeeds_def split_beta Let_def
      split: make_run.split)

lemma state_of_worker [simp]: "state_of (m\<lparr>worker := w\<rparr>) i = state_of m i"
    "state_of (m\<lparr>running_lock := b\<rparr>) i = state_of m i"
  by (simp_all add: state_of_def)

lemma known_state: "state_of m i = Some s \<Longrightarrow> \<exists>j. map_of (jobs m) i = Some j \<and> job_state j = s"
  by (auto simp: state_of_def)

lemma map_of_submit:
  "distinct (map job_id new) \<Longrightarrow> map_of (jobs (submit new m)) i
   = (case List.find (\<lambda>j. job_id j = i) new of Some j \<Rightarrow> Some j | None \<Rightarrow> map_of (jobs m) i)"
proof -
  assume "distinct (map job_id new)"
  then have "map_of (fold (\<lambda>j. AList.update (job_id j) j) new js) i
      = (case List.find (\<lambda>j. job_id j = i) new of Some j \<Rightarrow> Some j | None \<Rightarrow> map_of js i)" for js
  proof (induction new arbitrary: js)
    case Nil
    then show ?case by simp
  next
    case (Cons j new)
    moreover have "job_id j = i \<Longrightarrow> List.find (\<lambda>j. job_id j = i) new = None"
      using Cons.prems by (auto simp: find_None_iff) (metis imageI)
    ultimately show ?case by (auto simp: AList.update_conv' split: option.split)
  qed
  then show ?thesis by (simp add: submit_def)
qed

lemma submit_ok:
  assumes "mgr_ok m" and "\<not> running_lock m" and "distinct (map job_id new)"
    and "\<forall>j \<in> set new. job_state j = QUEUED \<and> job_id j \<notin> fst ` set (jobs m)"
  shows "mgr_ok (submit new m)"
proof -
  from assms(1,2) have idle: "worker m = None" "state_of m i \<notin> {Some RUNNING, Some QUEUED, Some REJECTED}" for i
    by (auto simp: mgr_ok_def split: option.splits)
  have "state_of (submit new m) i = (if i \<in> set (map job_id new) then Some QUEUED else state_of m i)" for i
    using assms(4) by (auto simp: state_of_def map_of_submit [OF assms(3)] find_None_iff
        dest!: find_SomeD split: option.split)
  with idle(2) assms(3) show ?thesis
    by (auto simp: mgr_ok_def) (auto simp: submit_def)
qed

lemma start_ok: "mgr_ok m \<Longrightarrow> i \<notin> fst ` set (jobs m) \<Longrightarrow> mgr_ok (snd (start i profile arch reboot m))"
  by (simp add: start_def Let_def submit_ok new_job_def)

lemma cascade_ids_distinct:
  assumes "inj ids"
  shows "distinct (map job_id (cascade_jobs ids names arch reboot origin))"
proof -
  have "map job_id (cascade_jobs ids names arch reboot origin) = map ids (map fst (enumerate 0 names))"
    unfolding cascade_jobs_def map_map by (intro map_cong) (auto simp: new_job_def)
  also have "\<dots> = map ids [0..<length names]" by simp
  finally show ?thesis
    using inj_on_subset [OF assms subset_UNIV] by (simp only: distinct_map distinct_upt)
qed

lemma fresh_new_jobs:
  assumes "range ids \<inter> fst ` set js = {}"
    and "j \<in> set (cascade_jobs ids names arch reboot origin)"
  shows "job_id j \<notin> fst ` set js" and "job_state j = QUEUED"
proof -
  from assms(2) obtain n where "job_id j = ids n" "job_state j = QUEUED" by (auto simp: new_job_def cascade_jobs_def)
  with assms(1) show "job_id j \<notin> fst ` set js" "job_state j = QUEUED" by (metis disjoint_iff rangeI)+
qed

lemma start_cascade_ok:
  assumes "mgr_ok m" and "inj ids" and "range ids \<inter> fst ` set (jobs m) = {}"
  shows "mgr_ok (snd (start_with_downstream ids dir profile arch reboot m))"
proof -
  let ?new = "\<lambda>origin. cascade_jobs ids (compute_build_cascade dir profile) arch reboot origin"
  have "distinct (map job_id (?new origin))" for origin
    using assms(2) by (rule cascade_ids_distinct)
  moreover have "\<forall>j \<in> set (?new origin). job_state j = QUEUED \<and> job_id j \<notin> fst ` set (jobs m)" for origin
    using fresh_new_jobs [OF assms(3)] by blast
  ultimately show ?thesis
    using assms(1) by (auto simp: start_with_downstream_def Let_def intro!: submit_ok)
qed

lemma step_ok:
  assumes "mgr_step m m'" and "mgr_ok m"
  shows "mgr_ok m'"
  using assms
proof (induction rule: mgr_step.induct)
  case (Start i m profile arch reboot res m')
  then show ?case using start_ok [of m i profile arch reboot] by simp
next
  case (Start_Cascade ids m dir profile arch reboot res m')
  then show ?case using start_cascade_ok [of m ids dir profile arch reboot] by simp
next
  case (Begin m w i rest now)
  then have "state_of m i = Some QUEUED" by (simp add: mgr_ok_def)
  then obtain j where "map_of (jobs m) i = Some j" using known_state by blast
  with Begin show ?case by (auto simp: mgr_ok_def state_of_set_job)
next
  case (Line m w i rest l)
  then have "state_of m i = Some RUNNING" by (simp add: mgr_ok_def)
  then obtain j where j: "map_of (jobs m) i = Some j" "job_state j = RUNNING" using known_state by blast
  then have "state_of (set_job i (append_line l) m) k = state_of m k" for k
    by (simp add: state_of_set_job) (simp add: state_of_def)
  with Line show ?case by (simp add: mgr_ok_def)
next
  case (Finish m w i rest on_success now run r)
  then have "state_of m i = Some RUNNING" by (simp add: mgr_ok_def)
  then obtain j where j: "map_of (jobs m) i = Some j" using known_state by blast
  from Finish have "i \<notin> set rest" by (simp add: mgr_ok_def)
  with Finish j show ?case
    by (auto simp: mgr_ok_def state_of_set_job)
next
  case (Skip m w i rest now)
  then have "state_of m i = Some QUEUED" by (simp add: mgr_ok_def)
  then obtain j where j: "map_of (jobs m) i = Some j" using known_state by blast
  from Skip have "i \<notin> set rest" by (simp add: mgr_ok_def)
  with Skip j show ?case by (auto simp: mgr_ok_def state_of_set_job)
next
  case (Release m w)
  then show ?case by (auto simp: mgr_ok_def)
qed

lemma head_active:
  "mgr_ok m \<Longrightarrow> worker m = Some w \<Longrightarrow> todo w = i # rest \<Longrightarrow> state_of m i \<in> {Some QUEUED, Some RUNNING}"
  by (auto simp: mgr_ok_def split: if_splits)

lemma reachable_ok: "mgr_step\<^sup>*\<^sup>* empty_manager m \<Longrightarrow> mgr_ok m"
proof (induction rule: rtranclp_induct)
  case base
  show ?case by (simp add: mgr_ok_def empty_manager_def state_of_def)
next
  case (step m m')
  then show ?case using step_ok by blast
qed

text \<open>C14: In every state the manager can reach, at most one job is running, and the build lock is held
  whenever any job is queued or running, so a new submission is then refused and changes nothing.
  No job is ever in the state \<open>REJECTED\<close>.\<close>
theorem one_build_at_a_time:
  assumes "mgr_step\<^sup>*\<^sup>* empty_manager m"
  shows "(\<forall>i k. state_of m i = Some RUNNING \<and> state_of m k = Some RUNNING \<longrightarrow> i = k)
    \<and> (\<forall>i. state_of m i \<in> {Some RUNNING, Some QUEUED} \<longrightarrow>
          start n profile arch reboot m = (Inl build_already_running, m)
          \<and> start_with_downstream ids dir profile arch reboot m = (Inl build_already_running, m))
    \<and> (\<forall>i. state_of m i \<noteq> Some REJECTED)"
proof -
  have ok: "mgr_ok m" using assms by (rule reachable_ok)
  then have "running_lock m" if "state_of m i \<in> {Some RUNNING, Some QUEUED}" for i
    using that by (auto simp: mgr_ok_def split: option.splits)
  with ok show ?thesis
    by (auto simp: mgr_ok_def start_def start_with_downstream_def split: option.splits)
qed

lemma one_build_at_a_time_witness:
  "\<exists>m. state_of m ''1'' = Some QUEUED \<and> start ''2'' ''lab'' ''amd64'' False m = (Inl build_already_running, m)"
proof -
  let ?m = "snd (start ''1'' ''base'' ''amd64'' False empty_manager)"
  have "mgr_step empty_manager ?m"
    by (rule mgr_step.Start [of "''1''" _ "''base''" "''amd64''" False "fst (start ''1'' ''base'' ''amd64'' False empty_manager)"])
      (simp_all add: empty_manager_def)
  then have reach: "mgr_step\<^sup>*\<^sup>* empty_manager ?m" ..
  have "state_of ?m ''1'' = Some QUEUED"
    by (simp add: start_def empty_manager_def submit_def state_of_def new_job_def Let_def)
  with one_build_at_a_time [OF reach, of "''2''" "''lab''" "''amd64''" False] show ?thesis by blast
qed

text \<open>A job that has ended never changes again: whatever the worker and the callers do, it stays
  listed in the state it ended in.\<close>
theorem finished_jobs_are_final:
  assumes "mgr_step\<^sup>*\<^sup>* empty_manager m" and "mgr_step\<^sup>*\<^sup>* m m'" and "state_of m i = Some s"
    and "s \<in> {SUCCEEDED, FAILED, SKIPPED}"
  shows "state_of m' i = Some s"
proof -
  have new: "state_of (submit new k) i = state_of k i"
    if "distinct (map job_id new)" "\<forall>j \<in> set new. job_id j \<notin> fst ` set (jobs k)" "state_of k i = Some s" for new k
  proof -
    from that(3) have "i \<in> fst ` set (jobs k)" by (force simp: state_of_def dest: map_of_SomeD)
    with that(2) have "List.find (\<lambda>j. job_id j = i) new = None" by (auto simp: find_None_iff)
    then show ?thesis by (simp add: state_of_def map_of_submit [OF that(1)])
  qed
  have one: "state_of k' i = Some s" if "mgr_step k k'" "mgr_ok k" "state_of k i = Some s" for k k'
    using that
  proof (induction rule: mgr_step.induct)
    case (Start n k profile arch reboot res k')
    then show ?case using new [of "[new_job n profile arch reboot None]" k]
      by (auto simp: start_def Let_def new_job_def split: if_splits)
  next
    case (Start_Cascade ids k dir profile arch reboot res k')
    let ?new = "\<lambda>origin. cascade_jobs ids (compute_build_cascade dir profile) arch reboot origin"
    have "distinct (map job_id (?new origin))" for origin
      using Start_Cascade(1) by (rule cascade_ids_distinct)
    moreover have "\<forall>j \<in> set (?new origin). job_id j \<notin> fst ` set (jobs k)" for origin
      using fresh_new_jobs(1) [OF Start_Cascade(2)] by blast
    ultimately have "state_of (submit (?new origin) k) i = Some s" for origin
      using new Start_Cascade(5) by simp
    with Start_Cascade(3,5) show ?case by (auto simp: start_with_downstream_def Let_def split: if_splits)
  qed (use assms(4) in \<open>auto simp: state_of_set_job dest!: head_active\<close>)
  from assms(2) have "mgr_ok m' \<and> state_of m' i = Some s"
  proof (induction rule: rtranclp_induct)
    case base
    then show ?case using assms(1,3) reachable_ok by blast
  next
    case (step k k')
    then show ?case using one step_ok by blast
  qed
  then show ?thesis by simp
qed

lemma finished_jobs_are_final_witness:
  "\<exists>m. state_of m ''1'' = Some FAILED \<and>
     state_of (snd (start ''2'' ''lab'' ''amd64'' False m)) ''1'' = Some FAILED"
proof -
  let ?a = "snd (start ''1'' ''base'' ''amd64'' False empty_manager)"
  let ?w = "\<lparr>todo = [''1''], executing = False, root_result = None, root_profile = ''base''\<rparr>"
  let ?b = "set_job ''1'' (begin_execute 5) (?a\<lparr>worker := Some (?w\<lparr>executing := True\<rparr>)\<rparr>)"
  let ?c = "set_job ''1'' (\<lambda>j. fst (finish_execute None 6 (Exited [] 2) j empty_db))
    (?b\<lparr>worker := Some (?w\<lparr>todo := [], executing := False, root_result := Some False\<rparr>)\<rparr>)"
  let ?d = "?c\<lparr>running_lock := False, worker := None\<rparr>"
  let ?e = "snd (start ''2'' ''lab'' ''amd64'' False ?d)"
  note eval = start_def empty_manager_def submit_def new_job_def Let_def set_job_def succeeds_def
  have "mgr_step empty_manager ?a"
    by (rule mgr_step.Start [of "''1''" _ "''base''" "''amd64''" False "fst (start ''1'' ''base'' ''amd64'' False empty_manager)"])
      (simp_all add: empty_manager_def)
  moreover have "mgr_step ?a ?b" by (rule mgr_step.Begin) (simp_all add: eval)
  moreover have "mgr_step ?b ?c"
    using mgr_step.Finish [of ?b "?w\<lparr>executing := True\<rparr>" "''1''" "[]" None 6 "Exited [] 2" empty_db] by (simp add: eval)
  moreover have "mgr_step ?c ?d" 
    by (rule mgr_step.Release [of _ "?w\<lparr>todo := [], executing := False, root_result := Some False\<rparr>"]) (simp_all add: eval)
  ultimately have reach: "mgr_step\<^sup>*\<^sup>* empty_manager ?d"
    by (meson rtranclp.rtrancl_into_rtrancl rtranclp.rtrancl_refl)
  have "jobs ?d = [(''1'', fst (finish_execute None 6 (Exited [] 2) (begin_execute 5 (new_job ''1'' ''base'' ''amd64'' False None)) empty_db))]"
    by (simp add: start_def empty_manager_def submit_def Let_def set_job_def new_job_def)
  then have d: "state_of ?d ''1'' = Some FAILED" "''2'' \<notin> fst ` set (jobs ?d)"
    by (simp_all add: state_of_def succeeds_def)
  then have "mgr_step ?d ?e"
    by (intro mgr_step.Start [of "''2''" _ "''lab''" "''amd64''" False "fst (start ''2'' ''lab'' ''amd64'' False ?d)"]) simp_all
  then have "mgr_step\<^sup>*\<^sup>* ?d ?e" ..
  from finished_jobs_are_final [OF reach this d(1)] d(1) show ?thesis by blast
qed

section \<open>Every build ends\<close>

inductive worker_step :: "manager \<Rightarrow> manager \<Rightarrow> bool" where
  \<comment> \<open>the moves of \<open>_run_cascade\<close> itself: no submission, and no line of output\<close>
  Begin: "worker m = Some w \<Longrightarrow> \<not> executing w \<Longrightarrow> todo w = i # rest \<Longrightarrow> root_result w \<noteq> Some False \<Longrightarrow>
    worker_step m (set_job i (begin_execute now) (m\<lparr>worker := Some (w\<lparr>executing := True\<rparr>)\<rparr>))"
| Finish: "worker m = Some w \<Longrightarrow> executing w \<Longrightarrow> todo w = i # rest \<Longrightarrow>
    worker_step m (set_job i (\<lambda>j. fst (finish_execute on_success now run j (r :: db)))
      (m\<lparr>worker := Some (w\<lparr>todo := rest, executing := False,
         root_result := (if root_result w = None then Some (succeeds run) else root_result w)\<rparr>)\<rparr>))"
| Skip: "worker m = Some w \<Longrightarrow> \<not> executing w \<Longrightarrow> todo w = i # rest \<Longrightarrow> root_result w = Some False \<Longrightarrow>
    worker_step m (set_job i (skip_job now (root_profile w)) (m\<lparr>worker := Some (w\<lparr>todo := rest\<rparr>)\<rparr>))"
| Release: "worker m = Some w \<Longrightarrow> \<not> executing w \<Longrightarrow> todo w = [] \<Longrightarrow>
    worker_step m (m\<lparr>running_lock := False, worker := None\<rparr>)"

inductive_cases worker_stepE: "worker_step m m'"

definition work_left :: "manager \<Rightarrow> nat" where
  "work_left m = (case worker m of None \<Rightarrow> 0 | Some w \<Rightarrow> Suc (2 * length (todo w) - (if executing w then 1 else 0)))"

lemma worker_step_is_step: "worker_step m m' \<Longrightarrow> mgr_step m m'"
  by (induction rule: worker_step.induct) (erule (3) mgr_step.Begin mgr_step.Skip | erule (2) mgr_step.Finish mgr_step.Release)+

lemma worker_step_decreases: "worker_step m m' \<Longrightarrow> work_left m' < work_left m"
  by (erule worker_stepE) (simp_all add: work_left_def)

lemma worker_run_bounded: "(worker_step ^^ n) m m' \<Longrightarrow> n + work_left m' \<le> work_left m"
proof (induction n arbitrary: m')
  case (Suc n)
  then obtain k where "(worker_step ^^ n) m k" "worker_step k m'" by auto
  with Suc.IH [of k] worker_step_decreases [of k m'] show ?case by simp
qed simp

lemma worker_enabled:
  assumes "mgr_ok m"
  shows "running_lock m \<longleftrightarrow> (\<exists>m'. worker_step m m')"
proof
  assume "running_lock m"
  then obtain w where w: "worker m = Some w" using assms by (auto simp: mgr_ok_def)
  show "\<exists>m'. worker_step m m'"
  proof (cases "todo w")
    case Nil
    then have "\<not> executing w" using assms w by (auto simp: mgr_ok_def)
    with w Nil show ?thesis by (blast intro: worker_step.Release)
  next
    case (Cons i rest)
    with w show ?thesis by (cases "executing w"; cases "root_result w = Some False") (blast intro: worker_step.intros)+
  qed
next
  assume "\<exists>m'. worker_step m m'"
  then obtain m' where "worker_step m m'" ..
  then have "worker m \<noteq> None" by (rule worker_stepE) simp_all
  with assms show "running_lock m" by (auto simp: mgr_ok_def)
qed

lemma worker_run_ok: "worker_step\<^sup>*\<^sup>* m m' \<Longrightarrow> mgr_ok m \<Longrightarrow> mgr_ok m'"
  by (induction rule: rtranclp_induct) (auto intro: step_ok worker_step_is_step)

lemma worker_comes_to_rest: "\<exists>m'. worker_step\<^sup>*\<^sup>* m m' \<and> (\<nexists>m''. worker_step m' m'')"
proof (induction "work_left m" arbitrary: m rule: less_induct)
  case less
  show ?case
  proof (cases "\<exists>k. worker_step m k")
    case True
    then obtain k where "worker_step m k" ..
    with less [of k] worker_step_decreases show ?thesis by (meson converse_rtranclp_into_rtranclp)
  qed blast
qed



end
