(* ===== verification/Machine_Power.thy ===== *)
theory Machine_Power
  imports Reservations
begin

text \<open>
  Switching machines on and off: \<open>power_machine\<close> and its helpers in
  \<open>src/fleetboot/server/dashboard.py\<close>, and the sweep of
  \<open>src/fleetboot/server/reservation_reaper.py\<close> that powers off the machines whose lease ran out.

  The shell a power command runs in is an argument: \<open>shell c\<close> is what running \<open>c\<close> comes to, an exit
  code or a timeout. The text of the timeout, which only appears in a message, is an argument too; \<open>Power_Timeout\<close>
  computes it from the environment.
\<close>

section \<open>The command for a machine\<close>

datatype run_outcome = Exited_With int | Timed_Out

type_synonym shell = "string \<Rightarrow> run_outcome"

record PowerResult =
  pr_mac :: string
  pr_action :: string
  pr_method :: string
  pr_ok :: bool
  pr_detail :: string
  pr_deleted :: bool

definition POWER_ACTIONS :: "string list" where
  "POWER_ACTIONS = [''on'', ''off'', ''reboot'']"

definition machine_power_command :: "'h machine \<Rightarrow> string \<Rightarrow> string option" where
  \<comment> \<open>the callers pass one of the three actions, so the lookup finds its key\<close>
  "machine_power_command machine action =
     Option.bind (dict_get [(''on'', power_on_command machine), (''off'', power_off_command machine),
       (''reboot'', reboot_command machine)] action) (\<lambda>c. c)"

definition url_safe :: "char \<Rightarrow> bool" where
  "url_safe c \<longleftrightarrow> py_digit c \<or> ascii_lower c \<or> ascii_upper c \<or> c \<in> set ''_.-~''"

definition upper_hex :: "nat \<Rightarrow> char" where
  "upper_hex n = (if n < 10 then char_of (48 + n) else char_of (55 + n))"

definition percent :: "nat \<Rightarrow> string" where
  "percent n = [CHR 0x25, upper_hex (n div 16), upper_hex (n mod 16)]"

definition utf8 :: "char \<Rightarrow> nat list" where
  "utf8 c = (if code c < 128 then [code c] else [192 + code c div 64, 128 + code c mod 64])"

definition url_quote :: "string \<Rightarrow> string" where
  \<comment> \<open>\<open>urllib.parse.quote(s, safe="")\<close>\<close>
  "url_quote s = concat (map (\<lambda>c. if url_safe c then [c] else concat (map percent (utf8 c))) s)"

definition pdudaemon_power_command :: "string \<Rightarrow> string \<Rightarrow> string \<Rightarrow> string" where
  "pdudaemon_power_command pdu_host alias action =
     (let base = (if contains_str ''://'' pdu_host then pdu_host else ''http://'' @ pdu_host)
      in ''curl --fail '' @ [CHR 0x22] @ base @ ''/power/control/'' @ action @ ''?alias='' @ url_quote alias @ [CHR 0x22])"

definition no_pdu_host :: string where
  "no_pdu_host = ''no per-machine power command and no fleet pdudaemon_host setting''"

definition no_pdu_alias :: string where
  "no_pdu_alias = ''no per-machine power command, and no pdudaemon alias (machine has never reported a hostname ''
     @ [CHR 0x97] @ '' set pdu_alias)''"

datatype route = Route "string option" string string   \<comment> \<open>the command, the method and the detail\<close>

definition power_route :: "'h machine \<Rightarrow> string \<Rightarrow> string option \<Rightarrow> route" where
  \<comment> \<open>the first half of \<open>power_machine\<close>; the third argument is the setting \<open>pdudaemon_host\<close>\<close>
  "power_route machine action pdu_host =
     (let command = machine_power_command machine action in
      if truthy command then Route command ''machine_command'' []
      else
        let alias = (if truthy (pdu_alias machine) then pdu_alias machine else hostname machine) in
        if truthy pdu_host \<and> truthy alias
        then Route (Some (pdudaemon_power_command (opt_str pdu_host) (opt_str alias) action)) ''pdudaemon'' []
        else if \<not> truthy pdu_host then Route None ''none'' no_pdu_host
        else Route None ''none'' no_pdu_alias)"

fun run_power_command :: "shell \<Rightarrow> string \<Rightarrow> route \<Rightarrow> bool \<times> string" where
  "run_power_command shell timeout (Route None meth detail) = (False, detail)"
| "run_power_command shell timeout (Route (Some command) meth detail) =
     (case shell command of
        Exited_With rc \<Rightarrow>
          (rc = 0, if rc = 0 then meth @ '' succeeded'' else meth @ '' exited '' @ str_of_int rc)
      | Timed_Out \<Rightarrow> (False, meth @ '' timed out after '' @ timeout @ ''s''))"

section \<open>Switching a machine\<close>

definition armed_detail :: "string \<Rightarrow> string" where
  "armed_detail detail = ''armed the soft-reboot signal; the machine reboots itself on its next heartbeat''
     @ (if detail = [] then [] else '' ('' @ detail @ '')'')"

definition power_machine ::
  "shell \<Rightarrow> string \<Rightarrow> string \<Rightarrow> string \<Rightarrow> bool \<Rightarrow> db \<Rightarrow> PowerResult result \<times> db" where
  "power_machine shell timeout m action then_delete d =
     (if action \<notin> set POWER_ACTIONS then
        (Inl (ValueError (''unknown power action '' @ py_repr action @ ''; expected one of '' @ join '', '' POWER_ACTIONS)), d)
      else case lookup m d of
        None \<Rightarrow> (Inr \<lparr>pr_mac = m, pr_action = action, pr_method = ''none'', pr_ok = False,
                   pr_detail = ''no machine with MAC '' @ m, pr_deleted = False\<rparr>, d)
      | Some machine \<Rightarrow>
          (case power_route machine action (get_setting ''pdudaemon_host'' d) of
             Route command meth detail \<Rightarrow>
               (let (succeeded, detail') = run_power_command shell timeout (Route command meth detail) in
                if then_delete then
                  (Inr \<lparr>pr_mac = m, pr_action = action, pr_method = meth, pr_ok = succeeded,
                     pr_detail = detail', pr_deleted = True\<rparr>, snd (remove m d))
                else if action = ''reboot'' \<and> \<not> succeeded then
                  (Inr \<lparr>pr_mac = m, pr_action = action, pr_method = ''soft_reboot'', pr_ok = True,
                     pr_detail = armed_detail detail', pr_deleted = False\<rparr>, set_pending_reboot m True d)
                else
                  (Inr \<lparr>pr_mac = m, pr_action = action, pr_method = meth, pr_ok = succeeded,
                     pr_detail = detail', pr_deleted = False\<rparr>, d))))"

definition reboot_machine :: "shell \<Rightarrow> string \<Rightarrow> string \<Rightarrow> bool \<Rightarrow> db \<Rightarrow> PowerResult result \<times> db" where
  "reboot_machine shell timeout m then_delete d = power_machine shell timeout m ''reboot'' then_delete d"

fun power_machines :: "shell \<Rightarrow> string \<Rightarrow> string list \<Rightarrow> string \<Rightarrow> db \<Rightarrow> PowerResult list result \<times> db" where
  \<comment> \<open>the tasks of the thread pool one after the other; the theorem below says why their
     order does not matter\<close>
  "power_machines shell timeout [] action d = (Inr [], d)"
| "power_machines shell timeout (m # ms) action d =
     (case power_machine shell timeout m action False d of
        (Inl e, d') \<Rightarrow> (Inl e, d')
      | (Inr r, d') \<Rightarrow>
          (case power_machines shell timeout ms action d' of
             (Inl e, d'') \<Rightarrow> (Inl e, d'')
           | (Inr rs, d'') \<Rightarrow> (Inr (r # rs), d'')))"

section \<open>The reservation reaper\<close>

definition reap_once ::
  "(string \<Rightarrow> db \<Rightarrow> 'a result \<times> db) \<Rightarrow> timestamp \<Rightarrow> db \<Rightarrow> string list \<times> db" where
  \<comment> \<open>an exception of \<open>power_off\<close> is logged and dropped\<close>
  "reap_once power_off now d =
     (let (freed, d') = reap_expired now d
      in (freed, fold (\<lambda>m d. snd (power_off m d)) freed d'))"

record reaper =
  thread_started :: bool
  stop_signalled :: bool

definition new_reaper :: reaper where
  "new_reaper = \<lparr>thread_started = False, stop_signalled = False\<rparr>"

definition reaper_start :: "reaper \<Rightarrow> bool \<times> reaper" where
  \<comment> \<open>whether a thread was spawned\<close>
  "reaper_start r = (if thread_started r then (False, r) else (True, r\<lparr>thread_started := True\<rparr>))"

definition reaper_stop :: "reaper \<Rightarrow> reaper" where
  "reaper_stop r = r\<lparr>stop_signalled := True\<rparr>"

fun reaper_loop ::
  "(string \<Rightarrow> db \<Rightarrow> 'a result \<times> db) \<Rightarrow> (bool \<times> timestamp) list \<Rightarrow> db \<Rightarrow> db" where
  \<comment> \<open>one entry per return of \<open>wait\<close>: whether stop was signalled, and the time of the sweep\<close>
  "reaper_loop power_off [] d = d"
| "reaper_loop power_off ((stopped, now) # ticks) d =
     (if stopped then d else reaper_loop power_off ticks (snd (reap_once power_off now d)))"

section \<open>One machine\<close>

definition switched :: "shell \<Rightarrow> string \<Rightarrow> string \<Rightarrow> db \<Rightarrow> bool" where
  \<comment> \<open>a power command was found and it exited with 0\<close>
  "switched shell m action d = (case lookup m d of
     None \<Rightarrow> False
   | Some machine \<Rightarrow> (case power_route machine action (get_setting ''pdudaemon_host'' d) of
       Route command meth detail \<Rightarrow> (\<exists>c. command = Some c \<and> shell c = Exited_With 0)))"

definition soft_rebooted :: "shell \<Rightarrow> string \<Rightarrow> string \<Rightarrow> db \<Rightarrow> string set" where
  \<comment> \<open>the machine whose soft-reboot signal is armed\<close>
  "soft_rebooted shell m action d =
     (if action = ''reboot'' \<and> lookup m d \<noteq> None \<and> \<not> switched shell m action d then {normalise_mac m} else {})"

definition arm :: "string set \<Rightarrow> db \<Rightarrow> db" where
  "arm S d = d\<lparr>machines := update_where (\<lambda>r. mac r \<in> S) (\<lambda>r. r\<lparr>pending_reboot := True\<rparr>) (machines d)\<rparr>"

lemma run_power_command_ok [simp]:
  "fst (run_power_command shell timeout (Route command meth detail))
   \<longleftrightarrow> (\<exists>c. command = Some c \<and> shell c = Exited_With 0)"
  by (cases command) (auto split: run_outcome.split)

lemma set_pending_arm: "set_pending_reboot m True d = arm {normalise_mac m} d"
  by (simp add: set_pending_reboot_def upd_machine_def arm_def)

lemma arm_empty [simp]: "arm {} d = d"
  by (simp add: arm_def update_where_id)

lemma arm_arm [simp]: "arm S (arm T d) = arm (S \<union> T) d"
  by (auto simp: arm_def update_where_def)

lemma arm_other [simp]:
  "settings (arm S d) = settings d" "reservations (arm S d) = reservations d"
  "boot_events (arm S d) = boot_events d" "auto_enrol_rules (arm S d) = auto_enrol_rules d"
  by (simp_all add: arm_def)

lemma get_setting_arm [simp]: "get_setting key (arm S d) = get_setting key d"
  by (simp add: get_setting_def)

lemma lookup_arm [simp]:
  "lookup k (arm S d) = map_option (\<lambda>r. if mac r \<in> S then r\<lparr>pending_reboot := True\<rparr> else r) (lookup k d)"
proof -
  have "machine_at j (arm S d) = map_option (\<lambda>r. if mac r \<in> S then r\<lparr>pending_reboot := True\<rparr> else r) (machine_at j d)" for j
    unfolding machine_at_def arm_def by (simp add: fetch_one_update_where)
  then show ?thesis
    by (simp add: lookup_def option.map_comp comp_def if_distrib) (simp add: row_to_machine_def if_distrib cong: if_cong)
qed

lemma power_route_pending [simp]:
  "power_route (machine\<lparr>pending_reboot := b\<rparr>) action host = power_route machine action host"
  by (simp add: power_route_def machine_power_command_def Let_def)

lemma switched_arm [simp]: "switched shell m action (arm S d) = switched shell m action d"
  by (simp add: switched_def split: option.split)

lemma soft_rebooted_arm [simp]: "soft_rebooted shell m action (arm S d) = soft_rebooted shell m action d"
  by (simp add: soft_rebooted_def)

lemma power_machine_effect:
  assumes "action \<in> set POWER_ACTIONS"
  shows "\<exists>r. power_machine shell timeout m action False d = (Inr r, arm (soft_rebooted shell m action d) d)
    \<and> (pr_ok r \<longleftrightarrow> switched shell m action d \<or> soft_rebooted shell m action d \<noteq> {})
    \<and> (pr_method r = ''soft_reboot'' \<longleftrightarrow> soft_rebooted shell m action d \<noteq> {})
    \<and> pr_mac r = m \<and> pr_action r = action"
proof (cases "lookup m d")
  case None
  then show ?thesis using assms by (simp add: power_machine_def switched_def soft_rebooted_def)
next
  case (Some machine)
  obtain command meth detail where route:
    "power_route machine action (get_setting ''pdudaemon_host'' d) = Route command meth detail"
    by (cases "power_route machine action (get_setting ''pdudaemon_host'' d)")
  then have "meth \<noteq> ''soft_reboot''"
    by (auto simp: power_route_def Let_def split: if_splits)
  with Some route assms show ?thesis
    by (simp add: power_machine_def switched_def soft_rebooted_def split_beta Let_def set_pending_arm)
qed

lemma power_machine_arm [simp]:
  "fst (power_machine shell timeout m action False (arm S d)) = fst (power_machine shell timeout m action False d)"
proof (cases "lookup m d")
  case None
  then show ?thesis by (simp add: power_machine_def)
next
  case (Some machine)
  let ?machine = "if mac machine \<in> S then machine\<lparr>pending_reboot := True\<rparr> else machine"
  obtain command meth detail where route:
    "power_route machine action (get_setting ''pdudaemon_host'' d) = Route command meth detail"
    by (cases "power_route machine action (get_setting ''pdudaemon_host'' d)")
  then have "power_route ?machine action (get_setting ''pdudaemon_host'' d) = Route command meth detail" by simp
  moreover have "lookup m (arm S d) = Some ?machine" using Some by simp
  ultimately show ?thesis using Some route by (auto simp: power_machine_def split_beta Let_def)
qed


definition wired_example :: db where
  \<comment> \<open>\<open>pool_example\<close>, whose machine \<open>aa\<close> has its own commands for on and reboot\<close>
  "wired_example = snd (set_power_command ''aa'' ''on'' (Some ''wake aa'')
     (snd (set_power_command ''aa'' ''reboot'' (Some ''cycle aa'') pool_example)))"

lemma wired_example_lookup:
  "\<exists>machine. lookup ''aa'' wired_example = Some machine \<and> power_on_command machine = Some ''wake aa''
     \<and> reboot_command machine = Some ''cycle aa''"
proof -
  have "normalise_mac ''aa'' = ''aa''" "strip ''wake aa'' = ''wake aa''" "strip ''cycle aa'' = ''cycle aa''"
    by code_simp+
  then show ?thesis
    by (simp add: wired_example_def set_power_command_def POWER_COMMAND_COLUMNS_def pool_example_def Let_def
        lookup_def machine_at_def upd_machine_def update_where_def opt_str_def none_if_empty_def new_machine_row_def)
qed


section \<open>Many machines\<close>

lemma power_machines_arm:
  assumes "action \<in> set POWER_ACTIONS"
  shows "power_machines shell timeout ms action (arm S d)
       = (Inr (map (\<lambda>m. projr (fst (power_machine shell timeout m action False d))) ms),
          arm (S \<union> (\<Union>m \<in> set ms. soft_rebooted shell m action d)) d)"
proof (induction ms arbitrary: S)
  case Nil
  then show ?case by simp
next
  case (Cons m ms)
  obtain r where "power_machine shell timeout m action False (arm S d) =
      (Inr r, arm (soft_rebooted shell m action d \<union> S) d)"
    using power_machine_effect [OF assms, of shell timeout m "arm S d"] by auto
  moreover from this have "r = projr (fst (power_machine shell timeout m action False d))"
    using power_machine_arm [of shell timeout m action S d] by (metis fst_conv sum.sel(2))
  ultimately show ?case using Cons.IH [of "soft_rebooted shell m action d \<union> S"] by (simp add: Un_ac)
qed

text \<open>C29: Switching several machines together is switching each of them alone: every result is the one
  the machine would have got by itself, in the order of the request, and what is written
  does not depend on the order the worker threads happen to run in.\<close>
theorem machines_switched_as_alone:
  assumes "action \<in> set POWER_ACTIONS"
  shows "fst (power_machines shell timeout ms action d)
       = Inr (map (\<lambda>m. projr (fst (power_machine shell timeout m action False d))) ms)
     \<and> (\<forall>order. set order = set ms \<longrightarrow>
          snd (power_machines shell timeout order action d) = snd (power_machines shell timeout ms action d))"
  using power_machines_arm [OF assms, of shell timeout _ "{}" d] by simp

lemma machines_switched_as_alone_witness:
  "snd (power_machines (\<lambda>c. Timed_Out) ''60'' [''bb'', ''aa''] ''reboot'' wired_example)
   = snd (power_machines (\<lambda>c. Timed_Out) ''60'' [''aa'', ''bb''] ''reboot'' wired_example)"
proof -
  have "''reboot'' \<in> set POWER_ACTIONS" by (simp add: POWER_ACTIONS_def)
  then show ?thesis by (rule conjunct2 [OF machines_switched_as_alone, rule_format]) auto
qed

section \<open>The reaper\<close>

locale reaper_env =
  fixes power_off :: "string \<Rightarrow> db \<Rightarrow> 'a result \<times> db"
  assumes keeps_reservations: "reservations (snd (power_off m d)) = reservations d"
    and keeps_wf: "wf_db d \<Longrightarrow> wf_db (snd (power_off m d))"
begin

lemma sweep_keeps:
  "reservations (fold (\<lambda>m d. snd (power_off m d)) ms d) = reservations d
   \<and> (wf_db d \<longrightarrow> wf_db (fold (\<lambda>m d. snd (power_off m d)) ms d))"
  by (induction ms arbitrary: d) (auto simp: keeps_reservations keeps_wf)

lemma sweep_correct:
  assumes "wf_db d"
  shows "wf_db (snd (reap_once power_off now d))
    \<and> set (fst (reap_once power_off now d)) = res_mac ` {r \<in> set (reservations d). expired_lease now r}
    \<and> hold now (snd (reap_once power_off now d)) = hold now d
    \<and> {r \<in> set (reservations (snd (reap_once power_off now d))). expired_lease now r} = {}"
  using reap_expired_effect [OF assms, of now] sweep_keeps [of "fst (reap_expired now d)" "snd (reap_expired now d)"]
  by (auto simp: reap_once_def split_beta Let_def fun_eq_iff hold_def)

lemma loop_keeps_wf: "wf_db d \<Longrightarrow> wf_db (reaper_loop power_off ticks d)"
  by (induction ticks arbitrary: d) (auto simp: sweep_correct)

end

lemma power_off_writes_nothing [simp]: "snd (power_machine shell timeout m ''off'' False d) = d"
  by (simp add: power_machine_def split_beta Let_def split: option.split route.split)

interpretation power_reaper: reaper_env "\<lambda>m. power_machine shell timeout m ''off'' False" for shell timeout
  by unfold_locales simp_all

lemma fold_release_machines: "machines (fold (release_unreleased now) ms d) = machines d"
  by (induction ms arbitrary: d) (simp_all add: release_unreleased_def)

text \<open>C30: However many times the reaper wakes up, and whatever the power commands answer, the
  sweep at time \<open>now\<close> leaves no expired lease behind, lists exactly the machines of those leases, changes
  nobody's hold and no machine, and the loop keeps the registry well-formed.\<close>
theorem reaper_sweeps:
  assumes "wf_db d"
    and before_def: "before = reaper_loop (\<lambda>m. power_machine shell timeout m ''off'' False) ticks d"
    and after_def: "after = reap_once (\<lambda>m. power_machine shell timeout m ''off'' False) now before"
  shows "wf_db before \<and> wf_db (snd after)
    \<and> set (fst after) = res_mac ` {r \<in> set (reservations before). expired_lease now r}
    \<and> {r \<in> set (reservations (snd after)). expired_lease now r} = {}
    \<and> hold now (snd after) = hold now before \<and> machines (snd after) = machines d"
proof -
  have quiet: "fold (\<lambda>m d. d) ms e = e" for ms :: "string list" and e :: db
    by (induction ms) simp_all
  have one: "machines (snd (reap_once (\<lambda>m. power_machine shell timeout m ''off'' False) t e)) = machines e" for t e
    by (simp add: reap_once_def reap_expired_def split_beta Let_def quiet fold_release_machines)
  have "machines before = machines d"
    unfolding before_def by (induction ticks arbitrary: d) (auto simp: one)
  moreover have "wf_db before" unfolding before_def using assms(1) by (rule power_reaper.loop_keeps_wf)
  ultimately show ?thesis
    using power_reaper.sweep_correct [of before shell timeout now] one [of now before] by (simp add: after_def)
qed

lemma reaper_sweeps_witness:
  "set (fst (reap_once (\<lambda>m. power_machine (\<lambda>c. Timed_Out) ''60'' m ''off'' False) 50 expired_example)) = {''aa''}"
proof -
  have "res_mac ` {r \<in> set (reservations expired_example). expired_lease 50 r} = {''aa''}"
    by (force simp: expired_example_def pool_example_def expired_lease_def)
  then show ?thesis
    using reaper_sweeps [OF wf_expired_example refl refl, of "\<lambda>c. Timed_Out" "''60''" "[]" 50] by simp
qed

end
