(* ===== verification/App.thy ===== *)
theory App
  imports Auto_Enrol Boot_Sessions Build_Jobs Machine_Power
begin

text \<open>
  The HTTP endpoints of \<open>src/fleetboot/server/app.py\<close>, with the session store on the registry's own
  file as \<open>src/fleetboot/server/__main__.py\<close> sets it up, so the whole state is one database. (The
  in-process store answers alike: \<open>Boot_Sessions\<close>.) A handler takes the deployment's
  configuration, what the request carries and the database, and returns the response with the
  new database. Files and directories are predicates and lists of the configuration.

  \<open>Server_Error\<close> is the 500 of an exception no handler catches. FastAPI checks a body against its
  model before the handler runs and answers 422; the bounds of \<open>StatusReport\<close> and
  \<open>MachineProfileChange\<close> are \<open>valid_report\<close> and \<open>valid_profile_change\<close>.
\<close>

section \<open>Responses and configuration\<close>

datatype http_error = HTTPException nat string | Server_Error

type_synonym 'a response = "http_error + 'a"

definition unauthorised :: http_error where
  "unauthorised = HTTPException 401 ''unauthorised''"

definition not_found :: http_error where
  "not_found = HTTPException 404 ''not found''"

record app_config =
  mint_secret :: "string option"
  admin_secret :: "string option"
  has_registry :: bool
  boot_dir :: "(string \<Rightarrow> bool) option"        \<comment> \<open>is there such a file?\<close>
  keytabs_dir :: "(string \<Rightarrow> bool) option"
  authorized_keys_path :: "bool option"         \<comment> \<open>is the configured path a file?\<close>
  profile_dirs :: "string list option"          \<comment> \<open>directories under \<open>image/profiles\<close>, if it exists\<close>

definition extract_bearer_token :: "string option \<Rightarrow> string" where
  "extract_bearer_token header =
     (let s = strip (opt_str header);
          scheme = takeWhile (\<lambda>c. \<not> py_space c) s;
          rest = dropWhile py_space (dropWhile (\<lambda>c. \<not> py_space c) s)
      in if scheme = [] \<or> rest = [] \<or> lower scheme \<noteq> ''bearer'' then [] else strip rest)"

definition compare_digest :: "string \<Rightarrow> string \<Rightarrow> bool response" where
  \<comment> \<open>\<open>hmac.compare_digest\<close> raises \<open>TypeError\<close> on text that is not ASCII\<close>
  "compare_digest a b =
     (if \<exists>c \<in> set (a @ b). 128 \<le> code c then Inl Server_Error else Inr (a = b))"

definition check_secret :: "string option \<Rightarrow> string \<Rightarrow> unit response" where
  \<comment> \<open>\<open>if not presented or not hmac.compare_digest(presented, secret): raise 401\<close>\<close>
  "check_secret header secret =
     (let presented = extract_bearer_token header in
      if presented = [] then Inl unauthorised
      else case compare_digest presented secret of
        Inl e \<Rightarrow> Inl e
      | Inr same \<Rightarrow> if same then Inr () else Inl unauthorised)"

definition require_admin :: "app_config \<Rightarrow> string option \<Rightarrow> unit response" where
  "require_admin cfg header = (case admin_secret cfg of
     None \<Rightarrow> Inl (HTTPException 503 ''registry not configured'')
   | Some secret \<Rightarrow>
       if \<not> has_registry cfg then Inl (HTTPException 503 ''registry not configured'')
       else check_secret header secret)"

definition list_profile_names :: "string list option \<Rightarrow> string list" where
  "list_profile_names dirs = (case dirs of None \<Rightarrow> [] | Some names \<Rightarrow> sort names)"

definition require_known_profile :: "app_config \<Rightarrow> string \<Rightarrow> unit response" where
  "require_known_profile cfg profile = (case profile_dirs cfg of
     None \<Rightarrow> Inr ()
   | Some dirs \<Rightarrow>
       (let known = list_profile_names (Some dirs) in
        if profile \<in> set known then Inr ()
        else Inl (HTTPException 400 (''unknown profile: '' @ profile @ ''. Known profiles: ''
               @ str_or (join '', '' known) ''(none)''))))"

section \<open>The lifecycle endpoints\<close>

definition BORING_HOSTNAMES :: "string list" where
  "BORING_HOSTNAMES = ['''', ''localhost'', ''(none)'', ''none'', ''debian'', ''debian-live'', ''fakemachine'',
     ''fleetboot'', ''fleetboot-client'']"

record StatusReport =
  sr_state :: string
  sr_detail :: "string option"
  sr_hostname :: "string option"
  sr_boot_version :: "string option"
  sr_diagnostics :: "string option"
  sr_hardware :: "json pydict option"

definition at_most :: "nat \<Rightarrow> string option \<Rightarrow> bool" where
  "at_most n x \<longleftrightarrow> length (opt_str x) \<le> n"

definition valid_report :: "StatusReport \<Rightarrow> bool" where
  "valid_report report \<longleftrightarrow> 1 \<le> length (sr_state report) \<and> length (sr_state report) \<le> 64
     \<and> at_most 256 (sr_detail report) \<and> at_most 253 (sr_hostname report)
     \<and> at_most 128 (sr_boot_version report) \<and> at_most 8192 (sr_diagnostics report)"

record StatusAcknowledgement =
  ack_mac :: string
  ack_state :: string
  ack_pending_reboot :: bool

definition session_for :: "timestamp \<Rightarrow> string \<Rightarrow> string \<Rightarrow> db \<Rightarrow> (session_error + BootSession) \<times> db" where
  \<comment> \<open>a known state is recorded, a custom one only needs a session\<close>
  "session_for now t state d = (case BootState_of state of
     Some s \<Rightarrow> record_in_db now t s d
   | None \<Rightarrow> (case load_from_db t d of
       Inl e \<Rightarrow> (Inl e, d)
     | Inr None \<Rightarrow> (Inl (UnknownTokenError t), d)
     | Inr (Some session) \<Rightarrow> (Inr session, d)))"

definition session_failure :: "session_error \<Rightarrow> http_error" where
  "session_failure e = (case e of UnknownTokenError t \<Rightarrow> unauthorised | _ \<Rightarrow> Server_Error)"

definition perform :: "bool \<Rightarrow> (db \<Rightarrow> db) \<Rightarrow> db \<Rightarrow> db" where
  "perform b f d = (if b then f d else d)"

definition report_steps :: "timestamp \<Rightarrow> string \<Rightarrow> StatusReport \<Rightarrow> string option \<Rightarrow> (db \<Rightarrow> db) list" where
  \<comment> \<open>what \<open>post_status\<close> asks the registry to store, in its order\<close>
  "report_steps now m report client =
     [log_boot_event now m (sr_state report) (sr_detail report),
      perform (truthy client) (update_last_ip now m (opt_str client)),
      perform (truthy (sr_hostname report) \<and> lower (opt_str (sr_hostname report)) \<notin> set BORING_HOSTNAMES)
        (update_hostname now m (opt_str (sr_hostname report))),
      perform (truthy (sr_boot_version report)) (update_boot_version now m (opt_str (sr_boot_version report))),
      perform (truthy (sr_diagnostics report)) (update_diagnostics now m (opt_str (sr_diagnostics report))),
      (case sr_hardware report of
         None \<Rightarrow> (\<lambda>d. d)
       | Some hw \<Rightarrow> perform (hw \<noteq> []) (update_hardware now m (JsonText (JObj hw))))]"

definition stamp_report :: "timestamp \<Rightarrow> string \<Rightarrow> StatusReport \<Rightarrow> string option \<Rightarrow> db \<Rightarrow> db" where
  "stamp_report now m report client d = fold (\<lambda>step. step) (report_steps now m report client) d"

definition pending_for :: "string \<Rightarrow> db \<Rightarrow> bool" where
  "pending_for m d = (case lookup m d of None \<Rightarrow> False | Some machine \<Rightarrow> pending_reboot machine)"

definition post_status ::
  "timestamp \<Rightarrow> app_config \<Rightarrow> StatusReport \<Rightarrow> string option \<Rightarrow> string option \<Rightarrow> db
   \<Rightarrow> StatusAcknowledgement response \<times> db" where
  "post_status now cfg report header client d =
     (if \<not> valid_report report then (Inl (HTTPException 422 []), d)
      else case session_for now (extract_bearer_token header) (sr_state report) d of
        (Inl e, d') \<Rightarrow> (Inl (session_failure e), d')
      | (Inr session, d') \<Rightarrow>
          (let d'' = (if has_registry cfg then stamp_report now (bs_mac session) report client d' else d')
           in (Inr \<lparr>ack_mac = bs_mac session, ack_state = sr_state report,
                  ack_pending_reboot = has_registry cfg \<and> pending_for (bs_mac session) d''\<rparr>, d'')))"

definition mint_session ::
  "timestamp \<Rightarrow> string \<Rightarrow> app_config \<Rightarrow> string \<Rightarrow> string option \<Rightarrow> db \<Rightarrow> (string \<times> string) response \<times> db" where
  \<comment> \<open>the second argument is the random token\<close>
  "mint_session now t cfg m header d = (case mint_secret cfg of
     None \<Rightarrow> (Inl (HTTPException 503 ''minting not configured''), d)
   | Some secret \<Rightarrow> (case check_secret header secret of
       Inl e \<Rightarrow> (Inl e, d)
     | Inr _ \<Rightarrow> (case db_mint now t m d of
         (Inl e, d') \<Rightarrow> (Inl Server_Error, d')
       | (Inr session, d') \<Rightarrow>
           (Inr (token session, bs_mac session),
            if has_registry cfg then set_pending_reboot (bs_mac session) False d' else d'))))"

definition grub_event ::
  "timestamp \<Rightarrow> app_config \<Rightarrow> string \<Rightarrow> string \<Rightarrow> db \<Rightarrow> unit response \<times> db" where
  "grub_event now cfg t state_str d = (case BootState_of state_str of
     None \<Rightarrow> (Inl (HTTPException 400 ''unknown state''), d)
   | Some state \<Rightarrow> (case record_in_db now t state d of
       (Inl e, d') \<Rightarrow> (Inl (session_failure e), d')
     | (Inr session, d') \<Rightarrow>
         (Inr (), if has_registry cfg then log_boot_event now (bs_mac session) (state_value state) None d' else d')))"

definition grub_intercept :: "timestamp \<Rightarrow> bool \<Rightarrow> string \<Rightarrow> db \<Rightarrow> string option response \<times> db" where
  \<comment> \<open>\<open>grub_event_intercept.py\<close>; \<open>None\<close> lets the request fall through, the bytes sent are always
     empty, and only an unreadable stored state escapes as an exception\<close>
  "grub_intercept now has_reg filename d =
     (case split_char (CHR ''/'') (lstrip_char (CHR ''/'') filename) of
        [a, t, state_str] \<Rightarrow>
          (if a \<noteq> ''grub-event'' then (Inr None, d)
           else case BootState_of state_str of
             None \<Rightarrow> (Inr (Some []), d)
           | Some state \<Rightarrow> (case record_in_db now t state d of
               (Inl (UnknownTokenError _), d') \<Rightarrow> (Inr (Some []), d')
             | (Inl e, d') \<Rightarrow> (Inl Server_Error, d')
             | (Inr session, d') \<Rightarrow>
                 (Inr (Some []), if has_reg then log_boot_event now (bs_mac session) (state_value state) None d' else d')))
      | _ \<Rightarrow> (Inr None, d))"

section \<open>Files served to a booting machine\<close>

definition STATIC_BOOT_FILES :: "string list" where
  "STATIC_BOOT_FILES = [''vmlinuz'', ''initrd.img'']"

definition squashfs_suffix :: "string \<Rightarrow> string" where
  "squashfs_suffix arch = ''-'' @ arch @ ''.squashfs''"

definition profiled_squashfs :: "string \<Rightarrow> bool" where
  \<comment> \<open>\<open>_PROFILED_SQUASHFS.fullmatch\<close>\<close>
  "profiled_squashfs f = list_ex (\<lambda>arch.
     let middle = drop 10 (take (length f - length (squashfs_suffix arch)) f) in
     f = ''fleetboot-'' @ middle @ squashfs_suffix arch \<and> middle \<noteq> [] \<and> slug_char (hd middle)
       \<and> List.list_all (\<lambda>c. slug_char c \<or> c = CHR ''-'') middle) [''amd64'', ''arm64'', ''i386'']"

definition is_allowed_boot_filename :: "string \<Rightarrow> bool" where
  "is_allowed_boot_filename f \<longleftrightarrow> f \<in> set STATIC_BOOT_FILES \<or> profiled_squashfs f"

definition serve_boot_file :: "app_config \<Rightarrow> string \<Rightarrow> string \<Rightarrow> db \<Rightarrow> string response" where
  \<comment> \<open>the name of the file sent, relative to \<open>boot_dir\<close>\<close>
  "serve_boot_file cfg t filename d = (case boot_dir cfg of
     None \<Rightarrow> Inl (HTTPException 503 ''boot serving not configured'')
   | Some is_file \<Rightarrow>
       if \<not> is_allowed_boot_filename filename then Inl not_found
       else case load_from_db t d of
         Inl e \<Rightarrow> Inl Server_Error
       | Inr None \<Rightarrow> Inl unauthorised
       | Inr (Some session) \<Rightarrow> if is_file filename then Inr filename else Inl not_found)"

definition serve_keytab :: "app_config \<Rightarrow> string \<Rightarrow> db \<Rightarrow> string response" where
  "serve_keytab cfg t d = (case keytabs_dir cfg of
     None \<Rightarrow> Inl (HTTPException 503 ''keytab delivery not configured'')
   | Some is_file \<Rightarrow> (case load_from_db t d of
       Inl e \<Rightarrow> Inl Server_Error
     | Inr None \<Rightarrow> Inl unauthorised
     | Inr (Some session) \<Rightarrow>
         (let path = bs_mac session @ ''.keytab'' in
          if is_file path then Inr path else Inl (HTTPException 404 ''no keytab provisioned''))))"

definition serve_authorized_keys :: "app_config \<Rightarrow> string \<Rightarrow> db \<Rightarrow> unit response" where
  "serve_authorized_keys cfg t d = (case authorized_keys_path cfg of
     None \<Rightarrow> Inl (HTTPException 503 ''authorized_keys delivery not configured'')
   | Some is_file \<Rightarrow> (case load_from_db t d of
       Inl e \<Rightarrow> Inl Server_Error
     | Inr None \<Rightarrow> Inl unauthorised
     | Inr (Some session) \<Rightarrow> if is_file then Inr () else Inl (HTTPException 404 ''no authorized_keys provisioned'')))"

section \<open>The machines API\<close>

record MachineRecord =
  rec_mac :: string
  rec_profile_name :: string
  rec_architecture :: string
  rec_platform :: string
  rec_serial_console :: bool
  rec_enrolled_by :: string
  rec_hostname :: "string option"
  rec_hostname_seen_at :: "timestamp option"
  rec_scratch_mode :: string
  rec_reboot_command :: "string option"
  rec_created_at :: timestamp

definition from_machine :: "Machine \<Rightarrow> MachineRecord" where
  "from_machine machine =
     \<lparr>rec_mac = mac machine, rec_profile_name = profile_name machine, rec_architecture = architecture machine,
      rec_platform = platform machine, rec_serial_console = serial_console machine,
      rec_enrolled_by = enrolled_by machine, rec_hostname = hostname machine,
      rec_hostname_seen_at = hostname_seen_at machine, rec_scratch_mode = scratch_mode machine,
      rec_reboot_command = reboot_command machine, rec_created_at = created_at machine\<rparr>"

record MachineEnrolment =
  enr_mac :: string
  enr_profile_name :: string
  enr_architecture :: string
  enr_platform :: string
  enr_serial_console :: bool
  enr_scratch_mode :: string

definition bad_scratch_mode :: http_error where
  "bad_scratch_mode = HTTPException 400 ''scratch_mode must be volatile/persistent/off''"

definition enroll_machine ::
  "timestamp \<Rightarrow> app_config \<Rightarrow> MachineEnrolment \<Rightarrow> string option \<Rightarrow> db \<Rightarrow> MachineRecord response \<times> db" where
  "enroll_machine now cfg body header d = (case require_admin cfg header of
     Inl e \<Rightarrow> (Inl e, d)
   | Inr _ \<Rightarrow>
       if enr_scratch_mode body \<notin> set SCRATCH_MODES then (Inl bad_scratch_mode, d)
       else case require_known_profile cfg (enr_profile_name body) of
         Inl e \<Rightarrow> (Inl e, d)
       | Inr _ \<Rightarrow> (case enroll now (enr_mac body) (enr_profile_name body) (enr_architecture body) (enr_platform body)
             (enr_serial_console body) ''manual'' (enr_scratch_mode body) d of
           (Inl e, d') \<Rightarrow> (Inl Server_Error, d')
         | (Inr machine, d') \<Rightarrow> (Inr (from_machine machine), d')))"

definition list_machines :: "app_config \<Rightarrow> string option \<Rightarrow> db \<Rightarrow> MachineRecord list response" where
  "list_machines cfg header d = (case require_admin cfg header of
     Inl e \<Rightarrow> Inl e
   | Inr _ \<Rightarrow> Inr (map from_machine (list_all d)))"

definition get_machine :: "app_config \<Rightarrow> string \<Rightarrow> string option \<Rightarrow> db \<Rightarrow> MachineRecord response" where
  "get_machine cfg m header d = (case require_admin cfg header of
     Inl e \<Rightarrow> Inl e
   | Inr _ \<Rightarrow> (case lookup m d of None \<Rightarrow> Inl not_found | Some machine \<Rightarrow> Inr (from_machine machine)))"

definition valid_profile_change :: "string \<Rightarrow> bool" where
  "valid_profile_change profile \<longleftrightarrow> profile \<noteq> []"

definition change_machine_profile ::
  "app_config \<Rightarrow> string \<Rightarrow> string \<Rightarrow> string option \<Rightarrow> db \<Rightarrow> MachineRecord response \<times> db" where
  "change_machine_profile cfg m profile header d =
     (if \<not> valid_profile_change profile then (Inl (HTTPException 422 []), d)
      else case require_admin cfg header of
        Inl e \<Rightarrow> (Inl e, d)
      | Inr _ \<Rightarrow> (case require_known_profile cfg profile of
          Inl e \<Rightarrow> (Inl e, d)
        | Inr _ \<Rightarrow> (case set_profile m profile d of
            (Inl e, d') \<Rightarrow> (Inl Server_Error, d')
          | (Inr changed, d') \<Rightarrow>
              (if \<not> changed then (Inl not_found, d')
               else case lookup m d' of
                 None \<Rightarrow> (Inl Server_Error, d')
               | Some machine \<Rightarrow> (Inr (from_machine machine), d')))))"

definition delete_machine :: "app_config \<Rightarrow> string \<Rightarrow> string option \<Rightarrow> db \<Rightarrow> unit response \<times> db" where
  "delete_machine cfg m header d = (case require_admin cfg header of
     Inl e \<Rightarrow> (Inl e, d)
   | Inr _ \<Rightarrow> (let (removed, d') = remove m d in (if removed then Inr () else Inl not_found, d')))"

definition effective_platform :: "string option \<Rightarrow> auto_enrol_rule \<Rightarrow> string" where
  "effective_platform plat rule =
     (if opt_str plat \<in> {''pc'', ''efi''} then opt_str plat
      else if rule_platform rule \<in> {''pc'', ''efi''} then rule_platform rule
      else ''efi'')"

definition resolve_machine ::
  "timestamp \<Rightarrow> app_config \<Rightarrow> string \<Rightarrow> string option \<Rightarrow> string option \<Rightarrow> string option \<Rightarrow> db
   \<Rightarrow> MachineRecord response \<times> db" where
  "resolve_machine now cfg m source_ip plat header d =
     (case mint_secret cfg of
        None \<Rightarrow> (Inl (HTTPException 503 ''resolve not configured''), d)
      | Some secret \<Rightarrow>
          if \<not> has_registry cfg then (Inl (HTTPException 503 ''resolve not configured''), d)
          else case check_secret header secret of
            Inl e \<Rightarrow> (Inl e, d)
          | Inr _ \<Rightarrow> (case lookup m d of
              Some machine \<Rightarrow> (Inr (from_machine machine), d)
            | None \<Rightarrow> (case find_matching_rule m source_ip plat d of
                None \<Rightarrow> (Inl not_found, d)
              | Some rule \<Rightarrow>
                  (case enroll now m (rule_profile rule) (rule_architecture rule) (effective_platform plat rule)
                      (rule_serial_console rule) (''rule:'' @ rule_name rule) (rule_scratch_mode rule) d of
                    (Inl e, d') \<Rightarrow> (Inl Server_Error, d')
                  | (Inr machine, d') \<Rightarrow> (Inr (from_machine machine), d')))))"


section \<open>The rules API\<close>

record AutoEnrolRuleRequest =
  req_name :: string
  req_match_kind :: string
  req_match_value :: string
  req_profile_name :: string
  req_architecture :: string
  req_platform :: string
  req_serial_console :: bool
  req_scratch_mode :: string

record AutoEnrolRuleRecord =
  rr_id :: nat
  rr_name :: string
  rr_match_kind :: string
  rr_match_value :: string
  rr_profile_name :: string
  rr_architecture :: string
  rr_platform :: string
  rr_serial_console :: bool
  rr_scratch_mode :: string
  rr_created_at :: timestamp

definition from_rule :: "auto_enrol_rule \<Rightarrow> AutoEnrolRuleRecord" where
  "from_rule rule =
     \<lparr>rr_id = rule_id rule, rr_name = rule_name rule, rr_match_kind = match_kind rule,
      rr_match_value = match_value rule, rr_profile_name = rule_profile rule,
      rr_architecture = rule_architecture rule, rr_platform = rule_platform rule,
      rr_serial_console = rule_serial_console rule, rr_scratch_mode = rule_scratch_mode rule,
      rr_created_at = rule_created_at rule\<rparr>"

definition value_error :: "exn \<Rightarrow> http_error" where
  \<comment> \<open>\<open>except ValueError as err: raise HTTPException(400, str(err))\<close>\<close>
  "value_error e = (case e of ValueError text \<Rightarrow> HTTPException 400 text | _ \<Rightarrow> Server_Error)"

definition add_rule ::
  "timestamp \<Rightarrow> app_config \<Rightarrow> AutoEnrolRuleRequest \<Rightarrow> string option \<Rightarrow> db \<Rightarrow> AutoEnrolRuleRecord response \<times> db" where
  \<comment> \<open>the scratch mode of the body is not passed on; the registry's default is \<open>volatile\<close>\<close>
  "add_rule now cfg body header d = (case require_admin cfg header of
     Inl e \<Rightarrow> (Inl e, d)
   | Inr _ \<Rightarrow>
       if req_match_kind body \<notin> {''mac_prefix'', ''ip_cidr''}
       then (Inl (HTTPException 400 (''match_kind must be '' @ py_repr ''mac_prefix'' @ '' or '' @ py_repr ''ip_cidr'')), d)
       else if req_platform body \<notin> {''any'', ''efi'', ''pc''}
       then (Inl (HTTPException 400 (''platform must be '' @ py_repr ''any'' @ '', '' @ py_repr ''efi'' @ '', or '' @ py_repr ''pc'')), d)
       else case require_known_profile cfg (req_profile_name body) of
         Inl e \<Rightarrow> (Inl e, d)
       | Inr _ \<Rightarrow> (case add_auto_enrol_rule now (req_name body) (req_match_kind body) (req_match_value body)
             (req_profile_name body) (req_architecture body) (req_platform body) (req_serial_console body)
             ''volatile'' d of
           (Inl e, d') \<Rightarrow> (Inl (value_error e), d')
         | (Inr rule, d') \<Rightarrow> (Inr (from_rule rule), d')))"

definition list_rules :: "app_config \<Rightarrow> string option \<Rightarrow> db \<Rightarrow> AutoEnrolRuleRecord list response" where
  "list_rules cfg header d = (case require_admin cfg header of
     Inl e \<Rightarrow> Inl e
   | Inr _ \<Rightarrow> Inr (map from_rule (list_auto_enrol_rules d)))"

definition delete_rule :: "app_config \<Rightarrow> nat \<Rightarrow> string option \<Rightarrow> db \<Rightarrow> unit response \<times> db" where
  "delete_rule cfg i header d = (case require_admin cfg header of
     Inl e \<Rightarrow> (Inl e, d)
   | Inr _ \<Rightarrow> (let (removed, d') = remove_auto_enrol_rule i d in (if removed then Inr () else Inl not_found, d')))"

section \<open>Rebooting the fleet after a build\<close>

definition runs_build :: "BuildJob \<Rightarrow> Machine \<Rightarrow> bool" where
  "runs_build job machine \<longleftrightarrow> profile_name machine = job_profile job
     \<and> architecture machine \<in> set (architecture_aliases (job_architecture job))"

definition armed_line :: "nat \<Rightarrow> BuildJob \<Rightarrow> string" where
  "armed_line n job = ''auto-reboot: armed pending_reboot on '' @ str_of_nat n @ '' machine(s) running ''
     @ job_profile job @ ''/'' @ job_architecture job"

definition fleet_wide_reboot_on_success :: "BuildJob \<Rightarrow> db \<Rightarrow> (string + BuildJob) \<times> db" where
  "fleet_wide_reboot_on_success job d =
     (if \<not> auto_reboot job then (Inr job, d)
      else
        let hit = filter (runs_build job) (list_all d)
        in (Inr (append_line (armed_line (length hit) job) (job\<lparr>auto_reboot_armed := Some (length hit)\<rparr>)),
            fold (\<lambda>machine. set_pending_reboot (mac machine) True) hit d))"

section \<open>Facts about the secrets\<close>

lemma check_secret_ok: "check_secret header secret = Inr u \<Longrightarrow> secret \<noteq> [] \<and> extract_bearer_token header = secret"
  by (auto simp: check_secret_def compare_digest_def Let_def split: if_splits)

lemma require_admin_ok:
  "require_admin cfg header = Inr u \<Longrightarrow> admin_secret cfg = Some (extract_bearer_token header) \<and> has_registry cfg"
  by (auto simp: require_admin_def split: option.splits if_splits dest: check_secret_ok)

lemma require_admin_nonempty: "require_admin cfg header = Inr u \<Longrightarrow> extract_bearer_token header \<noteq> []"
  by (auto simp: require_admin_def split: option.splits if_splits dest: check_secret_ok)

section \<open>The gate\<close>

datatype api_request =
    Enroll MachineEnrolment
  | Change_Profile string string
  | Delete_Machine string
  | Add_Rule AutoEnrolRuleRequest
  | Delete_Rule nat
  | Mint_Session string string
  | Resolve string "string option" "string option"

definition outcome :: "'a response \<times> db \<Rightarrow> unit response \<times> db" where
  "outcome r = (map_sum id (\<lambda>_. ()) (fst r), snd r)"

fun api :: "timestamp \<Rightarrow> app_config \<Rightarrow> api_request \<Rightarrow> string option \<Rightarrow> db \<Rightarrow> unit response \<times> db" where
  \<comment> \<open>the routes that write and carry a secret, with the response body left out\<close>
  "api now cfg (Enroll body) header d = outcome (enroll_machine now cfg body header d)"
| "api now cfg (Change_Profile m profile) header d = outcome (change_machine_profile cfg m profile header d)"
| "api now cfg (Delete_Machine m) header d = outcome (delete_machine cfg m header d)"
| "api now cfg (Add_Rule body) header d = outcome (add_rule now cfg body header d)"
| "api now cfg (Delete_Rule i) header d = outcome (delete_rule cfg i header d)"
| "api now cfg (Mint_Session t m) header d = outcome (mint_session now t cfg m header d)"
| "api now cfg (Resolve m ip plat) header d = outcome (resolve_machine now cfg m ip plat header d)"

definition secret_of :: "app_config \<Rightarrow> api_request \<Rightarrow> string option" where
  "secret_of cfg request = (case request of
     Mint_Session t m \<Rightarrow> mint_secret cfg | Resolve m ip plat \<Rightarrow> mint_secret cfg | _ \<Rightarrow> admin_secret cfg)"

text \<open>C9: A request that does not present the secret its route asks for is refused with an error and
  changes nothing at all: enrolment, profile changes, removal and the rules need the admin
  secret, minting and resolving the mint secret. An unset secret, an empty bearer token or a
  malformed header never opens a route.\<close>
theorem secrets_gate_the_api:
  assumes "secret_of cfg request \<noteq> Some (extract_bearer_token header) \<or> extract_bearer_token header = []"
  shows "\<exists>e. api now cfg request header d = (Inl e, d)"
proof -
  have admin: "\<exists>e. require_admin cfg header = Inl e"
    if "admin_secret cfg \<noteq> Some (extract_bearer_token header) \<or> extract_bearer_token header = []"
    using that by (cases "require_admin cfg header") (auto dest: require_admin_ok require_admin_nonempty)
  have mint: "\<exists>e. check_secret header secret = Inl e"
    if "mint_secret cfg = Some secret" "secret_of cfg request = mint_secret cfg" for secret
    using that assms by (cases "check_secret header secret") (auto dest: check_secret_ok)
  show ?thesis
  proof (cases request)
    case (Mint_Session t m)
    then have "secret_of cfg request = mint_secret cfg" by (simp add: secret_of_def)
    with mint Mint_Session show ?thesis
      by (cases "mint_secret cfg") (force simp: outcome_def mint_session_def)+
  next
    case (Resolve m ip plat)
    then have "secret_of cfg request = mint_secret cfg" by (simp add: secret_of_def)
    with mint Resolve show ?thesis
      by (cases "mint_secret cfg") (force simp: outcome_def resolve_machine_def)+
  qed (use assms admin in \<open>auto simp: secret_of_def outcome_def enroll_machine_def change_machine_profile_def
      delete_machine_def add_rule_def delete_rule_def\<close>)
qed

definition gate_example :: app_config where
  "gate_example = \<lparr>mint_secret = Some ''m1nt'', admin_secret = Some ''adm1n'', has_registry = True,
     boot_dir = Some (\<lambda>f. f = ''vmlinuz''), keytabs_dir = None, authorized_keys_path = None,
     profile_dirs = Some [''base'', ''desktop'']\<rparr>"

lemma secrets_gate_the_api_witness:
  "\<exists>e. api 5 gate_example (Delete_Machine ''aa'') (Some ''Bearer m1nt'') pool_example = (Inl e, pool_example)"
proof -
  have "extract_bearer_token (Some ''Bearer m1nt'') = ''m1nt''" by code_simp
  then show ?thesis
    using secrets_gate_the_api [of gate_example "Delete_Machine ''aa''" "Some ''Bearer m1nt''" 5 pool_example]
    by (simp add: secret_of_def gate_example_def)
qed

section \<open>Boot reports\<close>

definition boot_view :: "'h machine \<Rightarrow> string \<times> string \<times> string \<times> bool \<times> string \<times> bool" where
  \<comment> \<open>what decides how a machine boots, and whether it is to reboot\<close>
  "boot_view r = (profile_name r, architecture r, platform r, serial_console r, scratch_mode r, pending_reboot r)"

lemma view_cong: "boot_sessions d = boot_sessions d' \<Longrightarrow> db_view d = db_view d'"
  by (simp add: db_view_def sessions_def fun_eq_iff)

lemma good_cong: "boot_sessions d = boot_sessions d' \<Longrightarrow> good_sessions d = good_sessions d'"
  by (simp add: good_sessions_def sessions_def)

lemma set_sessions_other [simp]:
  "machines (set_sessions t d) = machines d" "reservations (set_sessions t d) = reservations d"
  "settings (set_sessions t d) = settings d" "boot_events (set_sessions t d) = boot_events d"
  "auto_enrol_rules (set_sessions t d) = auto_enrol_rules d" "res_seq (set_sessions t d) = res_seq d"
  "ev_seq (set_sessions t d) = ev_seq d" "rule_seq (set_sessions t d) = rule_seq d"
  "boot_sessions (set_sessions t d) = Some t"
  by (simp_all add: set_sessions_def)

lemma wf_set_sessions [wf_intros]: "wf_db d \<Longrightarrow> wf_db (set_sessions t d)"
  by (simp add: wf_db_def)

lemma record_in_db_other:
  "\<exists>s. snd (record_in_db now t st d) = boot_sessions_update (\<lambda>_. s) d"
  by (auto simp: record_in_db_def Let_def set_sessions_def split: option.split sum.split
      intro: exI [of _ "boot_sessions d"])

lemma record_in_db_session:
  assumes "good_sessions d"
  shows "db_view d t = None \<Longrightarrow> record_in_db now t st d = (Inl (UnknownTokenError t), d)"
    and "db_view d t = Some (m, l) \<Longrightarrow> \<exists>session s.
       record_in_db now t st d = (Inr session, boot_sessions_update (\<lambda>_. s) d) \<and> bs_mac session = m
       \<and> good_sessions (boot_sessions_update (\<lambda>_. s) d)
       \<and> db_view (boot_sessions_update (\<lambda>_. s) d) = (db_view d)(t \<mapsto> (m, further l st))"
proof -
  show "db_view d t = None \<Longrightarrow> record_in_db now t st d = (Inl (UnknownTokenError t), d)"
    by (simp add: db_view_def record_in_db_def)
  assume view: "db_view d t = Some (m, l)"
  obtain row where row: "fetch_one (\<lambda>r. tok r = t) (sessions d) = Some row" "m = sess_mac row"
    "l = Option.bind (latest_state row) BootState_of"
    using view by (auto simp: db_view_def)
  obtain s where s: "snd (record_in_db now t st d) = boot_sessions_update (\<lambda>_. s) d"
    using record_in_db_other by blast
  have "good_sessions (snd (db_step now (Report t st) d))"
    "db_view (snd (db_step now (Report t st) d)) = snd (view_step (Report t st) (db_view d))"
    using db_store.step_report db_store.step_good assms by blast+
  with view s row show "\<exists>session s.
       record_in_db now t st d = (Inr session, boot_sessions_update (\<lambda>_. s) d) \<and> bs_mac session = m
       \<and> good_sessions (boot_sessions_update (\<lambda>_. s) d)
       \<and> db_view (boot_sessions_update (\<lambda>_. s) d) = (db_view d)(t \<mapsto> (m, further l st))"
    by (auto simp: record_in_db_eq [OF assms row(1)] Let_def)
qed

lemma session_for_correct:
  assumes "good_sessions d"
  shows "db_view d t = None \<Longrightarrow> session_for now t state d = (Inl (UnknownTokenError t), d)"
    and "db_view d t = Some (m, l) \<Longrightarrow> \<exists>session s.
       session_for now t state d = (Inr session, boot_sessions_update (\<lambda>_. s) d) \<and> bs_mac session = m
       \<and> good_sessions (boot_sessions_update (\<lambda>_. s) d)
       \<and> db_view (boot_sessions_update (\<lambda>_. s) d)
         = (db_view d)(t \<mapsto> (m, case BootState_of state of None \<Rightarrow> l | Some st \<Rightarrow> further l st))"
proof -
  have load: "load_from_db t d = Inr (case fetch_one (\<lambda>r. tok r = t) (sessions d) of None \<Rightarrow> None
      | Some row \<Rightarrow> Some \<lparr>token = tok row, bs_mac = sess_mac row,
          bs_latest = Option.bind (latest_state row) BootState_of, reports = []\<rparr>)"
    using good_stored_state [OF assms] by (auto simp: load_from_db_def split: option.split)
  show "db_view d t = None \<Longrightarrow> session_for now t state d = (Inl (UnknownTokenError t), d)"
    using record_in_db_session(1) [OF assms] load
    by (auto simp: session_for_def db_view_def split: option.split)
  assume view: "db_view d t = Some (m, l)"
  show "\<exists>session s. session_for now t state d = (Inr session, boot_sessions_update (\<lambda>_. s) d) \<and> bs_mac session = m
       \<and> good_sessions (boot_sessions_update (\<lambda>_. s) d)
       \<and> db_view (boot_sessions_update (\<lambda>_. s) d)
         = (db_view d)(t \<mapsto> (m, case BootState_of state of None \<Rightarrow> l | Some st \<Rightarrow> further l st))"
  proof (cases "BootState_of state")
    case None
    obtain row where "fetch_one (\<lambda>r. tok r = t) (sessions d) = Some row" "sess_mac row = m"
      using view by (auto simp: db_view_def)
    with None load view assms show ?thesis
      by (intro exI [of _ "\<lparr>token = tok row, bs_mac = sess_mac row,
          bs_latest = Option.bind (latest_state row) BootState_of, reports = []\<rparr>"] exI [of _ "boot_sessions d"])
        (auto simp: session_for_def)
  next
    case (Some st)
    with record_in_db_session(2) [OF assms view, of now st] show ?thesis by (simp add: session_for_def)
  qed
qed

lemma upd_machine_boot_view:
  assumes "\<And>r. mac (f r) = mac r" and "\<And>r. boot_view (f r) = boot_view r"
  shows "map_option boot_view (machine_at k (upd_machine m f d)) = map_option boot_view (machine_at k d)"
  using assms by (simp add: machine_at_upd option.map_comp comp_def)

definition stamped :: "string \<Rightarrow> db \<Rightarrow> db \<Rightarrow> bool" where
  \<comment> \<open>\<open>d'\<close> is \<open>d\<close> with at most new boot data on the machine \<open>m\<close> and new boot events\<close>
  "stamped m d d' \<longleftrightarrow> boot_sessions d' = boot_sessions d \<and> reservations d' = reservations d \<and> settings d' = settings d
     \<and> auto_enrol_rules d' = auto_enrol_rules d
     \<and> (\<forall>k. k \<noteq> normalise_mac m \<longrightarrow> machine_at k d' = machine_at k d)
     \<and> (\<forall>k. map_option boot_view (machine_at k d') = map_option boot_view (machine_at k d))
     \<and> (wf_db d \<longrightarrow> wf_db d')"

lemma stamped_refl [simp]: "stamped m d d"
  by (simp add: stamped_def)

lemma stamped_trans: "stamped m d d' \<Longrightarrow> stamped m d' d'' \<Longrightarrow> stamped m d d''"
  by (simp add: stamped_def)

lemma stamped_upd:
  assumes "\<And>r. mac (f r) = mac r" and "\<And>r. boot_view (f r) = boot_view r"
  shows "stamped m d (upd_machine (normalise_mac m) f d)"
  using assms by (simp add: stamped_def upd_machine_boot_view) (simp add: machine_at_upd wf_upd_machine)

lemma stamped_stamps:
  "stamped m d (update_hostname now m x d)" "stamped m d (update_last_ip now m x d)"
  "stamped m d (update_diagnostics now m x d)" "stamped m d (update_boot_version now m x d)"
  "stamped m d (update_hardware now m j d)"
  by (auto simp: update_hostname_def update_last_ip_def update_diagnostics_def update_boot_version_def
      update_hardware_def Let_def boot_view_def intro!: stamped_upd split: option.split)

lemma stamped_log: "stamped m d (log_boot_event now m state detail d)"
  using wf_log_boot_event [of d now m state detail]
  by (auto simp: stamped_def log_boot_event_def machine_at_def Let_def split: option.split)

lemma stamped_perform: "(\<And>e. stamped m e (f e)) \<Longrightarrow> stamped m e (perform b f e)"
  by (simp add: perform_def)

lemma stamped_fold: "(\<And>f e. f \<in> set fs \<Longrightarrow> stamped m e (f e)) \<Longrightarrow> stamped m d (fold (\<lambda>f. f) fs d)"
proof (induction fs arbitrary: d)
  case Nil
  then show ?case by simp
next
  case (Cons f fs)
  have "stamped m d (f d)" by (rule Cons.prems) simp
  moreover have "stamped m (f d) (fold (\<lambda>f. f) fs (f d))" by (rule Cons.IH) (simp add: Cons.prems)
  ultimately show ?case by (simp add: stamped_trans)
qed

lemma stamped_report: "stamped m d (stamp_report now m report client d)"
  unfolding stamp_report_def
  by (rule stamped_fold)
    (auto simp: report_steps_def intro!: stamped_perform stamped_log stamped_stamps split: option.splits)

lemma pending_for_boot_view:
  assumes "map_option boot_view (machine_at (normalise_mac m) d') = map_option boot_view (machine_at (normalise_mac m) d)"
  shows "pending_for m d' = pending_for m d"
  using assms
  by (cases "machine_at (normalise_mac m) d"; cases "machine_at (normalise_mac m) d'")
    (simp_all add: pending_for_def lookup_def boot_view_def)

definition after_report :: "string \<Rightarrow> string \<Rightarrow> BootState option \<Rightarrow> string \<Rightarrow> session_view \<Rightarrow> session_view" where
  \<comment> \<open>the sessions after the session \<open>t\<close> of \<open>m\<close>, which was at \<open>l\<close>, reported \<open>state\<close>\<close>
  "after_report t m l state v =
     v(t \<mapsto> (m, case BootState_of state of None \<Rightarrow> l | Some st \<Rightarrow> further l st))"

lemma status_accepted:
  assumes "good_sessions d" and "valid_report report" and t_def: "t = extract_bearer_token header"
    and view: "db_view d t = Some (m, l)"
  shows "\<exists>ack d'. post_status now cfg report header client d = (Inr ack, d')
    \<and> ack_mac ack = m \<and> ack_state ack = sr_state report
    \<and> (ack_pending_reboot ack \<longleftrightarrow> has_registry cfg \<and> pending_for m d)
    \<and> good_sessions d' \<and> db_view d' = after_report t m l (sr_state report) (db_view d)
    \<and> reservations d' = reservations d \<and> settings d' = settings d \<and> auto_enrol_rules d' = auto_enrol_rules d
    \<and> (\<forall>k. k \<noteq> normalise_mac m \<longrightarrow> machine_at k d' = machine_at k d)
    \<and> (\<forall>k. map_option boot_view (machine_at k d') = map_option boot_view (machine_at k d))
    \<and> (wf_db d \<longrightarrow> wf_db d')"
proof -
  let ?view = "after_report t m l (sr_state report) (db_view d)"
  obtain session s where session: "session_for now t (sr_state report) d = (Inr session, boot_sessions_update (\<lambda>_. s) d)"
    "bs_mac session = m" "good_sessions (boot_sessions_update (\<lambda>_. s) d)"
    "db_view (boot_sessions_update (\<lambda>_. s) d) = ?view"
    using session_for_correct(2) [OF assms(1) view] unfolding after_report_def by blast
  let ?d1 = "boot_sessions_update (\<lambda>_. s) d"
  let ?d2 = "if has_registry cfg then stamp_report now m report client ?d1 else ?d1"
  have stamped: "stamped m ?d1 ?d2" by (simp add: stamped_report)
  then have same: "boot_sessions ?d2 = boot_sessions ?d1" by (simp only: stamped_def)
  have "post_status now cfg report header client d = (Inr \<lparr>ack_mac = m, ack_state = sr_state report,
      ack_pending_reboot = has_registry cfg \<and> pending_for m ?d2\<rparr>, ?d2)"
    using session assms(2) by (simp add: post_status_def t_def Let_def)
  moreover have "pending_for m ?d2 = pending_for m d"
  proof -
    have "map_option boot_view (machine_at (normalise_mac m) ?d2) = map_option boot_view (machine_at (normalise_mac m) d)"
      using stamped by (simp add: stamped_def machine_at_def)
    then show ?thesis by (rule pending_for_boot_view)
  qed
  moreover have "machine_at k ?d1 = machine_at k d" for k by (simp add: machine_at_def)
  moreover have "wf_db ?d1 = wf_db d" by (simp add: wf_db_def)
  ultimately show ?thesis
    using stamped session(3,4) good_cong [OF same] view_cong [OF same]
    by (intro exI [of _ "\<lparr>ack_mac = m, ack_state = sr_state report,
      ack_pending_reboot = has_registry cfg \<and> pending_for m ?d2\<rparr>"] exI [of _ ?d2]) (simp add: stamped_def)
qed



section \<open>The soft-reboot handshake\<close>

lemma pending_set [simp]:
  "pending_for m (set_pending_reboot m b d) = (b \<and> lookup m d \<noteq> None)"
  by (simp add: pending_for_def lookup_def set_pending_reboot_def machine_at_upd split: option.split)

lemma set_pending_sessions [simp]: "boot_sessions (set_pending_reboot m b d) = boot_sessions d"
  by (simp add: set_pending_reboot_def)

lemma db_mint_fresh:
  assumes "db_view d t = None"
  shows "fst (db_mint now t m d) = Inr \<lparr>token = t, bs_mac = normalise_mac m, bs_latest = None, reports = []\<rparr>"
proof -
  from assms have "\<not> (\<exists>r \<in> set (sessions d). tok r = t)" by (simp add: db_view_def fetch_one_None)
  then show ?thesis by (simp add: db_mint_def Let_def)
qed

lemma db_mint_other: "\<exists>s. snd (db_mint now t m d) = boot_sessions_update (\<lambda>_. s) d"
  by (auto simp: db_mint_def Let_def set_sessions_def intro: exI [of _ "boot_sessions d"])

lemma mint_session_effect:
  assumes "good_sessions d" and "db_view d t = None" and "mint_secret cfg = Some secret"
    and "check_secret header secret = Inr ()" and "has_registry cfg"
  shows "\<exists>d'. mint_session now t cfg m header d = (Inr (t, normalise_mac m), d') \<and> good_sessions d'
    \<and> db_view d' = (db_view d)(t \<mapsto> (normalise_mac m, None)) \<and> \<not> pending_for m d'
    \<and> (lookup m d' \<noteq> None \<longleftrightarrow> lookup m d \<noteq> None)"
proof -
  let ?d1 = "snd (db_step now (Mint t m) d)"
  obtain s where s: "snd (db_mint now t m d) = boot_sessions_update (\<lambda>_. s) d" using db_mint_other by blast
  let ?d2 = "set_pending_reboot (normalise_mac m) False ?d1"
  have "mint_session now t cfg m header d = (Inr (t, normalise_mac m), ?d2)"
    using assms(3-5) db_mint_fresh [OF assms(2), of now m]
    by (cases "db_mint now t m d") (simp add: mint_session_def)
  moreover have "good_sessions ?d1" "db_view ?d1 = (db_view d)(t \<mapsto> (normalise_mac m, None))"
    using db_store.step_good [OF assms(1), of now "Mint t m"] db_store.step_mint [OF assms(1,2), of now m] by auto
  then have "good_sessions ?d2" "db_view ?d2 = (db_view d)(t \<mapsto> (normalise_mac m, None))"
    using good_cong [of ?d2 ?d1] view_cong [of ?d2 ?d1] by simp_all
  moreover have "\<not> pending_for m ?d2"
    using pending_set [of "normalise_mac m" False ?d1] by (simp add: pending_for_def lookup_def)
  moreover have "lookup m ?d2 \<noteq> None \<longleftrightarrow> lookup m d \<noteq> None"
    by (simp add: lookup_def set_pending_reboot_def machine_at_upd s) (simp add: machine_at_def)
  ultimately show ?thesis by blast
qed



section \<open>Resolving machines\<close>

lemma resolve_known:
  "mint_secret cfg = Some secret \<Longrightarrow> check_secret header secret = Inr () \<Longrightarrow> has_registry cfg \<Longrightarrow>
   lookup m d = Some machine \<Longrightarrow> resolve_machine now cfg m ip plat header d = (Inr (from_machine machine), d)"
  by (simp add: resolve_machine_def)

lemma resolve_unknown:
  assumes "wf_db d" and "mint_secret cfg = Some secret" and "check_secret header secret = Inr ()"
    and "has_registry cfg" and "lookup m d = None" and "find_matching_rule m ip plat d = Some rule"
    and "rule_scratch_mode rule \<in> set SCRATCH_MODES"
  shows "\<exists>machine d'. resolve_machine now cfg m ip plat header d = (Inr (from_machine machine), d') \<and> wf_db d'
    \<and> lookup m d' = Some machine
    \<and> profile_name machine = rule_profile rule \<and> enrolled_by machine = ''rule:'' @ rule_name rule
    \<and> platform machine = effective_platform plat rule
    \<and> hold now d' (normalise_mac m) = Held (''rule:'' @ rule_name rule)
    \<and> (\<forall>k. k \<noteq> normalise_mac m \<longrightarrow> machine_at k d' = machine_at k d \<and> hold now d' k = hold now d k)"
proof -
  let ?nm = "normalise_mac m"
  have unknown: "machine_at ?nm d = None" using assms(5) by (simp add: lookup_def)
  obtain d' row where d': "enroll now m (rule_profile rule) (rule_architecture rule) (effective_platform plat rule)
      (rule_serial_console rule) (''rule:'' @ rule_name rule) (rule_scratch_mode rule) d = (Inr (row_to_machine row), d')"
    "reservations d' = reservations d @ [new_reservation now ?nm (''rule:'' @ rule_name rule)
         (Some enrolment_purpose) Permanent (Some (rule_profile rule)) None (Suc (res_seq d))]"
    "wf_db d'" "\<forall>k. machine_at k d' = (if k = ?nm then Some row else machine_at k d)"
    "row = new_machine_row now ?nm (rule_profile rule) (rule_architecture rule) (effective_platform plat rule)
      (rule_serial_console rule) (''rule:'' @ rule_name rule) (rule_scratch_mode rule)"
    using enroll_new [OF assms(1,7) unknown refl] by blast
  have "hold now d ?nm = Free"
    using unknown_unreserved [OF assms(1), of ?nm] unknown by (auto simp: hold_def active_at_None machine_at_None)
  then have "hold now d' k = (if k = ?nm then Held (''rule:'' @ rule_name rule) else hold now d k)" for k
    using d'(2) by (auto simp: hold_def active_at_def fetch_one_append active_def new_reservation_def split: option.split)
  then show ?thesis
    using d' assms(2-6) by (intro exI [of _ "row_to_machine row"] exI [of _ d'])
      (simp add: resolve_machine_def lookup_def new_machine_row_def str_or_def)
qed

text \<open>C27: Resolving a machine the registry knows changes nothing and answers with its record. An unknown machine is
  enrolled by the first rule that matches it, under that rule's profile and name and with the
  firmware it was seen with, and it is then permanently held; when no rule matches the answer is
  404 and nothing is written. Asking again, with whatever address or firmware, gives the same
  record and writes nothing: a machine is enrolled once.\<close>
theorem resolve_enrols_once:
  assumes "wf_db d" and "mint_secret cfg = Some secret" and "check_secret header secret = Inr ()"
    and "has_registry cfg"
    and "\<forall>rule \<in> set (auto_enrol_rules d). rule_scratch_mode rule \<in> {''volatile'', ''persistent'', ''off''}"
    and res_def: "res = resolve_machine now cfg m ip plat header d"
  shows "(lookup m d \<noteq> None \<longrightarrow> res = (Inr (from_machine (the (lookup m d))), d))
    \<and> (lookup m d = None \<and> find_matching_rule m ip plat d = None \<longrightarrow> res = (Inl not_found, d))
    \<and> (\<forall>rule. lookup m d = None \<and> find_matching_rule m ip plat d = Some rule \<longrightarrow>
         (\<exists>machine d'. res = (Inr (from_machine machine), d') \<and> wf_db d' \<and> lookup m d' = Some machine
           \<and> profile_name machine = rule_profile rule \<and> enrolled_by machine = ''rule:'' @ rule_name rule
           \<and> platform machine = effective_platform plat rule
           \<and> hold now d' (normalise_mac m) = Held (''rule:'' @ rule_name rule)
           \<and> (\<forall>k. k \<noteq> normalise_mac m \<longrightarrow> machine_at k d' = machine_at k d \<and> hold now d' k = hold now d k)))
    \<and> (\<forall>entry d' ip' plat' later. res = (Inr entry, d') \<longrightarrow>
         resolve_machine later cfg m ip' plat' header d' = (Inr entry, d'))"
proof -
  have mode: "rule_scratch_mode rule \<in> set SCRATCH_MODES" if "find_matching_rule m ip plat d = Some rule" for rule
  proof -
    from that obtain r where "r \<in> set (auto_enrol_rules d)" "rule = row_to_rule r"
      by (auto simp: find_matching_rule_def list_auto_enrol_rules_def Let_def dest!: find_SomeD)
    with bspec [OF assms(5) this(1)] show ?thesis by (auto simp: row_to_rule_def str_or_def SCRATCH_MODES_def)
  qed
  have new: "\<exists>machine d'. res = (Inr (from_machine machine), d') \<and> wf_db d' \<and> lookup m d' = Some machine
      \<and> profile_name machine = rule_profile rule \<and> enrolled_by machine = ''rule:'' @ rule_name rule
      \<and> platform machine = effective_platform plat rule
      \<and> hold now d' (normalise_mac m) = Held (''rule:'' @ rule_name rule)
      \<and> (\<forall>k. k \<noteq> normalise_mac m \<longrightarrow> machine_at k d' = machine_at k d \<and> hold now d' k = hold now d k)"
    if "lookup m d = None" "find_matching_rule m ip plat d = Some rule" for rule
    unfolding res_def by (rule resolve_unknown [OF assms(1-4) that mode [OF that(2)]])
  have old: "res = (Inr (from_machine (the (lookup m d))), d)" if "lookup m d \<noteq> None"
    using that resolve_known [OF assms(2-4)] by (auto simp: res_def)
  have none: "res = (Inl not_found, d)" if "lookup m d = None" "find_matching_rule m ip plat d = None"
    using that assms(2-4) by (simp add: res_def resolve_machine_def)
  have "resolve_machine later cfg m ip' plat' header d' = (Inr entry, d')" if "res = (Inr entry, d')" for entry d' ip' plat' later
  proof -
    have "\<exists>machine. lookup m d' = Some machine \<and> entry = from_machine machine"
    proof (cases "lookup m d")
      case unknown: None
      show ?thesis
      proof (cases "find_matching_rule m ip plat d")
        case None
        with none [OF unknown] that show ?thesis by simp
      next
        case (Some rule)
        with new [OF unknown Some] that show ?thesis by fastforce
      qed
    next
      case (Some machine)
      with old that show ?thesis by auto
    qed
    then show ?thesis using resolve_known [OF assms(2-4)] by blast
  qed
  with old none new show ?thesis by blast
qed

lemma resolve_enrols_once_witness:
  "\<exists>machine d'. resolve_machine 5 gate_example ''AA-01'' None (Some ''pc'') (Some ''Bearer m1nt'') rule_example
     = (Inr (from_machine machine), d') \<and> platform machine = ''pc'' \<and> is_Held (hold 5 d' ''aa:01'')"
proof -
  have wf: "wf_db rule_example"
    unfolding rule_example_def by (intro wf_rule_operations wf_empty_db)
  have "normalise_match_value ''mac_prefix'' ''AA-BB-'' = Inr ''aa:bb''"
    and "normalise_match_value ''mac_prefix'' [] = Inr []" by code_simp+
  then have modes: "\<forall>rule \<in> set (auto_enrol_rules rule_example). rule_scratch_mode rule \<in> {''volatile'', ''persistent'', ''off''}"
    and unknown: "lookup ''AA-01'' rule_example = None"
    by (simp_all add: rule_example_def add_auto_enrol_rule_def SCRATCH_MODES_def empty_db_def Let_def
        get_auto_enrol_rule_def row_to_rule_def lookup_def machine_at_def)
  obtain r1 r2 where l: "list_auto_enrol_rules rule_example = [r1, r2]"
    and r1: "match_kind r1 = ''mac_prefix''" "match_value r1 = ''aa:bb''" "rule_platform r1 = ''any''"
    and r2: "match_kind r2 = ''mac_prefix''" "match_value r2 = []" "rule_platform r2 = ''any''"
    using rule_example_list by (auto simp: map_eq_Cons_conv)
  have nm: "normalise_mac ''AA-01'' = ''aa:01''" and "lower ''any'' = ''any''" by code_simp+
  then have found: "find_matching_rule ''AA-01'' None (Some ''pc'') rule_example = Some r2"
    using l r1 r2 by (simp add: find_matching_rule_def rule_matches_def str_or_def startswith_def)
  have "check_secret (Some ''Bearer m1nt'') ''m1nt'' = Inr ()" by code_simp
  moreover have "mint_secret gate_example = Some ''m1nt''" "has_registry gate_example" by (simp_all add: gate_example_def)
  ultimately obtain machine d' where "resolve_machine 5 gate_example ''AA-01'' None (Some ''pc'') (Some ''Bearer m1nt'') rule_example
     = (Inr (from_machine machine), d')" "platform machine = effective_platform (Some ''pc'') r2"
    "hold 5 d' (normalise_mac ''AA-01'') = Held (''rule:'' @ rule_name r2)"
    using resolve_enrols_once [OF wf _ _ _ modes refl, where cfg = gate_example and secret = "''m1nt''"
        and header = "Some ''Bearer m1nt''" and now = 5 and m = "''AA-01''" and ip = None and plat = "Some ''pc''",
        THEN conjunct2, THEN conjunct2, THEN conjunct1, rule_format, OF _ _ _ conjI [OF unknown found]] by metis
  then show ?thesis by (auto simp: effective_platform_def opt_str_def nm)
qed

section \<open>The fleet-wide reboot\<close>

lemma fold_set_pending:
  "fold (\<lambda>machine. set_pending_reboot (mac machine) True) ms d = arm ((\<lambda>machine. normalise_mac (mac machine)) ` set ms) d"
  by (induction ms arbitrary: d) (simp_all add: set_pending_arm Un_commute)

lemma list_all_iff_lookup:
  assumes "wf_db d"
  shows "machine \<in> set (list_all d) \<longleftrightarrow> lookup (mac machine) d = Some machine \<and> normalise_mac (mac machine) = mac machine"
proof
  assume "machine \<in> set (list_all d)"
  then obtain row where row: "row \<in> set (machines d)" "machine = row_to_machine row" by (auto simp: list_all_def)
  then have "normalise_mac (mac row) = mac row" using known_normal [OF assms] by blast
  with row show "lookup (mac machine) d = Some machine \<and> normalise_mac (mac machine) = mac machine"
    by (simp add: lookup_def machine_at_mem [OF assms])
next
  assume "lookup (mac machine) d = Some machine \<and> normalise_mac (mac machine) = mac machine"
  then show "machine \<in> set (list_all d)" by (auto simp: lookup_def list_all_def dest!: machine_at_SomeD)
qed

lemma list_all_distinct: "wf_db d \<Longrightarrow> distinct (map mac (list_all d))"
  by (simp add: wf_db_def wf_machines_def keys_distinct_def list_all_def comp_def order_by_def distinct_map inj_on_def)

lemma fold_append_keeps [simp]:
  "job_profile (fold append_line ls job) = job_profile job" "job_architecture (fold append_line ls job) = job_architecture job"
  "auto_reboot (fold append_line ls job) = auto_reboot job" "auto_reboot_armed (fold append_line ls job) = auto_reboot_armed job"
  by (induction ls arbitrary: job) (simp_all add: append_line_def)

lemma begin_keeps [simp]:
  "job_profile (begin_execute now job) = job_profile job" "job_architecture (begin_execute now job) = job_architecture job"
  "auto_reboot (begin_execute now job) = auto_reboot job" "auto_reboot_armed (begin_execute now job) = auto_reboot_armed job"
  by (simp_all add: begin_execute_def)

lemma append_armed [simp]: "auto_reboot_armed (append_line l job) = auto_reboot_armed job"
  by (simp add: append_line_def)

lemma fleet_reboot_effect:
  assumes "wf_db d"
  shows "\<exists>job'. fleet_wide_reboot_on_success job d
      = (Inr job', if auto_reboot job then arm (mac ` set (filter (runs_build job) (list_all d))) d else d)
    \<and> auto_reboot_armed job' = (if auto_reboot job then Some (length (filter (runs_build job) (list_all d)))
         else auto_reboot_armed job)"
proof -
  have "(\<lambda>machine. normalise_mac (mac machine)) ` set (filter (runs_build job) (list_all d))
      = mac ` set (filter (runs_build job) (list_all d))"
    using list_all_iff_lookup [OF assms] by (intro image_cong) auto
  then show ?thesis by (simp add: fleet_wide_reboot_on_success_def fold_set_pending Let_def)
qed

lemma execute_fleet:
  assumes "wf_db d"
  shows "\<exists>job'. execute (Some fleet_wide_reboot_on_success) now run job d
      = (job', if auto_reboot job \<and> succeeds run then arm (mac ` set (filter (runs_build job) (list_all d))) d else d)
    \<and> auto_reboot_armed job' = (if auto_reboot job \<and> succeeds run then Some (length (filter (runs_build job) (list_all d)))
         else auto_reboot_armed job)"
proof (cases run)
  case (Exited ls rc)
  let ?job = "(fold append_line ls (begin_execute now job))\<lparr>exit_code := Some rc\<rparr>"
  have same: "runs_build ?job = runs_build job" by (simp add: runs_build_def fun_eq_iff)
  show ?thesis
  proof (cases "rc = 0")
    case True
    with Exited fleet_reboot_effect [OF assms, of ?job] same show ?thesis
      by (auto simp: execute_def finish_execute_def succeeds_def Let_def)
  next
    case False
    with Exited show ?thesis by (simp add: execute_def finish_execute_def succeeds_def Let_def)
  qed
next
  case (Crashed ls exc)
  then show ?thesis by (simp add: execute_def finish_execute_def succeeds_def Let_def)
qed

lemma image_filter_inj:
  assumes "x \<in> A" and "\<And>y. y \<in> A \<Longrightarrow> f y = f x \<Longrightarrow> y = x"
  shows "f x \<in> f ` {y \<in> A. P y} \<longleftrightarrow> P x"
proof
  assume "f x \<in> f ` {y \<in> A. P y}"
  then obtain y where "y \<in> A" "P y" "f y = f x" by auto
  with assms(2) [of y] show "P x" by simp
qed (use assms(1) in simp)

lemma armed_when_built:
  assumes "wf_db d" and m: "lookup m d = Some machine"
  shows "mac machine \<in> mac ` set (filter (runs_build job) (list_all d)) \<longleftrightarrow> runs_build job machine"
proof -
  have at: "lookup (mac machine) d = Some machine"
    using m lookup_SomeD [OF m] by (simp add: lookup_def)
  with list_all_iff_lookup [OF assms(1)] lookup_SomeD [OF m] have "machine \<in> set (list_all d)" by simp
  moreover have "x = machine" if x: "x \<in> set (list_all d)" "mac x = mac machine" for x
    using list_all_iff_lookup [OF assms(1), of x] x at by simp
  ultimately show ?thesis unfolding set_filter by (intro image_filter_inj)
qed

lemma armed_machines_counted:
  assumes "wf_db d"
  shows "length (filter (runs_build job) (list_all d))
    = card {m. \<exists>machine. lookup m d = Some machine \<and> normalise_mac m = m \<and> runs_build job machine}"
proof -
  let ?hit = "filter (runs_build job) (list_all d)"
  have "distinct (map mac ?hit)"
    using list_all_distinct [OF assms] by (rule distinct_map_filter)
  from distinct_card [OF this] have "length ?hit = card (mac ` set ?hit)" by simp
  also have "mac ` set ?hit = {m. \<exists>machine. lookup m d = Some machine \<and> normalise_mac m = m \<and> runs_build job machine}"
  proof (intro set_eqI iffI)
    fix m
    assume "m \<in> mac ` set ?hit"
    then obtain x where "x \<in> set (list_all d)" "runs_build job x" "m = mac x" unfolding set_filter by blast
    with list_all_iff_lookup [OF assms, of x]
    show "m \<in> {m. \<exists>machine. lookup m d = Some machine \<and> normalise_mac m = m \<and> runs_build job machine}"
      by (intro CollectI exI [of _ x]) simp
  next
    fix m
    assume "m \<in> {m. \<exists>machine. lookup m d = Some machine \<and> normalise_mac m = m \<and> runs_build job machine}"
    then obtain x where x: "lookup m d = Some x" "normalise_mac m = m" "runs_build job x" by blast
    then have "mac x = m" using lookup_SomeD [OF x(1)] by simp
    with x list_all_iff_lookup [OF assms, of x] show "m \<in> mac ` set ?hit"
      by (intro image_eqI [of _ _ x]) simp_all
  qed
  finally show ?thesis .
qed

text \<open>C36: When a build that asked for it succeeds, exactly the machines running that profile on that
  architecture, under any of its names, are told to reboot; the job records how many they are, and nothing else
  about any machine or hold changes. A build that did not ask for it changes nothing, and so does
  one that failed.\<close>
theorem fleet_reboots_after_build:
  assumes "wf_db d" and run_def: "(job', d') = execute (Some fleet_wide_reboot_on_success) now run job d"
  shows "reservations d' = reservations d
    \<and> (\<forall>m. lookup m d' = map_option (\<lambda>machine.
         if auto_reboot job \<and> succeeds run \<and> runs_build job machine then machine\<lparr>pending_reboot := True\<rparr> else machine)
         (lookup m d))
    \<and> auto_reboot_armed job' = (if auto_reboot job \<and> succeeds run
         then Some (card {m. \<exists>machine. lookup m d = Some machine \<and> normalise_mac m = m \<and> runs_build job machine})
         else auto_reboot_armed job)"
proof -
  let ?hit = "filter (runs_build job) (list_all d)"
  obtain S where S: "S = mac ` set ?hit" by blast
  have out: "d' = (if auto_reboot job \<and> succeeds run then arm S d else d)"
    "auto_reboot_armed job' = (if auto_reboot job \<and> succeeds run then Some (length ?hit) else auto_reboot_armed job)"
    using execute_fleet [OF assms(1), of now run job] by (auto simp: run_def [symmetric] S)
  have hit: "mac machine \<in> S \<longleftrightarrow> runs_build job machine" if "lookup m d = Some machine" for m machine
    unfolding S by (rule armed_when_built [OF assms(1) that])
  have "lookup m d' = map_option (\<lambda>machine.
         if auto_reboot job \<and> succeeds run \<and> runs_build job machine then machine\<lparr>pending_reboot := True\<rparr> else machine)
         (lookup m d)" for m
  proof (cases "lookup m d")
    case None
    then show ?thesis by (simp add: out(1))
  next
    case (Some machine)
    show ?thesis
      by (simp add: out(1) hit [OF Some] Some)
  qed
  moreover have "length ?hit = card {m. \<exists>machine. lookup m d = Some machine \<and> normalise_mac m = m \<and> runs_build job machine}"
    by (rule armed_machines_counted [OF assms(1)])
  ultimately show ?thesis by (simp add: out)
qed

lemma fleet_reboots_after_build_witness:
  "\<exists>machine. lookup ''aa'' (snd (execute (Some fleet_wide_reboot_on_success) 9 (Exited [] 0)
      (new_job ''1'' ''desktop'' ''amd64'' True None) pool_example)) = Some machine \<and> pending_reboot machine"
proof -
  let ?job = "new_job ''1'' ''desktop'' ''amd64'' True None"
  have nm: "normalise_mac ''aa'' = ''aa''" by code_simp
  obtain machine where machine: "lookup ''aa'' pool_example = Some machine" "profile_name machine = ''desktop''"
    "architecture machine = ''x86_64''"
    by (auto simp: lookup_def nm machine_at_def pool_example_def new_machine_row_def)
  have "''x86_64'' \<in> set (architecture_aliases ''amd64'')" by code_simp
  with machine have "runs_build ?job machine" by (simp add: runs_build_def new_job_def)
  with fleet_reboots_after_build [OF pool_example_facts(1), OF prod.collapse, of 9 "Exited [] 0" ?job,
      THEN conjunct2, THEN conjunct1, rule_format, of "''aa''"] machine(1)
  show ?thesis by (simp add: succeeds_def new_job_def)
qed

end
