(* ===== verification/Tftp_Glue.thy ===== *)
theory Tftp_Glue
  imports Grub_Template Http_Client App
begin

text \<open>
  The TFTP service's side of the control plane, \<open>src/fleetboot/tftp_glue/\<close>: the HTTP client of \<open>client.py\<close>,
  the renderer that mints a session and writes the boot configuration (\<open>renderer.py\<close>), the forwarding
  of GRUB's stage events (\<open>http_intercept.py\<close>) and the start-up of \<open>__main__.py\<close>. The TFTP server itself
  (\<open>tftpjail\<close>) and the HTTP library are packages of their own: requests are arguments of the definitions
  (\<open>Http_Client\<close>).

  A success whose body has not the fields the server's own models declare is \<open>Bad_Body\<close> (Python raises
  \<open>KeyError\<close>, \<open>AttributeError\<close> or a decoding error, or goes on with a value of the wrong type).
\<close>

section \<open>The client\<close>

datatype client_error = MintFailedError string | ResolveFailedError string | Transport_Error | Bad_Body

record RegisteredMachine =
  rm_mac :: string
  rm_profile_name :: string
  rm_architecture :: string
  rm_platform :: string
  rm_serial_console :: bool
  rm_enrolled_by :: string
  rm_scratch_mode :: string

record FleetbootClient =
  fc_base_url :: string
  fc_mint_secret :: string

definition new_client :: "string \<Rightarrow> string \<Rightarrow> FleetbootClient result" where
  "new_client base_url secret =
     (if base_url = [] then Inl (ValueError ''base_url must not be empty'')
      else if secret = [] then Inl (ValueError ''mint_secret must not be empty'')
      else Inr \<lparr>fc_base_url = rstrip_char (CHR ''/'') base_url, fc_mint_secret = secret\<rparr>)"

definition auth_headers :: "FleetbootClient \<Rightarrow> headers" where
  "auth_headers cl = [(''Authorization'', ''Bearer '' @ fc_mint_secret cl)]"

definition unexpected :: "string \<Rightarrow> http_response \<Rightarrow> string" where
  "unexpected endpoint r = ''fleetboot '' @ endpoint @ '' returned '' @ str_of_nat (status_code r) @ '': '' @ py_repr (rs_text r)"

definition client_mint :: "'w post \<Rightarrow> FleetbootClient \<Rightarrow> string \<Rightarrow> 'w \<Rightarrow> (client_error + string) \<times> 'w" where
  \<comment> \<open>\<open>FleetbootClient.mint_session\<close>\<close>
  "client_mint post cl m w = (case post (fc_base_url cl @ ''/sessions'') [(''mac'', JStr m)] (auth_headers cl) w of
     (None, w') \<Rightarrow> (Inl Transport_Error, w')
   | (Some r, w') \<Rightarrow>
       (if status_code r \<noteq> 201 then Inl (MintFailedError (unexpected ''/sessions'' r))
        else case rs_json r of
          Some (JObj body) \<Rightarrow> (case dict_get body ''token'' of
              Some (JStr t) \<Rightarrow> if t = [] then Inl (MintFailedError ''fleetboot /sessions returned no token'') else Inr t
            | None \<Rightarrow> Inl (MintFailedError ''fleetboot /sessions returned no token'')
            | Some JNull \<Rightarrow> Inl (MintFailedError ''fleetboot /sessions returned no token'')
            | Some v \<Rightarrow> Inl Bad_Body)
        | _ \<Rightarrow> Inl Bad_Body, w'))"

definition resolve_url :: "FleetbootClient \<Rightarrow> string \<Rightarrow> string option \<Rightarrow> string option \<Rightarrow> string" where
  "resolve_url cl m source_ip plat =
     (let query = (if truthy source_ip then [''source_ip='' @ opt_str source_ip] else [])
                @ (if truthy plat then [''platform='' @ opt_str plat] else [])
      in fc_base_url cl @ ''/resolve/'' @ m @ (if query = [] then [] else ''?'' @ join ''&'' query))"

definition machine_of_body :: "json pydict \<Rightarrow> RegisteredMachine option" where
  "machine_of_body body =
     (case (dict_get body ''mac'', dict_get body ''profile_name'', dict_get body ''architecture'', dict_get body ''platform'',
         case dict_get body ''serial_console'' of None \<Rightarrow> JBool False | Some v \<Rightarrow> v,
         case dict_get body ''enrolled_by'' of None \<Rightarrow> JStr ''manual'' | Some v \<Rightarrow> v,
         case dict_get body ''scratch_mode'' of None \<Rightarrow> JStr ''volatile'' | Some v \<Rightarrow> v) of
        (Some (JStr m), Some (JStr p), Some (JStr a), Some (JStr plat), JBool serial, JStr by, JStr scratch) \<Rightarrow>
          Some \<lparr>rm_mac = m, rm_profile_name = p, rm_architecture = a, rm_platform = plat, rm_serial_console = serial,
             rm_enrolled_by = by, rm_scratch_mode = scratch\<rparr>
      | _ \<Rightarrow> None)"

definition lookup_machine ::
  "'w get \<Rightarrow> FleetbootClient \<Rightarrow> string \<Rightarrow> string option \<Rightarrow> string option \<Rightarrow> 'w \<Rightarrow> (client_error + RegisteredMachine option) \<times> 'w" where
  "lookup_machine get cl m source_ip plat w = (case get (resolve_url cl m source_ip plat) (auth_headers cl) w of
     (None, w') \<Rightarrow> (Inl Transport_Error, w')
   | (Some r, w') \<Rightarrow>
       (if status_code r = 404 then Inr None
        else if status_code r \<noteq> 200 then Inl (ResolveFailedError (unexpected ''/resolve'' r))
        else case rs_json r of
          Some (JObj body) \<Rightarrow> (case machine_of_body body of None \<Rightarrow> Inl Bad_Body | Some machine \<Rightarrow> Inr (Some machine))
        | _ \<Rightarrow> Inl Bad_Body, w'))"

section \<open>The renderer\<close>

datatype render_error = Client_Error client_error | Render_Error exn

definition render_for ::
  "'w post \<Rightarrow> FleetbootClient \<Rightarrow> string \<Rightarrow> RegisteredMachine \<Rightarrow> ClientIdentity \<Rightarrow> 'w \<Rightarrow> (render_error + string) \<times> 'w" where
  \<comment> \<open>\<open>render(profile, identity, request_filename)\<close>, the text before it is encoded\<close>
  "render_for post cl base_url profile identity w = (case client_mint post cl (asserted_mac identity) w of
     (Inl e, w') \<Rightarrow> (Inl (Client_Error e), w')
   | (Inr t, w') \<Rightarrow>
       (map_sum Render_Error id (render_grub_cfg identity base_url t (str_or (rm_profile_name profile) ''default'')
          (rm_serial_console profile) (Some (rm_architecture profile)) (str_or (rm_scratch_mode profile) ''volatile'')), w'))"

section \<open>Forwarding the stage events\<close>

definition forward_event :: "(string \<Rightarrow> 'w \<Rightarrow> 'w) \<Rightarrow> string \<Rightarrow> string \<Rightarrow> 'w \<Rightarrow> string option \<times> 'w" where
  \<comment> \<open>\<open>make_http_grub_event_intercept\<close>; the GET's answer and its errors are ignored\<close>
  "forward_event get base_url filename w =
     (case split_char (CHR ''/'') (lstrip_char (CHR ''/'') filename) of
        [a, t, state] \<Rightarrow>
          (if a \<noteq> ''grub-event'' then (None, w)
           else (Some [], get (rstrip_char (CHR ''/'') base_url @ ''/grub-event/'' @ t @ ''/'' @ state) w))
      | _ \<Rightarrow> (None, w))"

section \<open>Start-up\<close>

fun lladdr_in :: "string list \<Rightarrow> string option" where
  \<comment> \<open>the word after the first \<open>lladdr\<close> that has one\<close>
  "lladdr_in (a # b # ws) = (if a = ''lladdr'' then Some b else lladdr_in (b # ws))"
| "lladdr_in ws = None"

definition ip_neigh_lookup :: "string option \<Rightarrow> string option" where
  \<comment> \<open>the argument is the output of \<open>ip neigh show\<close>, \<open>None\<close> if the command failed to run\<close>
  "ip_neigh_lookup output = (case output of
     None \<Rightarrow> None
   | Some text \<Rightarrow> (case List.map_filter (\<lambda>line. lladdr_in (words line)) (splitlines text) of [] \<Rightarrow> None | a # _ \<Rightarrow> Some a))"

type_synonym environ = "string \<Rightarrow> string option"

definition env_or :: "environ \<Rightarrow> string \<Rightarrow> string \<Rightarrow> string" where
  "env_or env name dflt = (case env name of None \<Rightarrow> dflt | Some v \<Rightarrow> v)"

datatype start_failure = Exit nat string | Crash   \<comment> \<open>\<open>sys.exit\<close> after a message, or an uncaught exception\<close>

definition require_env :: "string \<Rightarrow> environ \<Rightarrow> string \<Rightarrow> start_failure + string" where
  "require_env prog env name =
     (if truthy (env name) then Inr (opt_str (env name)) else Inl (Exit 2 (prog @ '': '' @ name @ '' must be set'')))"

record tftp_service =
  ts_client :: FleetbootClient
  ts_client_base_url :: string
  ts_assets_dir :: string
  ts_host :: string
  ts_port :: int

definition tftp_main :: "environ \<Rightarrow> (string \<Rightarrow> bool) \<Rightarrow> start_failure + tftp_service" where
  "tftp_main env is_directory =
     (case require_env ''fleetboot.tftp_glue'' env ''FLEETBOOT_URL'' of Inl e \<Rightarrow> Inl e | Inr internal_url \<Rightarrow>
     (case require_env ''fleetboot.tftp_glue'' env ''FLEETBOOT_MINT_SECRET'' of Inl e \<Rightarrow> Inl e | Inr secret \<Rightarrow>
      let assets = env_or env ''PUBLIC_ASSETS_DIR'' ''/build'' in
      if \<not> is_directory assets then Inl (Exit 2 (''tftp_glue: public assets dir '' @ assets @ '' missing''))
      else case new_client internal_url secret of
        Inl e \<Rightarrow> Inl Crash
      | Inr cl \<Rightarrow> (case int_of_str (env_or env ''TFTP_PORT'' ''69'') of
          None \<Rightarrow> Inl Crash
        | Some port \<Rightarrow> Inr \<lparr>ts_client = cl, ts_client_base_url = env_or env ''CLIENT_BASE_URL'' internal_url, ts_assets_dir = assets,
            ts_host = env_or env ''TFTP_HOST'' ''0.0.0.0'', ts_port = port\<rparr>)))"

end
