(* ===== verification/Py_Float.thy ===== *)
theory Py_Float
  imports Complex_Main Py_Strings
begin

text \<open>
  Python's floating-point numbers, as far as \<open>power_command_timeout_seconds\<close> of \<open>src/fleetboot/server/dashboard.py\<close>
  needs them: \<open>float(s)\<close>, with the rounding to 53 bits, the overflow to infinity and the underflow to zero of an IEEE
  double, and the format \<open>:g\<close>. A finite value is the rational number it stands for (the sign of zero is not kept).
\<close>

section \<open>Rounding\<close>

datatype py_float = Finite rat | Infinite bool | Not_A_Number   \<comment> \<open>the flag: negative\<close>

definition two_to :: "int \<Rightarrow> rat" where
  "two_to k = (if 0 \<le> k then 2 ^ nat k else 1 / 2 ^ nat (- k))"

definition ten_to :: "int \<Rightarrow> rat" where
  "ten_to k = (if 0 \<le> k then 10 ^ nat k else 1 / 10 ^ nat (- k))"

definition round_even :: "rat \<Rightarrow> int" where
  \<comment> \<open>to the nearest integer, a tie to the even one\<close>
  "round_even x = (let f = \<lfloor>x\<rfloor>; r = x - of_int f in
     if r < 1 / 2 then f else if 1 / 2 < r then f + 1 else if even f then f else f + 1)"

fun bit_count :: "nat \<Rightarrow> nat" where
  "bit_count n = (if n = 0 then 0 else Suc (bit_count (n div 2)))"

declare bit_count.simps [simp del]

definition exponent :: "rat \<Rightarrow> int" where
  \<comment> \<open>the power of two just below a positive number\<close>
  "exponent x = (case quotient_of x of (a, b) \<Rightarrow>
     let k = int (bit_count (nat a)) - int (bit_count (nat b)) in if two_to k \<le> x then k else k - 1)"

definition double_of :: "rat \<Rightarrow> py_float" where
  \<comment> \<open>of a positive number\<close>
  "double_of x =
     (let e = max (- 1074) (exponent x - 52); v = of_int (round_even (x / two_to e)) * two_to e
      in if two_to 1024 \<le> v then Infinite False else Finite v)"

definition minus_float :: "py_float \<Rightarrow> py_float" where
  "minus_float v = (case v of Finite x \<Rightarrow> Finite (- x) | Infinite n \<Rightarrow> Infinite (\<not> n) | Not_A_Number \<Rightarrow> Not_A_Number)"

section \<open>Reading\<close>

definition digits :: "string \<Rightarrow> bool" where
  "digits s \<longleftrightarrow> s \<noteq> [] \<and> List.list_all py_digit s"

definition exponent_of_str :: "string \<Rightarrow> int option" where
  "exponent_of_str s =
     (let u = (if startswith s ''-'' \<or> startswith s ''+'' then tl s else s) in
      if digits u then Some (if startswith s ''-'' then - digits_value u else digits_value u) else None)"

definition decimal_of_str :: "string \<Rightarrow> rat option" where
  \<comment> \<open>digits with a point and an exponent, without a sign\<close>
  "decimal_of_str s =
     (let mark = (\<lambda>c. c = CHR ''e'' \<or> c = CHR ''E'');
          mantissa = takeWhile (\<lambda>c. \<not> mark c) s; tail = dropWhile (\<lambda>c. \<not> mark c) s;
          whole = takeWhile py_digit mantissa; point = dropWhile py_digit mantissa;
          fraction = tl point
      in if (point = [] \<or> hd point = CHR ''.'' \<and> List.list_all py_digit fraction) \<and> whole @ fraction \<noteq> []
         then map_option (\<lambda>e. of_int (digits_value (whole @ fraction)) * ten_to (e - int (length fraction)))
           (if tail = [] then Some 0 else exponent_of_str (tl tail))
         else None)"

fun underscores_ok :: "bool \<Rightarrow> string \<Rightarrow> bool" where
  \<comment> \<open>an underscore only between digits; the flag: a digit came before\<close>
  "underscores_ok after_digit [] = True"
| "underscores_ok after_digit (c # s) =
     ((c = CHR ''_'' \<longrightarrow> after_digit \<and> s \<noteq> [] \<and> py_digit (hd s)) \<and> underscores_ok (py_digit c) s)"

definition float_of_str :: "string \<Rightarrow> py_float option" where
  "float_of_str s =
     (let t = strip s; negative = startswith t ''-'';
          u = (if negative \<or> startswith t ''+'' then tl t else t); w = lower u;
          v = (if w = ''inf'' \<or> w = ''infinity'' then Some (Infinite False)
               else if w = ''nan'' then Some Not_A_Number
               else if underscores_ok False u
                 then map_option (\<lambda>x. if x = 0 then Finite 0 else double_of x)
                   (decimal_of_str (filter (\<lambda>c. c \<noteq> CHR ''_'') u))
               else None)
      in if negative then map_option minus_float v else v)"

section \<open>Writing\<close>

definition decade :: "rat \<Rightarrow> int" where
  \<comment> \<open>the power of ten just below a positive number\<close>
  "decade x = (case quotient_of x of (a, b) \<Rightarrow>
     let k = int (length (str_of_int a)) - int (length (str_of_int b)) in if ten_to k \<le> x then k else k - 1)"

definition strip_zeros :: "string \<Rightarrow> string" where
  "strip_zeros s = (let t = strip_while (\<lambda>c. c = CHR ''0'') s in if t \<noteq> [] \<and> last t = CHR ''.'' then butlast t else t)"

definition format_positive :: "rat \<Rightarrow> string" where
  \<comment> \<open>six significant digits\<close>
  "format_positive x =
     (let n = round_even (x / ten_to (decade x - 5));
          (n, k) = (if n = 1000000 then (100000, decade x + 1) else (n, decade x));
          ds = str_of_int n
      in if - 4 \<le> k \<and> k < 0 then strip_zeros (''0.'' @ replicate (nat (- k - 1)) (CHR ''0'') @ ds)
         else if 0 \<le> k \<and> k < 6 then strip_zeros (take (nat k + 1) ds @ ''.'' @ drop (nat k + 1) ds)
         else strip_zeros (take 1 ds @ ''.'' @ drop 1 ds) @ ''e'' @ (if k < 0 then ''-'' else ''+'')
           @ (if \<bar>k\<bar> < 10 then ''0'' else []) @ str_of_int \<bar>k\<bar>)"

definition format_g :: "py_float \<Rightarrow> string" where
  \<comment> \<open>\<open>f"{v:g}"\<close>\<close>
  "format_g v = (case v of
     Finite x \<Rightarrow> if x = 0 then ''0'' else if x < 0 then ''-'' @ format_positive (- x) else format_positive x
   | Infinite negative \<Rightarrow> if negative then ''-inf'' else ''inf''
   | Not_A_Number \<Rightarrow> ''nan'')"

section \<open>Accuracy\<close>

lemma round_even_near: "\<bar>of_int (round_even x) - x\<bar> \<le> 1 / 2"
proof -
  have "of_int \<lfloor>x\<rfloor> \<le> x" "x < of_int \<lfloor>x\<rfloor> + 1" by linarith+
  then show ?thesis by (auto simp: round_even_def Let_def)
qed

lemma round_even_int [simp]: "round_even (of_int i) = i"
  by (simp add: round_even_def)

lemma round_even_nonneg: "0 \<le> x \<Longrightarrow> 0 \<le> round_even x"
proof -
  assume "0 \<le> x"
  then have "0 \<le> \<lfloor>x\<rfloor>" by simp
  then show ?thesis by (auto simp: round_even_def Let_def)
qed

lemma two_to_pos [simp]: "0 < two_to k"
  by (simp add: two_to_def)

lemma two_to_Suc: "two_to (k + 1) = 2 * two_to k"
proof (cases "0 \<le> k")
  case True
  then show ?thesis by (simp add: two_to_def nat_add_distrib)
next
  case False
  then have "nat (- k) = Suc (nat (- k - 1))" by simp
  with False show ?thesis by (auto simp: two_to_def)
qed

lemma two_to_nat [simp]: "two_to (int n) = 2 ^ n"
  by (simp add: two_to_def)

lemma two_to_diff: "two_to (int a - int b) = 2 ^ a / 2 ^ b"
proof (cases "b \<le> a")
  case True
  then have "(2::rat) ^ a = 2 ^ (a - b) * 2 ^ b" by (simp flip: power_add)
  with True show ?thesis by (simp add: two_to_def nat_diff_distrib)
next
  case False
  then have "(2::rat) ^ b = 2 ^ (b - a) * 2 ^ a" by (simp flip: power_add)
  moreover from False have "nat (int b - int a) = b - a" by simp
  ultimately show ?thesis using False by (simp add: two_to_def)
qed

lemma bit_count_bounds: "0 < n \<Longrightarrow> 2 ^ bit_count n \<le> 2 * n \<and> n < 2 ^ bit_count n"
proof (induction n rule: bit_count.induct)
  case (1 n)
  show ?case
  proof (cases "n div 2 = 0")
    case True
    with 1(2) have "n = 1" by auto
    then show ?thesis by (simp add: bit_count.simps)
  next
    case False
    with 1 have "2 ^ bit_count (n div 2) \<le> 2 * (n div 2)" "n div 2 < 2 ^ bit_count (n div 2)" by auto
    moreover from 1(2) have "bit_count n = Suc (bit_count (n div 2))" by (subst bit_count.simps) simp
    ultimately show ?thesis unfolding power_Suc by auto
  qed
qed

lemma bit_count_rat:
  assumes "0 < n"
  shows "2 ^ bit_count n \<le> (2::rat) * of_nat n" "of_nat n < (2::rat) ^ bit_count n"
proof -
  from bit_count_bounds [OF assms] have "of_nat (2 ^ bit_count n) \<le> (of_nat (2 * n) :: rat)" "(of_nat n :: rat) < of_nat (2 ^ bit_count n)"
    unfolding of_nat_le_iff of_nat_less_iff by simp_all
  then show "2 ^ bit_count n \<le> (2::rat) * of_nat n" "of_nat n < (2::rat) ^ bit_count n" by simp_all
qed

lemma positive_quotient:
  assumes "0 < x" "quotient_of x = (a, b)"
  obtains m n where "a = int m" "b = int n" "0 < m" "0 < n" "x = of_nat m / of_nat n"
proof -
  have b: "0 < b" using quotient_of_denom_pos [OF assms(2)] .
  have x: "x = of_int a / of_int b" using quotient_of_div [OF assms(2)] .
  with assms(1) b have "0 < a" by (simp add: zero_less_divide_iff)
  with b x show thesis by (intro that [of "nat a" "nat b"]) simp_all
qed

lemma exponent_bounds:
  assumes "0 < x"
  shows "two_to (exponent x) \<le> x" "x < two_to (exponent x + 1)"
proof -
  obtain a b where q: "quotient_of x = (a, b)" by force
  from positive_quotient [OF assms q] obtain m n where mn: "a = int m" "b = int n" "0 < m" "0 < n" "x = of_nat m / of_nat n" .
  let ?k = "int (bit_count m) - int (bit_count n)"
  have m: "2 ^ bit_count m \<le> (2::rat) * of_nat m" "of_nat m < (2::rat) ^ bit_count m"
    and n: "2 ^ bit_count n \<le> (2::rat) * of_nat n" "of_nat n < (2::rat) ^ bit_count n"
    using bit_count_rat [OF mn(3)] bit_count_rat [OF mn(4)] by simp_all
  have low: "two_to (?k - 1) \<le> x"
  proof -
    have "two_to (?k - 1) = 2 ^ bit_count m / 2 ^ bit_count n / 2"
      using two_to_Suc [of "?k - 1"] two_to_diff [of "bit_count m" "bit_count n"] by simp
    also have "\<dots> \<le> of_nat m / of_nat n"
      using m(1) n(2) mn(3,4) frac_le [of "of_nat m :: rat" "2 ^ bit_count m / 2" "of_nat n" "2 ^ bit_count n"] by simp
    finally show ?thesis using mn(5) by simp
  qed
  have high: "x < two_to (?k + 1)"
  proof -
    have "of_nat m / of_nat n < 2 * (2 ^ bit_count m / (2 ^ bit_count n :: rat))"
      using m(2) n(1) mn(3,4) frac_less [of "of_nat m :: rat" "2 ^ bit_count m" "2 ^ bit_count n / 2" "of_nat n"] by (simp add: mult.commute)
    then show ?thesis using mn(5) two_to_Suc [of ?k] two_to_diff [of "bit_count m" "bit_count n"] by simp
  qed
  show "two_to (exponent x) \<le> x" "x < two_to (exponent x + 1)"
    using low high q mn(1,2) by (auto simp: exponent_def Let_def)
qed

text \<open>A double is off by at most half a unit in its last of 53 bits (or of the smallest number).\<close>

lemma double_of_near:
  assumes "0 < x" "double_of x = Finite v"
  shows "0 \<le> v \<and> \<bar>v - x\<bar> \<le> two_to (max (- 1074) (exponent x - 52)) / 2"
proof -
  define e r where "e = max (- 1074) (exponent x - 52)" and "r = of_int (round_even (x / two_to e)) - x / two_to e"
  from assms(2) have v: "v = of_int (round_even (x / two_to e)) * two_to e"
    by (auto simp: double_of_def e_def Let_def split: if_splits)
  then have "v - x = r * two_to e" by (simp add: r_def left_diff_distrib less_imp_neq [symmetric])
  then have "\<bar>v - x\<bar> = \<bar>r\<bar> * two_to e" by (simp only: abs_mult abs_of_pos [OF two_to_pos])
  also have "\<dots> \<le> 1 / 2 * two_to e"
    unfolding r_def by (intro mult_right_mono round_even_near less_imp_le two_to_pos)
  finally have "\<bar>v - x\<bar> \<le> two_to e / 2" by (simp only: times_divide_eq_left mult_1)
  moreover have "0 \<le> round_even (x / two_to e)"
    by (intro round_even_nonneg divide_nonneg_nonneg less_imp_le [OF assms(1)] less_imp_le [OF two_to_pos])
  then have "0 \<le> v" unfolding v by (intro mult_nonneg_nonneg less_imp_le [OF two_to_pos]) simp
  ultimately show ?thesis unfolding e_def by blast
qed

section \<open>Whole numbers\<close>

lemma decimal_char: "n < 10 \<Longrightarrow> py_digit (char_of (48 + n)) \<and> code (char_of (48 + n)) = 48 + n" for n :: nat
  by (simp add: py_digit_def code_char_of)

lemma digits_value_snoc: "digits_value (s @ [c]) = 10 * digits_value s + int (code c - 48)"
  by (simp add: digits_value_def)

lemma str_of_nat_step: "10 \<le> n \<Longrightarrow> str_of_nat n = str_of_nat (n div 10) @ [char_of (48 + n mod 10)]"
  by (simp add: str_of_nat.simps [of n])

lemma str_of_nat_reads: "digits (str_of_nat n) \<and> digits_value (str_of_nat n) = int n"
proof (induction n rule: str_of_nat.induct)
  case (1 n)
  show ?case
  proof (cases "n < 10")
    case True
    then show ?thesis using decimal_char [OF True]
      by (simp add: str_of_nat.simps [of n] digits_def digits_value_def)
  next
    case False
    with 1 have "digits (str_of_nat (n div 10))" "digits_value (str_of_nat (n div 10)) = int (n div 10)" by auto
    moreover have "10 * int (n div 10) + int (n mod 10) = int n" by presburger
    ultimately show ?thesis
      using False decimal_char [of "n mod 10"] by (simp add: str_of_nat_step digits_def digits_value_snoc)
  qed
qed

lemma str_of_nat_length: "0 < n \<Longrightarrow> 10 ^ (length (str_of_nat n) - 1) \<le> n \<and> n < 10 ^ length (str_of_nat n)"
proof (induction n rule: str_of_nat.induct)
  case (1 n)
  show ?case
  proof (cases "n < 10")
    case True
    with 1(2) show ?thesis by (simp add: str_of_nat.simps [of n])
  next
    case False
    with 1 have IH: "10 ^ (length (str_of_nat (n div 10)) - 1) \<le> n div 10" "n div 10 < 10 ^ length (str_of_nat (n div 10))" by auto
    have "length (str_of_nat (n div 10)) \<noteq> 0" by (simp add: str_of_nat.simps [of "n div 10"])
    then have "(10::nat) ^ length (str_of_nat (n div 10)) = 10 * 10 ^ (length (str_of_nat (n div 10)) - 1)"
      by (cases "length (str_of_nat (n div 10))") auto
    moreover have "10 * P \<le> n \<and> n < 100 * P" if "P \<le> n div 10" "n div 10 < 10 * P" for P :: nat
      using that by auto
    ultimately show ?thesis using IH False by (simp add: str_of_nat_step)
  qed
qed

lemma digits_plain:
  assumes "digits s"
  shows "strip s = s" "lower s = s" "\<not> startswith s ''-''" "\<not> startswith s ''+''" "underscores_ok b s"
    "filter (\<lambda>c. c \<noteq> CHR ''_'') s = s" "s \<noteq> ''inf''" "s \<noteq> ''infinity''" "s \<noteq> ''nan''"
    "decimal_of_str s = Some (of_int (digits_value s))"
proof -
  from assms have digit: "py_digit c" if "c \<in> set s" for c using that by (auto simp: digits_def list_all_iff)
  then have plain: "c \<noteq> CHR ''_''" "c \<noteq> CHR ''-''" "c \<noteq> CHR ''+''" "c \<noteq> CHR ''e''" "c \<noteq> CHR ''E''" "c \<noteq> CHR ''i''" "c \<noteq> CHR ''n''"
    "\<not> py_space c" "py_lower_char c = c" if "c \<in> set s" for c
    using digit [OF that] by (auto simp: py_digit_def code_def py_space_def py_lower_char_def Let_def)
  show "strip s = s" using plain by (intro strip_no_space) auto
  show "lower s = s" using plain by (simp add: lower_def map_idI)
  show "\<not> startswith s ''-''" "\<not> startswith s ''+''"
    using plain(2) [of "CHR ''-''"] plain(3) [of "CHR ''+''"] by (auto simp: startswith_iff)
  have "list_all (\<lambda>c. c \<noteq> CHR ''_'') s \<Longrightarrow> underscores_ok b s" by (induction s arbitrary: b) auto
  then show "underscores_ok b s" using plain by (simp add: list_all_iff)
  show "filter (\<lambda>c. c \<noteq> CHR ''_'') s = s" using plain by (simp add: filter_id_conv)
  show "s \<noteq> ''inf''" "s \<noteq> ''infinity''" "s \<noteq> ''nan''"
    using plain(7) [of "CHR ''n''"] by auto
  have parts: "takeWhile (\<lambda>c. \<not> (c = CHR ''e'' \<or> c = CHR ''E'')) s = s" "dropWhile (\<lambda>c. \<not> (c = CHR ''e'' \<or> c = CHR ''E'')) s = []"
    "takeWhile py_digit s = s" "dropWhile py_digit s = []"
    using plain digit by (auto simp: takeWhile_eq_all_conv)
  show "decimal_of_str s = Some (of_int (digits_value s))"
    using assms by (simp only: decimal_of_str_def Let_def parts) (simp add: digits_def ten_to_def)
qed

lemma double_of_nat:
  assumes "0 < n" "n < 2 ^ 53"
  shows "double_of (of_nat n) = Finite (of_nat n)"
proof -
  define e where "e = max (- 1074) (exponent (of_nat n) - 52)"
  have small: "of_nat n < (2::rat) ^ 53" using assms(2) by (metis of_nat_less_iff of_nat_numeral of_nat_power)
  have "two_to (exponent (of_nat n)) \<le> of_nat n" using exponent_bounds(1) [of "of_nat n"] assms(1) by simp
  with small have "two_to (exponent (of_nat n)) < 2 ^ 53" by linarith
  then have "exponent (of_nat n) < 53"
  proof (rule contrapos_pp)
    assume "\<not> exponent (of_nat n) < 53"
    then have "(2::rat) ^ 53 \<le> 2 ^ nat (exponent (of_nat n))" by (intro power_increasing) auto
    then show "\<not> two_to (exponent (of_nat n)) < 2 ^ 53" using \<open>\<not> exponent (of_nat n) < 53\<close> by (simp add: two_to_def)
  qed
  then have "e \<le> 0" by (simp add: e_def)
  then have "of_nat n / two_to e = of_int (int n * 2 ^ nat (- e))" by (auto simp: two_to_def)
  then have "of_int (round_even (of_nat n / two_to e)) * two_to e = (of_nat n / two_to e) * two_to e" by (metis round_even_int)
  also have "\<dots> = of_nat n" using less_imp_neq [OF two_to_pos [of e]] by simp
  finally have v: "of_int (round_even (of_nat n / two_to e)) * two_to e = of_nat n" .
  have "(2::rat) ^ 53 \<le> two_to 1024" unfolding two_to_def by simp
  with small have "\<not> two_to 1024 \<le> of_nat n" by linarith
  then show ?thesis by (simp only: double_of_def Let_def v if_False flip: e_def)
qed

lemma float_of_whole:
  assumes "0 < n" "n < 2 ^ 53"
  shows "float_of_str (str_of_nat n) = Some (Finite (of_nat n))"
  using str_of_nat_reads [of n] digits_plain [of "str_of_nat n"] double_of_nat [OF assms] assms(1)
  by (simp add: float_of_str_def Let_def)

lemma str_of_nat_shift: "0 < n \<Longrightarrow> str_of_nat (n * 10 ^ j) = str_of_nat n @ replicate j (CHR ''0'')"
proof (induction j)
  case (Suc j)
  have "10 \<le> n * 10 ^ Suc j" using Suc.prems by (simp add: Suc_leI)
  moreover have "(char_of (48 :: nat) :: char) = CHR ''0''" by code_simp
  ultimately show ?case using Suc by (simp add: str_of_nat_step replicate_append_same)
qed simp

lemma strip_zeros_whole:
  assumes "digits s"
  shows "strip_zeros (s @ ''.'' @ replicate j (CHR ''0'')) = s"
proof -
  have "dropWhile (\<lambda>c. c = CHR ''0'') (replicate j (CHR ''0'') @ r) = dropWhile (\<lambda>c. c = CHR ''0'') r" for r
    by (induction j) simp_all
  then show ?thesis by (simp add: strip_zeros_def strip_while_def Let_def)
qed

lemma format_whole:
  assumes "0 < n" "n < 10 ^ 6"
  shows "format_g (Finite (of_nat n)) = str_of_nat n"
proof -
  let ?l = "length (str_of_nat n)"
  note len = str_of_nat_length [OF assms(1)]
  have l: "1 \<le> ?l" using str_of_nat_reads [of n] by (cases "str_of_nat n") (auto simp: digits_def)
  have "?l \<le> 6"
  proof (rule ccontr)
    assume "\<not> ?l \<le> 6"
    then have "(10::nat) ^ 6 \<le> 10 ^ (?l - 1)" by (intro power_increasing) auto
    with len assms(2) show False by linarith
  qed
  have q: "quotient_of (of_nat n) = (int n, 1)" using quotient_of_int [of "int n"] by simp
  have "str_of_int 1 = ''1''" by code_simp
  moreover have "ten_to (int ?l - 1) \<le> of_nat n"
  proof -
    have "ten_to (int ?l - 1) = of_nat (10 ^ (?l - 1))" using l by (simp add: ten_to_def nat_diff_distrib Suc_le_eq)
    then show ?thesis using len by (simp only: of_nat_le_iff)
  qed
  ultimately have dec: "decade (of_nat n) = int ?l - 1"
    by (simp add: decade_def q Let_def str_of_int_def)
  have j: "int ?l - 1 - 5 = - int (6 - ?l)" using \<open>?l \<le> 6\<close> by simp
  have "of_nat n / ten_to (decade (of_nat n) - 5) = of_int (int (n * 10 ^ (6 - ?l)))"
    unfolding dec j by (cases "6 - ?l") (simp_all add: ten_to_def nat_add_distrib)
  then obtain N where N: "N = int (n * 10 ^ (6 - ?l))" "round_even (of_nat n / ten_to (decade (of_nat n) - 5)) = N"
    by (simp only: round_even_int)
  have "n * 10 ^ (6 - ?l) < 10 ^ ?l * 10 ^ (6 - ?l)" using len by simp
  also have "\<dots> = 10 ^ 6" using \<open>?l \<le> 6\<close> by (simp flip: power_add)
  finally have "N < int (10 ^ 6)" unfolding N(1) of_nat_less_iff .
  then have "N \<noteq> 1000000" by simp
  moreover have "str_of_int N = str_of_nat n @ replicate (6 - ?l) (CHR ''0'')"
    using str_of_nat_shift [OF assms(1), of "6 - ?l"] by (simp add: N(1) str_of_int_def del: of_nat_mult)
  moreover have "nat (int ?l - 1) + 1 = ?l" using l by simp
  ultimately have "format_positive (of_nat n) = strip_zeros (str_of_nat n @ ''.'' @ replicate (6 - ?l) (CHR ''0''))"
    using l \<open>?l \<le> 6\<close> unfolding format_positive_def N(2) unfolding dec by (auto simp: Suc_le_eq)
  then show ?thesis
    using strip_zeros_whole str_of_nat_reads [of n] assms(1) by (simp add: format_g_def)
qed

end
