(* ===== verification/Hardware_Details.thy ===== *)
theory Hardware_Details
  imports Hardware_Spec Py_Float
begin

text \<open>
  \<open>src/fleetboot/reporter/hardware_details.py\<close>: what the booted image tells about its processor, board and
  disks. The kernel's \<open>/sys\<close> tree is a record of what reading, listing, resolving and testing a path
  yields; a path is a string and \<open>None\<close> is an \<open>OSError\<close>. Floats are those of \<open>Py_Float\<close>. A \<open>RuntimeError\<close> stands for
  an exception that nothing on the way catches.
\<close>

section \<open>Helpers\<close>

record sys_tree =
  read_file :: "string \<Rightarrow> string option"
  list_dir :: "string \<Rightarrow> string list option"
  realpath :: "string \<Rightarrow> string"
  path_exists :: "string \<Rightarrow> bool"

definition path_join :: "string \<Rightarrow> string \<Rightarrow> string" where
  "path_join p name = (if p = ''/'' then ''/'' @ name else p @ ''/'' @ name)"

definition path_parent :: "string \<Rightarrow> string" where
  \<comment> \<open>\<open>Path.parent\<close> of an absolute path\<close>
  "path_parent p = (case rfind_split ''/'' p of None \<Rightarrow> ''.'' | Some (a, b) \<Rightarrow> if a = [] then ''/'' else a)"

definition read_text :: "sys_tree \<Rightarrow> string \<Rightarrow> string option" where
  \<comment> \<open>\<open>_read_text\<close>\<close>
  "read_text sys p = Option.bind (read_file sys p) (\<lambda>t. none_if_empty (strip t))"

definition as_int :: "string option \<Rightarrow> int option" where
  "as_int v = Option.bind v int_of_str"

definition as_float :: "string option \<Rightarrow> py_float option" where
  "as_float v = Option.bind v float_of_str"

definition py_round :: "py_float \<Rightarrow> int result" where
  \<comment> \<open>\<open>round\<close>: to the nearest whole number, halves to the even one\<close>
  "py_round v = (case v of
     Finite x \<Rightarrow> Inr (round_even x)
   | Infinite negative \<Rightarrow> Inl (RuntimeError ''cannot convert float infinity to integer'')
   | Not_A_Number \<Rightarrow> Inl (RuntimeError ''cannot convert float NaN to integer''))"

section \<open>Processor\<close>

definition lscpu_fields :: "string \<Rightarrow> string pydict" where
  \<comment> \<open>\<open>setdefault\<close>: the first line with a key counts\<close>
  "lscpu_fields output = fold (\<lambda>line given. case find_split '':'' line of
       None \<Rightarrow> given
     | Some (key, val) \<Rightarrow> if dict_get given (strip key) = None then dict_set (strip key) (strip val) given else given)
     (splitlines output) []"

definition cpuinfo_model :: "string \<Rightarrow> string option result" where
  \<comment> \<open>a line without a colon raises \<open>IndexError\<close>, which nothing catches\<close>
  "cpuinfo_model cpuinfo = (case List.find (\<lambda>line. startswith line ''model name'') (splitlines cpuinfo) of
     None \<Rightarrow> Inr None
   | Some line \<Rightarrow> (case find_split '':'' line of
       None \<Rightarrow> Inl (RuntimeError ''list index out of range'')
     | Some (key, val) \<Rightarrow> Inr (none_if_empty (strip val))))"

definition put_fact :: "string \<Rightarrow> json option \<Rightarrow> json pydict \<Rightarrow> json pydict" where
  "put_fact key v details = (case v of None \<Rightarrow> details | Some x \<Rightarrow> dict_set key x details)"

definition cpu_facts :: "string pydict \<Rightarrow> string option \<Rightarrow> json pydict result" where
  "cpu_facts given model =
     (let details = put_fact ''model'' (map_option JStr model) [];
          details = put_fact ''vendor'' (map_option JStr (none_if_empty (opt_str (dict_get given ''Vendor ID'')))) details;
          threads = as_int (dict_get given ''CPU(s)'');
          sockets = as_int (dict_get given ''Socket(s)'');
          cores_per_socket = as_int (dict_get given ''Core(s) per socket'');
          sockets = (case sockets of None \<Rightarrow> as_int (dict_get given ''Cluster(s)'') | Some n \<Rightarrow> Some n);
          details = put_fact ''threads'' (map_option JInt threads) details;
          details = put_fact ''sockets'' (map_option JInt sockets) details;
          details = put_fact ''cores'' (case (sockets, cores_per_socket) of (Some a, Some b) \<Rightarrow> Some (JInt (a * b)) | _ \<Rightarrow> None) details
      in case as_float (dict_get given ''CPU max MHz'') of
           None \<Rightarrow> Inr details
         | Some mhz \<Rightarrow> map_sum id (\<lambda>n. dict_set ''max_mhz'' (JInt n) details) (py_round mhz))"

definition cpu_details :: "string \<Rightarrow> string \<Rightarrow> json pydict result" where
  "cpu_details lscpu_output cpuinfo_text =
     (let given = lscpu_fields lscpu_output in
      if truthy (dict_get given ''Model name'') then cpu_facts given (dict_get given ''Model name'')
      else case cpuinfo_model cpuinfo_text of Inl e \<Rightarrow> Inl e | Inr model \<Rightarrow> cpu_facts given model)"

definition exn_text :: "exn \<Rightarrow> string" where
  "exn_text e = (case e of RuntimeError t \<Rightarrow> t | ValueError t \<Rightarrow> t | _ \<Rightarrow> [])"

section \<open>Board\<close>

definition MOTHERBOARD_FIELDS :: "(string \<times> string) list" where
  "MOTHERBOARD_FIELDS =
     [(''sys_vendor'', ''system_vendor''), (''product_name'', ''system_product''), (''product_version'', ''system_version''),
      (''board_vendor'', ''board_vendor''), (''board_name'', ''board_name''), (''board_version'', ''board_version''),
      (''bios_vendor'', ''bios_vendor''), (''bios_version'', ''bios_version''), (''bios_date'', ''bios_date'')]"

definition DMI_PLACEHOLDERS :: "string list" where
  "DMI_PLACEHOLDERS = ['''', ''default string'', ''to be filled by o.e.m.'', ''not applicable'', ''not specified'',
     ''system product name'', ''system manufacturer'', ''system version'', ''none'', ''0'', ''0123456789'', ''x.x'']"

definition board_step :: "sys_tree \<Rightarrow> string \<Rightarrow> string \<times> string \<Rightarrow> json pydict \<Rightarrow> json pydict" where
  "board_step sys dmi entry details = (case read_text sys (path_join dmi (fst entry)) of
     None \<Rightarrow> details
   | Some v \<Rightarrow> if lower v \<in> set DMI_PLACEHOLDERS then details else dict_set (snd entry) (JStr v) details)"

definition motherboard_details :: "sys_tree \<Rightarrow> string \<Rightarrow> string \<Rightarrow> json pydict" where
  "motherboard_details sys dmi device_tree_model =
     (let details = fold (board_step sys dmi) MOTHERBOARD_FIELDS [] in
      if dict_get details ''system_product'' \<noteq> None then details
      else case read_text sys device_tree_model of
        None \<Rightarrow> details
      | Some model \<Rightarrow> dict_set ''system_product'' (JStr (strip (rstrip_char (CHR 0x00) model))) details)"

section \<open>Disks\<close>

definition NOT_A_DISK_PREFIXES :: "string list" where
  "NOT_A_DISK_PREFIXES = [''loop'', ''ram'', ''sr'', ''fd'', ''dm-'', ''zram'', ''md'', ''nbd'']"

fun ata_port :: "string \<Rightarrow> string option" where
  \<comment> \<open>the digits in the first match of \<open>/ata\d+/\<close>\<close>
  "ata_port [] = None"
| "ata_port (c # cs) =
     (let number = takeWhile py_digit (drop 4 (c # cs)) in
      if startswith (c # cs) ''/ata'' \<and> number \<noteq> [] \<and> startswith (drop (4 + length number) (c # cs)) ''/''
      then Some number else ata_port cs)"

definition connection_of :: "string \<Rightarrow> string \<Rightarrow> string" where
  "connection_of name device_path =
     (if contains_str ''/usb'' device_path then ''usb''
      else if startswith name ''nvme'' then ''nvme''
      else if startswith name ''mmcblk'' then ''mmc''
      else if startswith name ''vd'' \<or> contains_str ''/virtio'' device_path then ''virtio''
      else if ata_port device_path \<noteq> None then ''sata''
      else ''sas_or_scsi'')"

definition media_of :: "sys_tree \<Rightarrow> string \<Rightarrow> string \<Rightarrow> string" where
  "media_of sys conn disk_directory =
     (if conn = ''nvme'' then ''ssd'' else if conn = ''mmc'' then ''flash'' else if conn = ''virtio'' then ''virtual''
      else if read_text sys (path_join (path_join disk_directory ''queue'') ''rotational'') = Some ''1'' then ''hdd'' else ''ssd'')"

function usb_device :: "sys_tree \<Rightarrow> string \<Rightarrow> string option" where
  \<comment> \<open>the first of \<open>Path(device_path).parents\<close> that carries a vendor id\<close>
  "usb_device sys p =
     (let up = path_parent p in
      if length p \<le> length up then None
      else if path_exists sys (path_join up ''idVendor'') then Some up else usb_device sys up)"
  by pat_completeness auto
termination
  by (relation "measure (\<lambda>(sys, p). length p)") auto

declare usb_device.simps [simp del]

function replace_all :: "string \<Rightarrow> string \<Rightarrow> string \<Rightarrow> string" where
  \<comment> \<open>\<open>str.replace\<close> of a non-empty text\<close>
  "replace_all old new s = (case find_split old s of
     None \<Rightarrow> s
   | Some (a, b) \<Rightarrow> if old = [] then s else a @ new @ replace_all old new b)"
  by pat_completeness auto
termination
  by (relation "measure (\<lambda>(old, new, s). length s)") (auto dest!: find_split_Some)

declare replace_all.simps [simp del]

definition link_speed :: "sys_tree \<Rightarrow> string \<Rightarrow> string \<Rightarrow> string \<Rightarrow> string option" where
  "link_speed sys conn device_path system_root =
     (if conn = ''sata'' \<and> ata_port device_path \<noteq> None
      then read_text sys (path_join (path_join (path_join (path_join system_root ''class'') ''ata_link'')
             (''link'' @ opt_str (ata_port device_path))) ''sata_spd'')
      else if conn = ''nvme''
      then (let pci = path_parent (path_parent (path_parent device_path));
                width = read_text sys (path_join pci ''current_link_width'')
            in map_option (\<lambda>speed. ''PCIe '' @ replace_all '' PCIe'' [] speed @ (if width = None then [] else '' x'' @ opt_str width))
                 (read_text sys (path_join pci ''current_link_speed'')))
      else if conn = ''usb''
      then Option.bind (usb_device sys device_path)
             (\<lambda>d. map_option (\<lambda>speed. ''USB '' @ speed @ '' Mbps'') (read_text sys (path_join d ''speed'')))
      else None)"

definition disk_identity :: "sys_tree \<Rightarrow> string \<Rightarrow> json pydict \<Rightarrow> json pydict" where
  \<comment> \<open>the loop over the files of the device directory; the first value for a name counts\<close>
  "disk_identity sys device_directory disk = fold (\<lambda>(file, reported) disk. case read_text sys (path_join device_directory file) of
       None \<Rightarrow> disk
     | Some v \<Rightarrow> if dict_get disk reported = None then dict_set reported (JStr v) disk else disk)
     [(''vendor'', ''vendor''), (''model'', ''model''), (''rev'', ''firmware''), (''firmware_rev'', ''firmware'')] disk"

definition drop_bus_vendor :: "json pydict \<Rightarrow> json pydict" where
  \<comment> \<open>\<open>disk.get("vendor", "").upper() == "ATA"\<close>\<close>
  "drop_bus_vendor disk = (case dict_get disk ''vendor'' of
     Some (JStr v) \<Rightarrow> if lower v = ''ata'' then AList.delete ''vendor'' disk else disk | _ \<Rightarrow> disk)"

definition disk_facts :: "sys_tree \<Rightarrow> string \<Rightarrow> string \<Rightarrow> int \<Rightarrow> json pydict" where
  "disk_facts sys system_root name sectors =
     (let disk_directory = path_join (path_join system_root ''block'') name;
          device_path = realpath sys disk_directory;
          conn = connection_of name device_path;
          disk = [(''name'', JStr name), (''size_bytes'', JInt (sectors * 512)), (''size_gb'', JInt (sectors * 512 div 1024 ^ 3)),
            (''connection'', JStr conn), (''media'', JStr (media_of sys conn disk_directory)),
            (''removable'', JBool (read_text sys (path_join disk_directory ''removable'') = Some ''1''))];
          disk = drop_bus_vendor (disk_identity sys (path_join disk_directory ''device'') disk);
          disk = (if dict_get disk ''model'' = None then dict_set ''model'' (JStr []) disk else disk)
      in put_fact ''link_speed'' (map_option JStr (link_speed sys conn device_path system_root)) disk)"

definition disk_details :: "sys_tree \<Rightarrow> string \<Rightarrow> json pydict list" where
  "disk_details sys system_root = (case list_dir sys (path_join system_root ''block'') of
     None \<Rightarrow> []
   | Some names \<Rightarrow> List.map_filter (\<lambda>name.
       if list_ex (\<lambda>p. startswith name p) NOT_A_DISK_PREFIXES then None
       else map_option (disk_facts sys system_root name)
         (as_int (read_text sys (path_join (path_join (path_join system_root ''block'') name) ''size''))))
       (sort names))"

end
