(* ===== verification/Reporter.thy ===== *)
theory Reporter
  imports Grub_Template Http_Client Hardware_Details
begin

text \<open>
  The reporter in the booted image, \<open>src/fleetboot/reporter/report.py\<close>. A \<open>booted_image\<close> is what it can
  read and run: files, the host name, the outputs of commands (\<open>None\<close> is an exception that \<open>_run\<close> swallows)
  and the file systems. What it changes is a \<open>reporter_state\<close>: the state of the server, the file with
  the last reported state, and the programs it started.

  \<open>Crash_With\<close> is an exception nothing in the module catches. Text files are read with universal newlines,
  so a carriage return does not occur in \<open>file_lines\<close>.
\<close>

section \<open>The image\<close>

record booted_image =
  hostname_now :: "string option"
  file_text :: "string \<Rightarrow> string option"
  command :: "string list \<Rightarrow> string option"
  cpu_count :: "nat option"
  is_mount :: "string \<Rightarrow> bool"
  statvfs :: "string \<Rightarrow> (nat \<times> nat \<times> nat) option"   \<comment> \<open>fragment size, blocks, blocks available\<close>
  sysfs :: sys_tree
  run_writable :: bool                           \<comment> \<open>can \<open>/run/fleetboot\<close> be written?\<close>
  has_program :: "string \<Rightarrow> bool"

record 'w reporter_state =
  rp_server :: 'w
  rp_current_state :: "string option"
  rp_started :: "string list list"

datatype reporter_error = ReportFailedError string | HTTPError | Missing_Settings string | Crash_With string

definition run :: "booted_image \<Rightarrow> string list \<Rightarrow> string" where
  \<comment> \<open>\<open>_run\<close>\<close>
  "run img argv = opt_str (command img argv)"

definition BORING_NAMES :: "string list" where
  "BORING_NAMES = ['''', ''localhost'', ''(none)'', ''none'', ''debian'', ''debian-live'', ''fakemachine'',
     ''fleetboot'', ''fleetboot-client'']"

definition current_hostname :: "booted_image \<Rightarrow> string option" where
  "current_hostname img = (case hostname_now img of
     None \<Rightarrow> None
   | Some candidate \<Rightarrow> if lower candidate \<in> set BORING_NAMES then None else Some candidate)"

definition file_lines :: "string \<Rightarrow> string list" where
  "file_lines t = split_char newline t"

definition BOOT_VERSION_PATH :: string where "BOOT_VERSION_PATH = ''/etc/fleetboot/build-version''"

definition read_boot_version :: "booted_image \<Rightarrow> string option" where
  "read_boot_version img = Option.bind (file_text img BOOT_VERSION_PATH) (\<lambda>t. none_if_empty (strip (hd (file_lines t))))"

section \<open>Hardware\<close>

definition cpu_model_fact :: "string option \<Rightarrow> json pydict \<Rightarrow> reporter_error + json pydict" where
  "cpu_model_fact cpuinfo info = (case cpuinfo of
     None \<Rightarrow> Inr info
   | Some t \<Rightarrow> (case List.find (\<lambda>line. startswith line ''model name'') (file_lines t) of
       None \<Rightarrow> Inr info
     | Some line \<Rightarrow> (case find_split '':'' line of
         None \<Rightarrow> Inl (Crash_With ''list index out of range'')
       | Some (key, val) \<Rightarrow> Inr (dict_set ''cpu_model'' (JStr (strip val)) info))))"

datatype 'a stopped = Go_On 'a | Stop_Here 'a | Raise string

definition memory_figure :: "string \<Rightarrow> string \<Rightarrow> json pydict \<Rightarrow> json pydict stopped" where
  \<comment> \<open>\<open>info[key] = int(line.split()[1]) // 1024\<close>; a \<open>ValueError\<close> ends the loop quietly\<close>
  "memory_figure line key info = (case words line of
     (_ # w # _) \<Rightarrow> (case int_of_str w of None \<Rightarrow> Stop_Here info | Some kb \<Rightarrow> Go_On (dict_set key (JInt (kb div 1024)) info))
   | _ \<Rightarrow> Raise ''list index out of range'')"

fun memory_facts :: "string list \<Rightarrow> json pydict \<Rightarrow> reporter_error + json pydict" where
  "memory_facts [] info = Inr info"
| "memory_facts (line # ls) info =
     (let outcome = (if startswith line ''MemTotal:'' then memory_figure line ''mem_total_mb'' info
        else if startswith line ''MemAvailable:'' then memory_figure line ''mem_available_mb'' info else Go_On info)
      in case outcome of Go_On i \<Rightarrow> memory_facts ls i | Stop_Here i \<Rightarrow> Inr i | Raise t \<Rightarrow> Inl (Crash_With t))"

definition mount_facts :: "booted_image \<Rightarrow> json list" where
  "mount_facts img = List.map_filter (\<lambda>p.
     if p \<noteq> ''/'' \<and> \<not> is_mount img p then None
     else case statvfs img p of
       None \<Rightarrow> None
     | Some (frsize, blocks, bavail) \<Rightarrow>
         if frsize * blocks = 0 then None
         else Some (JObj [(''path'', JStr p), (''total_gb'', JInt (int (frsize * blocks div 1024 ^ 3))),
           (''free_gb'', JInt (int (frsize * bavail div 1024 ^ 3)))]))
     [''/'', ''/var/scratch'', ''/home'']"

datatype shlex_state = Outside | In_Word | In_Quote char | Escaped "char option"   \<comment> \<open>escaped in a quote, or in a word\<close>

fun shlex :: "shlex_state \<Rightarrow> string \<Rightarrow> bool \<Rightarrow> string \<Rightarrow> string list option" where
  \<comment> \<open>\<open>shlex.split\<close>: the word so far, and whether it had quotes; \<open>None\<close> is \<open>ValueError\<close>\<close>
  "shlex st w quoted [] = (case st of
     In_Quote q \<Rightarrow> None | Escaped e \<Rightarrow> None
   | _ \<Rightarrow> Some (if w = [] \<and> \<not> quoted then [] else [w]))"
| "shlex st w quoted (c # cs) = (case st of
     In_Quote q \<Rightarrow>
       if c = q then shlex In_Word w True cs
       else if c = CHR 0x5C \<and> q = CHR 0x22 then shlex (Escaped (Some q)) w True cs
       else shlex (In_Quote q) (w @ [c]) True cs
   | Escaped (Some q) \<Rightarrow> shlex (In_Quote q) (if c \<noteq> CHR 0x5C \<and> c \<noteq> q then w @ [CHR 0x5C, c] else w @ [c]) quoted cs
   | Escaped None \<Rightarrow> shlex In_Word (w @ [c]) quoted cs
   | _ \<Rightarrow>
       if c \<in> {CHR '' '', CHR 0x09, CHR 0x0D, CHR 0x0A}
       then (if w = [] \<and> \<not> quoted then shlex Outside [] False cs else map_option ((#) w) (shlex Outside [] False cs))
       else if c = CHR 0x5C then shlex (Escaped None) w quoted cs
       else if c \<in> {CHR 0x27, CHR 0x22} then shlex (In_Quote c) w quoted cs
       else shlex In_Word (w @ [c]) quoted cs)"

definition pci_class :: "string \<Rightarrow> string option" where
  "pci_class klass =
     (if contains_str ''vga'' klass \<or> contains_str ''3d'' klass \<or> contains_str ''display'' klass then Some ''gpu''
      else if contains_str ''network'' klass \<or> contains_str ''ethernet'' klass \<or> contains_str ''wireless'' klass then Some ''network''
      else if contains_str ''usb'' klass then Some ''usb''
      else if contains_str ''sata'' klass \<or> contains_str ''ide'' klass \<or> contains_str ''raid'' klass \<or> contains_str ''scsi'' klass
      then Some ''storage''
      else None)"

definition pci_device :: "string \<Rightarrow> (string \<times> string) option" where
  \<comment> \<open>the bucket and the label of a line of \<open>lspci -mm\<close>\<close>
  "pci_device line = (case shlex Outside [] False line of
     Some (_ # klass # vendor # device # _) \<Rightarrow> map_option (\<lambda>b. (b, vendor @ '' '' @ device)) (pci_class (lower klass))
   | _ \<Rightarrow> None)"

definition pci_facts :: "string \<Rightarrow> json pydict" where
  "pci_facts output =
     (let found = List.map_filter pci_device (splitlines output) in
      List.map_filter (\<lambda>b. let devices = map snd (filter (\<lambda>d. fst d = b) found) in
        if devices = [] then None else Some (b, JList (map JStr devices)))
        [''gpu'', ''network'', ''usb'', ''storage''])"

definition usb_facts :: "string \<Rightarrow> string list" where
  "usb_facts output = List.map_filter (\<lambda>line. if contains_str ''root hub'' (lower line) then None
     else map_option (\<lambda>(a, b). strip b) (find_split ''ID '' line)) (splitlines output)"

definition collect_hardware :: "booted_image \<Rightarrow> reporter_error + json pydict" where
  "collect_hardware img =
     (let cpuinfo = file_text img ''/proc/cpuinfo'' in
      case cpu_model_fact cpuinfo [] of Inl e \<Rightarrow> Inl e | Inr info \<Rightarrow>
      (let info = dict_set ''cpu_count'' (JInt (case cpu_count img of None \<Rightarrow> 0 | Some n \<Rightarrow> int n)) info in
       case (case file_text img ''/proc/meminfo'' of None \<Rightarrow> Inr info | Some t \<Rightarrow> memory_facts (file_lines t) info) of
         Inl e \<Rightarrow> Inl e
       | Inr info \<Rightarrow> (case cpu_details (run img [''lscpu'']) (opt_str cpuinfo) of
           Inl e \<Rightarrow> Inl (Crash_With (exn_text e))
         | Inr cpu \<Rightarrow>
             (let info = put_fact ''cpu'' (if cpu = [] then None else Some (JObj cpu)) info;
                  board = motherboard_details (sysfs img) ''/sys/class/dmi/id'' ''/proc/device-tree/model'';
                  info = put_fact ''motherboard'' (if board = [] then None else Some (JObj board)) info;
                  info = dict_set ''disks'' (JList (map JObj (disk_details (sysfs img) ''/sys''))) info;
                  info = dict_set ''mounts'' (JList (mount_facts img)) info;
                  info = dict_set ''pci'' (JObj (pci_facts (run img [''lspci'', ''-mm'']))) info
              in Inr (dict_set ''usb_devices'' (JList (map JStr (usb_facts (run img [''lsusb''])))) info)))))"


section \<open>Diagnostics\<close>

definition DIAGNOSTICS_MAX_BYTES :: nat where "DIAGNOSTICS_MAX_BYTES = 6 * 1024"

definition titled :: "string \<Rightarrow> string \<Rightarrow> string list" where
  \<comment> \<open>a section, unless its text is empty\<close>
  "titled title t = (if t = [] then [] else [title @ [newline] @ t])"

definition service_states :: "booted_image \<Rightarrow> string" where
  "service_states img = join [newline] (map (\<lambda>svc. ''  '' @ svc @ '': '' @ str_or (strip (run img [''systemctl'', ''is-active'', svc])) ''unknown'')
     [''display-manager.service'', ''lightdm.service'', ''ssh.service'', ''fleetboot-scratch-setup.service'', ''fleetboot-set-hostname.service''])"

definition last_lines :: "nat \<Rightarrow> string \<Rightarrow> string" where
  "last_lines n t = (let ls = splitlines t in join [newline] (drop (length ls - n) ls))"

definition diagnostic_sections :: "booted_image \<Rightarrow> string list" where
  "diagnostic_sections img =
     (let failed = strip (run img [''systemctl'', ''list-units'', ''--failed'', ''--no-legend'', ''--no-pager'']);
          dmesg = strip (run img [''dmesg'', ''--time-format=iso'', ''--ctime'', ''--no-pager'']);
          unit = hd (words (hd (splitlines failed)))
      in [''# systemctl --failed'' @ [newline] @ str_or failed ''(none)'',
          ''# key service states'' @ [newline] @ service_states img]
       @ titled ''# scratch-setup journal''
           (strip (run img [''journalctl'', ''-u'', ''fleetboot-scratch-setup.service'', ''-n'', ''30'', ''--no-pager'', ''--no-hostname'']))
       @ (if dmesg = [] then [] else [''# dmesg (last 50 lines)'' @ [newline] @ last_lines 50 dmesg])
       @ titled ''# journalctl (last 50 lines)'' (strip (run img [''journalctl'', ''-n'', ''50'', ''--no-pager'', ''--no-hostname'']))
       @ (if failed = [] then []
          else titled (''# recent journal for '' @ unit)
            (strip (run img [''journalctl'', ''-u'', unit, ''-n'', ''30'', ''--no-pager'', ''--no-hostname'']))))"

definition collect_diagnostics :: "booted_image \<Rightarrow> string option" where
  "collect_diagnostics img =
     (let body = join [newline, newline] (filter (\<lambda>s. s \<noteq> []) (diagnostic_sections img)) in
      if body = [] then None
      else Some (if DIAGNOSTICS_MAX_BYTES < length body
                 then take (DIAGNOSTICS_MAX_BYTES - 32) body @ [newline, CHR 0x85] @ ''(truncated)''
                 else body))"

section \<open>One report\<close>

definition USES_RELATIVE :: "string list" where
  \<comment> \<open>the schemes \<open>urljoin\<close> joins paths of\<close>
  "USES_RELATIVE = ['''', ''ftp'', ''http'', ''gopher'', ''nntp'', ''imap'', ''wais'', ''file'', ''https'', ''shttp'', ''mms'',
     ''prospero'', ''rtsp'', ''rtsps'', ''rtspu'', ''sftp'', ''svn'', ''svn+ssh'', ''ws'', ''wss'']"

definition status_url :: "string \<Rightarrow> string result" where
  \<comment> \<open>\<open>urljoin(server_url, "/status")\<close>: an absolute path replaces the one of the server's address\<close>
  "status_url base = (if base = [] then Inr ''/status'' else case urlparse base of
     Inl e \<Rightarrow> Inl e
   | Inr u \<Rightarrow>
       Inr (if url_scheme u \<notin> set USES_RELATIVE then ''/status''
            else (if url_scheme u = [] then [] else url_scheme u @ '':'')
              @ (if url_scheme u = [] \<and> url_netloc u = [] then [] else ''//'' @ url_netloc u) @ ''/status''))"

definition report_payload :: "booted_image \<Rightarrow> string \<Rightarrow> string option \<Rightarrow> json pydict \<Rightarrow> json pydict" where
  "report_payload img state detail hardware =
     (let text = (\<lambda>key v. put_fact key (map_option JStr v)) in
      put_fact ''hardware'' (if hardware = [] then None else Some (JObj hardware))
       (text ''diagnostics'' (collect_diagnostics img)
         (text ''boot_version'' (read_boot_version img)
           (text ''hostname'' (current_hostname img)
             (text ''detail'' detail [(''state'', JStr state)])))))"

definition remember_state :: "booted_image \<Rightarrow> string \<Rightarrow> 'w reporter_state \<Rightarrow> 'w reporter_state" where
  "remember_state img state w = (if run_writable img then w\<lparr>rp_current_state := Some (state @ [newline])\<rparr> else w)"

definition start_reboot :: "booted_image \<Rightarrow> 'w reporter_state \<Rightarrow> 'w reporter_state" where
  "start_reboot img w =
     (if has_program img ''systemctl'' then w\<lparr>rp_started := rp_started w @ [[''systemctl'', ''reboot'']]\<rparr>
      else if has_program img ''reboot'' then w\<lparr>rp_started := rp_started w @ [[''reboot'']]\<rparr> else w)"

definition send_report ::
  "'w post \<Rightarrow> booted_image \<Rightarrow> ReporterSettings \<Rightarrow> string \<Rightarrow> string option \<Rightarrow> 'w reporter_state
   \<Rightarrow> (reporter_error + http_response) \<times> 'w reporter_state" where
  \<comment> \<open>\<open>report_state\<close> up to the check of the status code\<close>
  "send_report post img settings state detail w = (case collect_hardware img of
     Inl e \<Rightarrow> (Inl e, w)
   | Inr hardware \<Rightarrow> (case status_url (server_url settings) of
       Inl e \<Rightarrow> (Inl (Crash_With ''Invalid IPv6 URL''), w)
     | Inr url \<Rightarrow> (case post url (report_payload img state detail hardware)
           [(''Authorization'', ''Bearer '' @ boot_token settings)] (rp_server w) of
         (None, s) \<Rightarrow> (Inl HTTPError, w\<lparr>rp_server := s\<rparr>)
       | (Some r, s) \<Rightarrow>
           (if 400 \<le> status_code r
            then Inl (ReportFailedError (''server returned '' @ str_of_nat (status_code r) @ '': '' @ rs_text r))
            else Inr r, w\<lparr>rp_server := s\<rparr>))))"

definition asks_for_reboot :: "http_response \<Rightarrow> reporter_error + bool" where
  \<comment> \<open>\<open>body = response.json() or {}\<close>, then \<open>body.get("pending_reboot")\<close>\<close>
  "asks_for_reboot r = (case rs_json r of
     Some (JObj body) \<Rightarrow> Inr (case dict_get body ''pending_reboot'' of None \<Rightarrow> False | Some v \<Rightarrow> py_true v)
   | None \<Rightarrow> Inr False
   | Some v \<Rightarrow> if py_true v then Inl (Crash_With ''no attribute get'') else Inr False)"

function report_state ::
  "'w post \<Rightarrow> booted_image \<Rightarrow> ReporterSettings \<Rightarrow> string \<Rightarrow> string option \<Rightarrow> bool \<Rightarrow> 'w reporter_state
   \<Rightarrow> (reporter_error + unit) \<times> 'w reporter_state" where
  "report_state post img settings state detail handle_pending_reboot w =
     (case send_report post img settings state detail w of
        (Inl e, w') \<Rightarrow> (Inl e, w')
      | (Inr r, w') \<Rightarrow>
          (let w'' = remember_state img state w' in
           if \<not> handle_pending_reboot then (Inr (), w'')
           else case asks_for_reboot r of
             Inl e \<Rightarrow> (Inl e, w'')
           | Inr False \<Rightarrow> (Inr (), w'')
           | Inr True \<Rightarrow>
               (case report_state post img settings ''rebooting'' (Some ''soft-reboot signal acknowledged'') False w'' of
                  (Inl (Crash_With t), acked) \<Rightarrow> (Inl (Crash_With t), acked)
                | (_, acked) \<Rightarrow> (Inr (), start_reboot img acked))))"
  by pat_completeness auto
termination
  by (relation "measure (\<lambda>(post, img, settings, state, detail, h, w). if h then 1 else 0)") auto

declare report_state.simps [simp del]

definition main :: "'w post \<Rightarrow> booted_image \<Rightarrow> string list \<Rightarrow> 'w reporter_state \<Rightarrow> (reporter_error + int) \<times> 'w reporter_state" where
  \<comment> \<open>the exit status; the messages on stderr are left out\<close>
  "main post img argv w =
     (if argv = [] \<or> 2 < length argv then (Inr 2, w)
      else let state = strip (hd argv) in
        if state = [] \<or> 64 < length state \<or> CHR '' '' \<in> set state then (Inr 2, w)
        else case file_text img ''/proc/cmdline'' of
          None \<Rightarrow> (Inl (Crash_With ''OSError''), w)
        | Some cmdline \<Rightarrow> (case parse_cmdline cmdline of
            Inl text \<Rightarrow> (Inr 1, w)
          | Inr settings \<Rightarrow>
              (case report_state post img settings state (if length argv = 2 then Some (argv ! 1) else None) True w of
                 (Inl (Crash_With t), w') \<Rightarrow> (Inl (Crash_With t), w')
               | (Inl e, w') \<Rightarrow> (Inr 1, w')
               | (Inr u, w') \<Rightarrow> (Inr 0, w'))))"


section \<open>What the server keeps of an inventory\<close>

lemma get_put_fact: "dict_get (put_fact key v d) k = (if k = key \<and> v \<noteq> None then v else dict_get d k)"
  by (auto simp: put_fact_def AList.update_conv' split: option.split)

lemma dict_get_set: "dict_get (dict_set key v d) k = (if k = key then Some v else dict_get d k)"
  by (simp add: AList.update_conv')

lemma memory_keeps: "memory_facts ls info = Inr info' \<Longrightarrow> k \<notin> {''mem_total_mb'', ''mem_available_mb''} \<Longrightarrow> dict_get info' k = dict_get info k"
proof (induction ls arbitrary: info)
  case (Cons l ls)
  then show ?case
    by (auto simp: memory_figure_def Let_def dict_get_set split: if_splits list.splits option.splits)
qed simp

lemma map_filter_get: "dict_get (List.map_filter (\<lambda>key. map_option (\<lambda>v. (key, v)) (dict_get d key)) keys) k
    = (if k \<in> set keys then dict_get d k else None)"
  by (induction keys) (auto simp: List.map_filter_simps split: option.split)

lemma disk_spec_get: "dict_get (disk_spec d) k = (if k \<in> set DISK_FIELDS then dict_get d k else None)"
  unfolding disk_spec_def by (rule map_filter_get)

definition only_disk_facts :: "json pydict \<Rightarrow> bool" where
  "only_disk_facts d \<longleftrightarrow> (\<forall>k. k \<notin> set DISK_FIELDS \<longrightarrow> dict_get d k = None)"

lemma only_disk_set: "only_disk_facts d \<Longrightarrow> key \<in> set DISK_FIELDS \<Longrightarrow> only_disk_facts (dict_set key v d)"
  by (auto simp: only_disk_facts_def dict_get_set)

lemma only_disk_put: "only_disk_facts d \<Longrightarrow> key \<in> set DISK_FIELDS \<Longrightarrow> only_disk_facts (put_fact key v d)"
  by (auto simp: only_disk_facts_def get_put_fact)

lemma only_disk_identity: "only_disk_facts d \<Longrightarrow> only_disk_facts (disk_identity sys p d)"
proof -
  let ?step = "\<lambda>(file, reported) disk. case read_text sys (path_join p file) of
       None \<Rightarrow> disk | Some v \<Rightarrow> if dict_get disk reported = None then dict_set reported (JStr v) disk else disk"
  have all: "only_disk_facts (fold ?step es d)" if "\<forall>e \<in> set es. snd e \<in> set DISK_FIELDS" "only_disk_facts d" for es d
    using that
  proof (induction es arbitrary: d)
    case (Cons e es)
    obtain f reported where e: "e = (f, reported)" by force
    from Cons.prems e have "only_disk_facts (?step e d)"
      by (auto split: option.split intro!: only_disk_set)
    with Cons show ?case by simp
  qed simp
  assume "only_disk_facts d"
  then show "only_disk_facts (disk_identity sys p d)"
    unfolding disk_identity_def by (intro all) (simp_all add: DISK_FIELDS_def)
qed

lemma disk_facts_keys: "only_disk_facts (disk_facts sys system_root name sectors)"
proof -
  have base: "only_disk_facts [(''name'', a), (''size_bytes'', b), (''size_gb'', c), (''connection'', d), (''media'', e), (''removable'', f)]"
    for a b c d e f by (simp add: only_disk_facts_def DISK_FIELDS_def)
  have drop: "only_disk_facts d \<Longrightarrow> only_disk_facts (drop_bus_vendor d)" for d
    by (auto simp: only_disk_facts_def drop_bus_vendor_def AList.delete_conv' split: option.split json.split)
  have "''model'' \<in> set DISK_FIELDS" "''link_speed'' \<in> set DISK_FIELDS" by (simp_all add: DISK_FIELDS_def)
  then show ?thesis
    unfolding disk_facts_def Let_def
    using base by (auto intro!: only_disk_put only_disk_set drop only_disk_identity)
qed

lemma disk_facts_kept: "dict_get (disk_spec (disk_facts sys system_root name sectors)) k = dict_get (disk_facts sys system_root name sectors) k"
  using disk_facts_keys [of sys system_root name sectors] by (simp add: disk_spec_get only_disk_facts_def)

lemma disk_details_kept: "d \<in> set (disk_details sys system_root) \<Longrightarrow> dict_get (disk_spec d) k = dict_get d k"
  by (auto simp: disk_details_def List.map_filter_def disk_facts_kept split: option.splits if_splits)

lemma board_distinct: "distinct (map fst (motherboard_details sys dmi model))"
proof -
  have "distinct (map fst (fold (board_step sys dmi) es d))" if "distinct (map fst d)" for es d
    using that
  proof (induction es arbitrary: d)
    case (Cons e es)
    have "distinct (map fst (board_step sys dmi e d))"
      using Cons.prems by (auto simp: board_step_def distinct_update split: option.split)
    with Cons.IH show ?case by simp
  qed simp
  from this [of "[]"] show ?thesis
    by (auto simp: motherboard_details_def Let_def distinct_update split: option.split)
qed

lemma filter_get:
  "distinct (map fst d) \<Longrightarrow> dict_get (filter (\<lambda>(k, v). P v) d) k = (case dict_get d k of None \<Rightarrow> None | Some v \<Rightarrow> if P v then Some v else None)"
  by (induction d) (auto simp: map_of_eq_None_iff split: option.split)

lemma collect_hardware_parts:
  assumes "collect_hardware img = Inr info"
  obtains cpu where "cpu_details (run img [''lscpu'']) (opt_str (file_text img ''/proc/cpuinfo'')) = Inr cpu"
    and "dict_get info ''cpu'' = (if cpu = [] then None else Some (JObj cpu))"
    and "dict_get info ''motherboard'' = (let board = motherboard_details (sysfs img) ''/sys/class/dmi/id'' ''/proc/device-tree/model''
        in if board = [] then None else Some (JObj board))"
    and "dict_get info ''disks'' = Some (JList (map JObj (disk_details (sysfs img) ''/sys'')))"
proof -
  obtain info1 where one: "cpu_model_fact (file_text img ''/proc/cpuinfo'') [] = Inr info1"
    using assms by (auto simp: collect_hardware_def Let_def split: sum.splits)
  let ?info2 = "dict_set ''cpu_count'' (JInt (case cpu_count img of None \<Rightarrow> 0 | Some n \<Rightarrow> int n)) info1"
  obtain info3 where three: "(case file_text img ''/proc/meminfo'' of None \<Rightarrow> Inr ?info2 | Some t \<Rightarrow> memory_facts (file_lines t) ?info2) = Inr info3"
    using assms one by (auto simp: collect_hardware_def Let_def split: sum.splits)
  obtain cpu where cpu: "cpu_details (run img [''lscpu'']) (opt_str (file_text img ''/proc/cpuinfo'')) = Inr cpu"
    using assms one three by (auto simp: collect_hardware_def Let_def split: sum.splits)
  have "dict_get info1 k = None" if "k \<noteq> ''cpu_model''" for k
    using one that by (auto simp: cpu_model_fact_def split: option.splits)
  then have fresh: "dict_get info3 ''cpu'' = None" "dict_get info3 ''motherboard'' = None"
    using three memory_keeps [of _ ?info2 info3] by (auto simp: dict_get_set split: option.splits)
  show ?thesis
    using assms one three cpu fresh
    by (intro that [OF cpu]) (auto simp: collect_hardware_def Let_def dict_get_set get_put_fact)
qed



definition example_image :: booted_image where
  \<comment> \<open>a machine with a broken \<open>/proc\<close> and one SATA disk\<close>
  "example_image = \<lparr>hostname_now = Some ''lab-7'', file_text = (\<lambda>p. if p = BOOT_VERSION_PATH then Some ''v7'' else None),
     command = (\<lambda>argv. None), cpu_count = Some 4, is_mount = (\<lambda>p. False), statvfs = (\<lambda>p. None),
     sysfs = \<lparr>read_file = (\<lambda>p. if p = ''/sys/block/sda/size'' then Some ''2000'' else None),
       list_dir = (\<lambda>p. Some [''sda'', ''loop0'']), realpath = id, path_exists = (\<lambda>p. False)\<rparr>,
     run_writable = True, has_program = (\<lambda>p. p = ''reboot'')\<rparr>"

lemma example_collects: "\<exists>info. collect_hardware example_image = Inr info"
proof -
  have cpu: "cpu_details [] [] = Inr []" by code_simp
  show ?thesis
    by (simp add: collect_hardware_def example_image_def cpu_model_fact_def run_def opt_str_def cpu BOOT_VERSION_PATH_def Let_def)
qed


section \<open>A report ends\<close>

definition logged :: "'w post \<Rightarrow> ('w \<times> json pydict list) post" where
  \<comment> \<open>the same server, with the bodies it was sent\<close>
  "logged post url body hs w = (case post url body hs (fst w) of (r, s) \<Rightarrow> (r, s, snd w @ [body]))"

lemma get_report_payload: "dict_get (report_payload img state detail hw) ''state'' = Some (JStr state)"
  by (simp add: report_payload_def Let_def get_put_fact)

definition can_send :: "booted_image \<Rightarrow> ReporterSettings \<Rightarrow> bool" where
  "can_send img settings \<longleftrightarrow> (\<exists>hw url. collect_hardware img = Inr hw \<and> status_url (server_url settings) = Inr url)"

lemma send_report_sends:
  assumes "send_report (logged post) img settings state detail w = (res, w')"
  shows "rp_started w' = rp_started w"
    and "if can_send img settings then \<exists>body. dict_get body ''state'' = Some (JStr state) \<and> snd (rp_server w') = snd (rp_server w) @ [body]
       else w' = w \<and> (\<exists>e. res = Inl e)"
proof -
  show "rp_started w' = rp_started w"
    using assms by (auto simp: send_report_def split: sum.splits prod.splits option.splits)
  show "if can_send img settings then \<exists>body. dict_get body ''state'' = Some (JStr state) \<and> snd (rp_server w') = snd (rp_server w) @ [body]
       else w' = w \<and> (\<exists>e. res = Inl e)"
  proof (cases "can_send img settings")
    case True
    then obtain hw url where ok: "collect_hardware img = Inr hw" "status_url (server_url settings) = Inr url"
      by (auto simp: can_send_def)
    have "snd (rp_server w') = snd (rp_server w) @ [report_payload img state detail hw]"
      using assms ok by (auto simp: send_report_def logged_def split: prod.splits option.splits)
    with True get_report_payload show ?thesis by auto
  next
    case False
    with assms show ?thesis
      by (auto simp: send_report_def can_send_def split: sum.splits)
  qed
qed

lemma ack_ends:
  assumes "report_state (logged post) img settings state detail False w = (res, w')" "can_send img settings"
  shows "rp_started w' = rp_started w"
    and "\<exists>body. dict_get body ''state'' = Some (JStr state) \<and> snd (rp_server w') = snd (rp_server w) @ [body]"
proof -
  obtain r s where s: "send_report (logged post) img settings state detail w = (r, s)" by force
  note sends = send_report_sends [OF s]
  have "rp_started w' = rp_started s \<and> rp_server w' = rp_server s"
    using assms(1) s by (auto simp: report_state.simps [of "logged post"] remember_state_def Let_def split: sum.splits if_splits)
  with sends assms(2) show "rp_started w' = rp_started w"
    "\<exists>body. dict_get body ''state'' = Some (JStr state) \<and> snd (rp_server w') = snd (rp_server w) @ [body]"
    by simp_all
qed



definition asks_again :: "nat post" where
  \<comment> \<open>a server that asks for a reboot in every answer, and counts them\<close>
  "asks_again url body hs n = (Some \<lparr>status_code = 200, rs_text = [], rs_json = Some (JObj [(''pending_reboot'', JBool True)])\<rparr>, Suc n)"


lemma base_path_of_server_is_dropped: "status_url ''http://h/fleet/'' = Inr ''http://h/status''"
  by code_simp

end
