(* ===== verification/Control_Plane.thy ===== *)
theory Control_Plane
  imports Tftp_Glue Reporter
begin

text \<open>
  The server as its clients see it: a request to one of the four routes the boot path uses, answered by the
  handler of \<open>src/fleetboot/server/app.py\<close> with its response model written as JSON. A \<open>site\<close> is the
  deployment at one moment: its configuration, the address it is reached under, the clock, the token
  the next mint draws, and the client's address. The text of a body is \<open>json.dumps\<close>, an argument.

  FastAPI takes a route's parameters from the path and the query and decodes percent escapes; addresses here
  are taken literally, which is the same for parameters that are \<open>url_safe\<close>. Times are numbers.

  The clients rely on the contracts \<open>minting\<close> and \<open>control_plane\<close>, which hold of the server's model.
\<close>

section \<open>Requests and answers\<close>

record site =
  st_cfg :: app_config
  st_base :: string
  st_now :: timestamp
  st_token :: string
  st_client :: "string option"
  st_dumps :: "json \<Rightarrow> string"

definition answer_of :: "(json \<Rightarrow> string) \<Rightarrow> nat \<Rightarrow> ('a \<Rightarrow> json) \<Rightarrow> 'a response \<Rightarrow> http_response" where
  "answer_of dumps success body r = (case r of
     Inr a \<Rightarrow> \<lparr>status_code = success, rs_text = dumps (body a), rs_json = Some (body a)\<rparr>
   | Inl (HTTPException c detail) \<Rightarrow>
       (let e = JObj [(''detail'', JStr detail)] in \<lparr>status_code = c, rs_text = dumps e, rs_json = Some e\<rparr>)
   | Inl Server_Error \<Rightarrow> \<lparr>status_code = 500, rs_text = ''Internal Server Error'', rs_json = None\<rparr>)"

definition mint_body :: "string \<times> string \<Rightarrow> json" where
  "mint_body r = JObj [(''token'', JStr (fst r)), (''mac'', JStr (snd r))]"

definition text_or_null :: "string option \<Rightarrow> json" where
  "text_or_null v = (case v of None \<Rightarrow> JNull | Some s \<Rightarrow> JStr s)"

definition record_body :: "MachineRecord \<Rightarrow> json" where
  "record_body r = JObj
     [(''mac'', JStr (rec_mac r)), (''profile_name'', JStr (rec_profile_name r)), (''architecture'', JStr (rec_architecture r)),
      (''platform'', JStr (rec_platform r)), (''serial_console'', JBool (rec_serial_console r)),
      (''enrolled_by'', JStr (rec_enrolled_by r)), (''hostname'', text_or_null (rec_hostname r)),
      (''hostname_seen_at'', case rec_hostname_seen_at r of None \<Rightarrow> JNull | Some t \<Rightarrow> JInt t),
      (''scratch_mode'', JStr (rec_scratch_mode r)), (''reboot_command'', text_or_null (rec_reboot_command r)),
      (''created_at'', JInt (rec_created_at r))]"

definition ack_body :: "StatusAcknowledgement \<Rightarrow> json" where
  "ack_body a = JObj [(''ok'', JBool True), (''mac'', JStr (ack_mac a)), (''state'', JStr (ack_state a)),
     (''pending_reboot'', JBool (ack_pending_reboot a))]"

definition optional_text :: "string \<Rightarrow> json pydict \<Rightarrow> string option option" where
  \<comment> \<open>a field \<open>Optional[str] = None\<close> of a body\<close>
  "optional_text key body = (case dict_get body key of
     None \<Rightarrow> Some None | Some JNull \<Rightarrow> Some None | Some (JStr s) \<Rightarrow> Some (Some s) | _ \<Rightarrow> None)"

definition optional_object :: "string \<Rightarrow> json pydict \<Rightarrow> json pydict option option" where
  "optional_object key body = (case dict_get body key of
     None \<Rightarrow> Some None | Some JNull \<Rightarrow> Some None | Some (JObj d) \<Rightarrow> Some (Some d) | _ \<Rightarrow> None)"

definition report_of_body :: "json pydict \<Rightarrow> StatusReport option" where
  "report_of_body body = (case (dict_get body ''state'', optional_text ''detail'' body, optional_text ''hostname'' body,
       optional_text ''boot_version'' body, optional_text ''diagnostics'' body, optional_object ''hardware'' body) of
     (Some (JStr state), Some detail, Some host, Some version, Some diagnostics, Some hardware) \<Rightarrow>
       Some \<lparr>sr_state = state, sr_detail = detail, sr_hostname = host, sr_boot_version = version,
         sr_diagnostics = diagnostics, sr_hardware = hardware\<rparr>
   | _ \<Rightarrow> None)"

definition invalid_body :: "'a response" where
  "invalid_body = Inl (HTTPException 422 [])"

definition authorization :: "headers \<Rightarrow> string option" where
  "authorization hs = map_of hs ''Authorization''"

definition server_post :: "site \<Rightarrow> db post" where
  "server_post st url body hs d =
     (if url = st_base st @ ''/sessions'' then
        (case dict_get body ''mac'' of
           Some (JStr m) \<Rightarrow> map_prod (\<lambda>r. Some (answer_of (st_dumps st) 201 mint_body r)) id
             (mint_session (st_now st) (st_token st) (st_cfg st) m (authorization hs) d)
         | _ \<Rightarrow> (Some (answer_of (st_dumps st) 201 mint_body invalid_body), d))
      else if url = st_base st @ ''/status'' then
        (case report_of_body body of
           Some report \<Rightarrow> map_prod (\<lambda>r. Some (answer_of (st_dumps st) 200 ack_body r)) id
             (post_status (st_now st) (st_cfg st) report (authorization hs) (st_client st) d)
         | None \<Rightarrow> (Some (answer_of (st_dumps st) 200 ack_body invalid_body), d))
      else (Some (answer_of (st_dumps st) 200 ack_body (Inl not_found)), d))"

definition query_value :: "string \<Rightarrow> string \<Rightarrow> string option" where
  \<comment> \<open>the last \<open>key=value\<close> of the query counts\<close>
  "query_value query key = map_of (rev (List.map_filter (find_split ''='') (split_char (CHR ''&'') query))) key"

definition server_get :: "site \<Rightarrow> db get" where
  "server_get st url hs d =
     (let path = before {CHR ''?''} url;
          query = drop (Suc (length path)) url
      in if \<not> startswith path (st_base st) then (Some (answer_of (st_dumps st) 200 record_body (Inl not_found)), d)
      else case split_char (CHR ''/'') (drop (length (st_base st)) path) of
        [a, b, m] \<Rightarrow>
          (if a = [] \<and> b = ''resolve'' \<and> m \<noteq> [] then
             map_prod (\<lambda>r. Some (answer_of (st_dumps st) 200 record_body r)) id
               (resolve_machine (st_now st) (st_cfg st) m (query_value query ''source_ip'') (query_value query ''platform'') (authorization hs) d)
           else (Some (answer_of (st_dumps st) 200 record_body (Inl not_found)), d))
      | [a, b, t, state] \<Rightarrow>
          (if a = [] \<and> b = ''grub-event'' \<and> t \<noteq> [] \<and> state \<noteq> [] then
             map_prod (\<lambda>r. Some (answer_of (st_dumps st) 200 (\<lambda>_. JStr []) r)) id (grub_event (st_now st) (st_cfg st) t state d)
           else (Some (answer_of (st_dumps st) 200 record_body (Inl not_found)), d))
      | _ \<Rightarrow> (Some (answer_of (st_dumps st) 200 record_body (Inl not_found)), d))"

section \<open>What the clients rely on\<close>

definition url_safe :: "string \<Rightarrow> bool" where
  "url_safe s \<longleftrightarrow> s \<noteq> [] \<and> (\<forall>c \<in> set s. ascii_lower c \<or> ascii_upper c \<or> py_digit c \<or> c \<in> {CHR '':'', CHR ''.'', CHR ''-'', CHR ''_''})"

definition base_ok :: "string \<Rightarrow> bool" where
  \<comment> \<open>an address a server can be reached under\<close>
  "base_ok base \<longleftrightarrow> CHR ''?'' \<notin> set base \<and> rstrip_char (CHR ''/'') base = base"

definition registered :: "MachineRecord \<Rightarrow> RegisteredMachine" where
  \<comment> \<open>what a client should see of a machine\<close>
  "registered r = \<lparr>rm_mac = rec_mac r, rm_profile_name = rec_profile_name r, rm_architecture = rec_architecture r,
     rm_platform = rec_platform r, rm_serial_console = rec_serial_console r, rm_enrolled_by = rec_enrolled_by r,
     rm_scratch_mode = rec_scratch_mode r\<rparr>"

locale minting =
  fixes post :: "'w post" and cl :: FleetbootClient and dumps :: "json \<Rightarrow> string"
    and mint :: "string \<Rightarrow> 'w \<Rightarrow> (string \<times> string) response \<times> 'w"
  assumes mints: "mint m w = (r, w') \<Longrightarrow>
    post (fc_base_url cl @ ''/sessions'') [(''mac'', JStr m)] (auth_headers cl) w = (Some (answer_of dumps 201 mint_body r), w')"
    and refuses_with_an_error: "mint m w = (Inl (HTTPException c detail), w') \<Longrightarrow> 400 \<le> c"
begin

lemma mint_granted:
  assumes "mint m w = (Inr (t, nm), w')" "t \<noteq> []"
  shows "client_mint post cl m w = (Inr t, w')"
  using assms(2) by (simp add: client_mint_def mints [OF assms(1)] answer_of_def mint_body_def)

lemma mint_refused:
  assumes "mint m w = (Inl e, w')"
  shows "\<exists>why. client_mint post cl m w = (Inl (MintFailedError why), w')"
  using refuses_with_an_error [of m w _ _ w'] assms
  by (cases e) (auto simp: client_mint_def mints [OF assms] answer_of_def Let_def)

lemma render_granted:
  assumes "mint (asserted_mac identity) w = (Inr (t, nm), w')" "t \<noteq> []"
  shows "render_for post cl base profile identity w =
    (map_sum Render_Error id (render_grub_cfg identity base t (str_or (rm_profile_name profile) ''default'')
       (rm_serial_console profile) (Some (rm_architecture profile)) (str_or (rm_scratch_mode profile) ''volatile'')), w')"
  by (simp add: render_for_def mint_granted [OF assms])

end

locale control_plane = minting post cl dumps mint
  for post :: "'w post" and cl :: FleetbootClient and dumps :: "json \<Rightarrow> string"
    and mint :: "string \<Rightarrow> 'w \<Rightarrow> (string \<times> string) response \<times> 'w" +
  fixes get :: "'w get"
    and resolve :: "string \<Rightarrow> string option \<Rightarrow> string option \<Rightarrow> 'w \<Rightarrow> MachineRecord response \<times> 'w"
  assumes resolves: "base_ok (fc_base_url cl) \<Longrightarrow> url_safe m \<Longrightarrow> \<forall>s. ip = Some s \<longrightarrow> url_safe s \<Longrightarrow> \<forall>s. plat = Some s \<longrightarrow> url_safe s \<Longrightarrow> resolve m ip plat w = (r, w') \<Longrightarrow>
    get (resolve_url cl m ip plat) (auth_headers cl) w = (Some (answer_of dumps 200 record_body r), w')"
begin

lemma lookup_found:
  assumes "base_ok (fc_base_url cl)" "url_safe m" "\<forall>s. ip = Some s \<longrightarrow> url_safe s" "\<forall>s. plat = Some s \<longrightarrow> url_safe s" "resolve m ip plat w = (Inr r, w')"
  shows "lookup_machine get cl m ip plat w = (Inr (Some (registered r)), w')"
  by (simp add: lookup_machine_def resolves [OF assms] answer_of_def record_body_def machine_of_body_def registered_def)

lemma lookup_unknown:
  assumes "base_ok (fc_base_url cl)" "url_safe m" "\<forall>s. ip = Some s \<longrightarrow> url_safe s" "\<forall>s. plat = Some s \<longrightarrow> url_safe s" "resolve m ip plat w = (Inl not_found, w')"
  shows "lookup_machine get cl m ip plat w = (Inr None, w')"
  by (simp add: lookup_machine_def resolves [OF assms] answer_of_def not_found_def Let_def)

end

section \<open>The server keeps the contracts\<close>

definition client_for :: "site \<Rightarrow> string \<Rightarrow> FleetbootClient" where
  "client_for st secret = \<lparr>fc_base_url = st_base st, fc_mint_secret = secret\<rparr>"

lemma url_safe_clean: "url_safe s \<Longrightarrow> c \<in> {CHR ''/'', CHR ''?'', CHR ''&'', CHR ''=''} \<Longrightarrow> c \<notin> set s"
proof
  assume "url_safe s" "c \<in> {CHR ''/'', CHR ''?'', CHR ''&'', CHR ''=''}" "c \<in> set s"
  then have "ascii_lower c \<or> ascii_upper c \<or> py_digit c \<or> c \<in> {CHR '':'', CHR ''.'', CHR ''-'', CHR ''_''}"
    by (simp add: url_safe_def)
  with \<open>c \<in> {_, _, _, _}\<close> show False
    by (auto simp: ascii_lower_def ascii_upper_def py_digit_def code_def Let_def)
qed

lemma before_append: "\<forall>c \<in> set s. c \<notin> cs \<Longrightarrow> before cs (s @ t) = s @ before cs t"
  by (induction s) (simp_all add: before_def)

lemma server_mints:
  assumes "mint_session (st_now st) (st_token st) (st_cfg st) m (Some (''Bearer '' @ secret)) d = (r, d')"
  shows "server_post st (fc_base_url (client_for st secret) @ ''/sessions'') [(''mac'', JStr m)] (auth_headers (client_for st secret)) d
    = (Some (answer_of (st_dumps st) 201 mint_body r), d')"
  using assms by (simp add: server_post_def client_for_def auth_headers_def authorization_def Let_def)

lemma mint_errors:
  assumes "mint_session now t cfg m header d = (Inl (HTTPException c detail), d')"
  shows "400 \<le> c"
  using assms
  by (auto simp: mint_session_def check_secret_def compare_digest_def unauthorised_def Let_def split: option.splits sum.splits if_splits prod.splits)

definition resolve_params :: "string option \<Rightarrow> string option \<Rightarrow> (string \<times> string) list" where
  "resolve_params ip plat = (case ip of None \<Rightarrow> [] | Some i \<Rightarrow> [(''source_ip'', i)]) @ (case plat of None \<Rightarrow> [] | Some p \<Rightarrow> [(''platform'', p)])"

definition query_string :: "(string \<times> string) list \<Rightarrow> string" where
  "query_string ps = join ''&'' (map (\<lambda>(k, v). k @ CHR ''='' # v) ps)"

definition resolve_query :: "string option \<Rightarrow> string option \<Rightarrow> string" where
  "resolve_query ip plat = (let ps = resolve_params ip plat in if ps = [] then [] else CHR ''?'' # query_string ps)"

lemma resolve_url_shape:
  assumes "\<forall>s. ip = Some s \<longrightarrow> url_safe s" "\<forall>s. plat = Some s \<longrightarrow> url_safe s"
  shows "resolve_url cl m ip plat = fc_base_url cl @ ''/resolve/'' @ m @ resolve_query ip plat"
  using assms
  by (cases ip; cases plat)
    (simp_all add: resolve_url_def resolve_query_def resolve_params_def query_string_def truthy_def opt_str_def url_safe_def Let_def)

lemma query_of_params:
  assumes "\<forall>(k, v) \<in> set ps. CHR ''='' \<notin> set k \<and> CHR ''&'' \<notin> set k \<and> CHR ''&'' \<notin> set v" "ps \<noteq> []"
  shows "query_value (query_string ps) key = map_of (rev ps) key"
proof -
  have "split_char (CHR ''&'') (query_string ps) = map (\<lambda>(k, v). k @ CHR ''='' # v) ps"
    unfolding query_string_def using assms by (intro split_join) auto
  moreover have "List.map_filter (find_split ''='') (map (\<lambda>(k, v). k @ CHR ''='' # v) ps) = ps"
    using assms(1) by (induction ps) (auto simp: List.map_filter_simps find_split_key)
  ultimately show ?thesis by (simp add: query_value_def)
qed

lemma query_values:
  assumes "\<forall>s. ip = Some s \<longrightarrow> url_safe s" "\<forall>s. plat = Some s \<longrightarrow> url_safe s"
  shows "query_value (drop 1 (resolve_query ip plat)) ''source_ip'' = ip"
    and "query_value (drop 1 (resolve_query ip plat)) ''platform'' = plat"
proof -
  let ?ps = "resolve_params ip plat"
  have "\<forall>(k, v) \<in> set ?ps. CHR ''='' \<notin> set k \<and> CHR ''&'' \<notin> set k \<and> CHR ''&'' \<notin> set v"
    using assms url_safe_clean by (cases ip; cases plat) (fastforce simp: resolve_params_def)+
  moreover have "query_value [] key = None" for key by (simp add: query_value_def List.map_filter_simps)
  ultimately have "query_value (drop 1 (resolve_query ip plat)) key = map_of (rev ?ps) key" for key
    using query_of_params [of ?ps key] by (cases "?ps = []") (simp_all add: resolve_query_def Let_def)
  then show "query_value (drop 1 (resolve_query ip plat)) ''source_ip'' = ip" "query_value (drop 1 (resolve_query ip plat)) ''platform'' = plat"
    by (cases ip; cases plat; simp add: resolve_params_def)+
qed

lemma server_path:
  assumes "base_ok (st_base st)" "CHR ''?'' \<notin> set p" "q = [] \<or> hd q = CHR ''?''"
  shows "before {CHR ''?''} (st_base st @ p @ q) = st_base st @ p"
    and "drop (Suc (length (st_base st @ p))) (st_base st @ p @ q) = drop 1 q"
proof -
  have "\<forall>c \<in> set (st_base st @ p). c \<notin> {CHR ''?''}" using assms(1,2) by (auto simp: base_ok_def)
  then show "before {CHR ''?''} (st_base st @ p @ q) = st_base st @ p"
    using before_append [of "st_base st @ p" "{CHR ''?''}" q] assms(3) by (cases q) (simp_all add: before_def)
  show "drop (Suc (length (st_base st @ p))) (st_base st @ p @ q) = drop 1 q" by simp
qed

lemma server_resolves:
  assumes "base_ok (st_base st)" "url_safe m" "\<forall>s. ip = Some s \<longrightarrow> url_safe s" "\<forall>s. plat = Some s \<longrightarrow> url_safe s"
    and run: "resolve_machine (st_now st) (st_cfg st) m ip plat (Some (''Bearer '' @ secret)) d = (r, d')"
  shows "server_get st (resolve_url (client_for st secret) m ip plat) (auth_headers (client_for st secret)) d
    = (Some (answer_of (st_dumps st) 200 record_body r), d')"
proof -
  have start: "resolve_query ip plat = [] \<or> hd (resolve_query ip plat) = CHR ''?''"
    by (simp add: resolve_query_def Let_def)
  have clean: "CHR ''?'' \<notin> set (''/resolve/'' @ m)" using url_safe_clean [OF assms(2), of "CHR ''?''"] by simp
  note path = server_path [OF assms(1) clean start]
  have split: "split_char (CHR ''/'') (''/resolve/'' @ m) = [[], ''resolve'', m]"
    using url_safe_clean [OF assms(2), of "CHR ''/''"] by (simp add: split_char_no_sep)
  show ?thesis
    unfolding resolve_url_shape [OF assms(3,4)]
    using path query_values [OF assms(3,4)] run split assms(2)
    by (simp add: server_get_def client_for_def auth_headers_def authorization_def Let_def url_safe_def)
qed

lemma server_grub_event:
  assumes "base_ok (st_base st)" "url_safe t" "url_safe state"
  shows "snd (server_get st (st_base st @ ''/grub-event/'' @ t @ ''/'' @ state) [] d) = snd (grub_event (st_now st) (st_cfg st) t state d)"
proof -
  let ?p = "''/grub-event/'' @ t @ ''/'' @ state"
  have clean: "CHR ''?'' \<notin> set ?p" "CHR ''/'' \<notin> set t" "CHR ''/'' \<notin> set state"
    using url_safe_clean [OF assms(2)] url_safe_clean [OF assms(3)] by simp_all
  note path = server_path [OF assms(1) clean(1), of "[]"]
  have "split_char (CHR ''/'') ?p = [[], ''grub-event'', t, state]"
    using split_char_append [of "CHR ''/''" t state] clean by (simp add: split_char_no_sep)
  then show ?thesis
    using path assms(2,3) by (simp add: server_get_def Let_def url_safe_def)
qed

interpretation server: control_plane "server_post st" "client_for st secret" "st_dumps st"
    "\<lambda>m. mint_session (st_now st) (st_token st) (st_cfg st) m (Some (''Bearer '' @ secret))" "server_get st"
    "\<lambda>m ip plat. resolve_machine (st_now st) (st_cfg st) m ip plat (Some (''Bearer '' @ secret))"
  for st secret
proof
  show "server_get st (resolve_url (client_for st secret) m ip plat) (auth_headers (client_for st secret)) w
      = (Some (answer_of (st_dumps st) 200 record_body r), w')"
    if "base_ok (fc_base_url (client_for st secret))" "url_safe m" "\<forall>s. ip = Some s \<longrightarrow> url_safe s" "\<forall>s. plat = Some s \<longrightarrow> url_safe s"
      "resolve_machine (st_now st) (st_cfg st) m ip plat (Some (''Bearer '' @ secret)) w = (r, w')" for m ip plat w r w'
    using server_resolves [of st m ip plat secret w r w'] that by (simp add: client_for_def)
qed (fact server_mints, fact mint_errors)

end
