(* ===== verification/Registry_Invariant.thy ===== *)
theory Registry_Invariant
  imports Auto_Enrol Machine_Power
begin

text \<open>
  What the callers of the registry rely on, for all its writing methods at once: each keeps the
  well-formedness of the database (collected in \<open>wf_intros\<close>), and those that only deal in
  leases leave permanently held machines alone (\<open>spares_held\<close>). The locale \<open>pool_operations\<close>
  states the second contract for any set of operations and carries it over to sequences; the
  lease methods, and later the requests of a pool client, are interpretations of it.
\<close>

section \<open>Well-formedness\<close>

lemma wf_enroll [wf_intros]: "wf_db d \<Longrightarrow> wf_db (snd (enroll now m profile arch plat serial enroller scratch d))"
proof -
  assume wf: "wf_db d"
  show ?thesis
  proof (cases "scratch \<in> set SCRATCH_MODES")
    case True
    show ?thesis
    proof (cases "machine_at (normalise_mac m) d")
      case None
      obtain d' where "enroll now m profile arch plat serial enroller scratch d
          = (Inr (row_to_machine (new_machine_row now (normalise_mac m) profile arch plat serial enroller scratch)), d')" "wf_db d'"
        using enroll_new [OF wf True None refl] by blast
      then show ?thesis by simp
    next
      case (Some old)
      obtain d' where "enroll now m profile arch plat serial enroller scratch d = (Inr (row_to_machine (carry_columns old
          (new_machine_row now (normalise_mac m) profile arch plat serial enroller scratch))), d')" "wf_db d'"
        using enroll_known [OF True Some refl] wf by blast
      then show ?thesis by simp
    qed
  next
    case False
    with wf show ?thesis by (simp add: enroll_def)
  qed
qed

lemma reserve_refused:
  assumes "strip profile = [] \<or> strip h = [] \<or> count \<le> 0 \<or> ttl \<le> 0"
  shows "snd (reserve now profile count h ttl why arch d) = d"
  using assms by (auto simp: reserve_def Let_def)

lemma wf_reserve [wf_intros]: "wf_db d \<Longrightarrow> wf_db (snd (reserve now profile count h ttl why arch d))"
proof (cases "strip profile = [] \<or> strip h = [] \<or> count \<le> 0 \<or> ttl \<le> 0")
  case True
  then show "wf_db d \<Longrightarrow> ?thesis" using reserve_refused by simp
next
  case False
  then have "strip profile \<noteq> []" "strip h \<noteq> []" "0 < count" "0 < ttl" by auto
  moreover assume "wf_db d"
  ultimately obtain ms d' where "reserve now profile count h ttl why arch d = (Inr ms, d')" "wf_db d'"
    using reserve_effect by blast
  then show ?thesis by simp
qed

lemma renew_refused: "ttl \<le> 0 \<Longrightarrow> snd (renew now m ttl d) = d"
  by (simp add: renew_def)

lemma wf_renew [wf_intros]: "wf_db d \<Longrightarrow> wf_db (snd (renew now m ttl d))"
proof (cases "0 < ttl")
  case True
  moreover assume "wf_db d"
  ultimately obtain d' b where "renew now m ttl d = (Inr b, d')" "wf_db d'" using renew_effect by blast
  then show ?thesis by simp
qed (simp add: renew_refused)

lemma pin_refused: "strip h = [] \<Longrightarrow> snd (pin now m h profile why d) = d"
  by (simp add: pin_def)

lemma wf_pin [wf_intros]: "wf_db d \<Longrightarrow> wf_db (snd (pin now m h profile why d))"
proof (cases "strip h = []")
  case False
  moreover assume "wf_db d"
  ultimately obtain res d' where "pin now m h profile why d = (Inr res, d')" "wf_db d'" using pin_effect by blast
  then show ?thesis by simp
qed (simp add: pin_refused)

lemma wf_holds [wf_intros]:
  assumes "wf_db d"
  shows "wf_db (snd (release now macs h d))" "wf_db (snd (release_to_pool now m d))" "wf_db (snd (reap_expired now d))"
  using release_effect [OF assms] release_to_pool_effect [OF assms] reap_expired_effect [OF assms] by blast+

lemma wf_arm [wf_intros]: "wf_db d \<Longrightarrow> wf_db (arm S d)"
proof -
  assume wf: "wf_db d"
  have "map mac (machines (arm S d)) = map mac (machines d)"
    unfolding arm_def by (simp add: map_update_where)
  then have "mac ` set (machines (arm S d)) = mac ` set (machines d)" by (metis list.set_map)
  moreover have "wf_machines (machines (arm S d))"
    using wf by (simp add: arm_def wf_db_def wf_machines_update)
  moreover have "res_seq (arm S d) = res_seq d" "rule_seq (arm S d) = rule_seq d" "ev_seq (arm S d) = ev_seq d"
    by (simp_all add: arm_def)
  ultimately show ?thesis using wf by (simp add: wf_db_def)
qed

lemma power_machine_deleting:
  "snd (power_machine shell timeout m action True d) \<in> {d, snd (remove m d)}"
  by (auto simp: power_machine_def Let_def split: option.split route.split prod.split)

lemma power_machine_writes:
  "snd (power_machine shell timeout m action False d) = (if action \<in> set POWER_ACTIONS then arm (soft_rebooted shell m action d) d else d)"
proof (cases "action \<in> set POWER_ACTIONS")
  case True
  then show ?thesis using power_machine_effect [OF True, of shell timeout m d] by auto
qed (simp add: power_machine_def)

lemma wf_power [wf_intros]:
  assumes wf: "wf_db d"
  shows "wf_db (snd (power_machine shell timeout m action b d))"
proof (cases b)
  case True
  have "snd (power_machine shell timeout m action True d) = d \<or> snd (power_machine shell timeout m action True d) = snd (remove m d)"
    using power_machine_deleting [of shell timeout m action d] by simp
  with True wf wf_remove [OF wf, of m] show ?thesis by auto
next
  case False
  then have "snd (power_machine shell timeout m action b d) = (if action \<in> set POWER_ACTIONS then arm (soft_rebooted shell m action d) d else d)"
    using power_machine_writes by simp
  then show ?thesis using wf wf_arm [OF wf] by presburger
qed

lemma power_machines_state:
  assumes "action \<in> set POWER_ACTIONS"
  shows "snd (power_machines shell timeout ms action d) = arm (\<Union>m \<in> set ms. soft_rebooted shell m action d) d"
  using power_machines_arm [OF assms, of shell timeout ms "{}" d] by simp

lemma power_machines_refused:
  "action \<notin> set POWER_ACTIONS \<Longrightarrow> snd (power_machines shell timeout ms action d) = d"
  by (cases ms) (simp_all add: power_machine_def)

lemma wf_power_machines [wf_intros]: "wf_db d \<Longrightarrow> wf_db (snd (power_machines shell timeout ms action d))"
  by (cases "action \<in> set POWER_ACTIONS") (simp_all add: power_machines_state power_machines_refused wf_arm)

lemma switching_writes_nothing [simp]:
  "action \<noteq> ''reboot'' \<Longrightarrow> snd (power_machines shell timeout ms action d) = d"
  by (cases "action \<in> set POWER_ACTIONS") (simp_all add: power_machines_state power_machines_refused soft_rebooted_def)

section \<open>Leases leave permanent holds alone\<close>

definition permanently_held :: "db \<Rightarrow> string \<Rightarrow> string \<Rightarrow> bool" where
  \<comment> \<open>the machine has an un-released permanent hold of this holder\<close>
  "permanently_held d k h \<longleftrightarrow>
     (\<exists>r \<in> set (reservations d). res_mac r = k \<and> lease_kind r = Permanent \<and> released_at r = None \<and> holder r = h)"

lemma held_iff: "wf_db d \<Longrightarrow> hold now d k = Held h \<longleftrightarrow> permanently_held d k h"
proof
  assume "hold now d k = Held h"
  then obtain r where r: "active_at now k (reservations d) = Some r" "lease_kind r = Permanent" "holder r = h"
    by (auto simp: hold_def hold_of_def split: option.splits if_splits)
  from active_at_SomeD [OF r(1)] r show "permanently_held d k h"
    by (auto simp: permanently_held_def active_def)
next
  assume wf: "wf_db d" and "permanently_held d k h"
  then obtain r where r: "r \<in> set (reservations d)" "res_mac r = k" "lease_kind r = Permanent"
      "released_at r = None" "holder r = h"
    by (auto simp: permanently_held_def)
  then have "active now r" using wf by (auto simp: wf_db_def wf_reservations_def active_def)
  with active_at_Some [OF wf_one_unreleased [OF wf] r(1)] r show "hold now d k = Held h" by (simp add: hold_def)
qed

definition spares_held :: "db \<Rightarrow> db \<Rightarrow> bool" where
  \<comment> \<open>whoever holds a machine permanently still does, and its row is as it was\<close>
  "spares_held d d' \<longleftrightarrow> (\<forall>k h. permanently_held d k h \<longrightarrow> permanently_held d' k h \<and> machine_at k d' = machine_at k d)"

lemma spares_refl [simp]: "spares_held d d"
  by (simp add: spares_held_def)

lemma spares_trans: "spares_held d d' \<Longrightarrow> spares_held d' d'' \<Longrightarrow> spares_held d d''"
  unfolding spares_held_def by metis

lemma spares_by_hold:
  assumes "wf_db d" "wf_db d'" and "\<And>k h. hold now d k = Held h \<Longrightarrow> hold now d' k = Held h \<and> machine_at k d' = machine_at k d"
  shows "spares_held d d'"
  using assms held_iff [OF assms(1), of now] held_iff [OF assms(2), of now] by (simp add: spares_held_def)

locale pool_operations =
  fixes step :: "'r \<Rightarrow> 'w \<Rightarrow> 'w" and database :: "'w \<Rightarrow> db"
  assumes step_wf: "wf_db (database w) \<Longrightarrow> wf_db (database (step r w))"
    and step_spares: "wf_db (database w) \<Longrightarrow> spares_held (database w) (database (step r w))"
begin

lemma run_wf: "wf_db (database w) \<Longrightarrow> wf_db (database (fold step rs w))"
  by (induction rs arbitrary: w) (simp_all add: step_wf)

lemma run_spares: "wf_db (database w) \<Longrightarrow> spares_held (database w) (database (fold step rs w))"
proof (induction rs arbitrary: w)
  case Nil
  then show ?case by simp
next
  case (Cons r rs)
  then have "spares_held (database (step r w)) (database (fold step rs (step r w)))" by (simp add: step_wf)
  with step_spares [OF Cons.prems, of r] show ?case by (simp add: spares_trans)
qed

end

datatype lease_call =
    Reserve timestamp string int string int "string option" "string option"
  | Renew timestamp string int
  | Release timestamp "string list option" "string option"
  | Reap timestamp

fun lease_step :: "lease_call \<Rightarrow> db \<Rightarrow> db" where
  "lease_step (Reserve now profile count h ttl why arch) d = snd (reserve now profile count h ttl why arch d)"
| "lease_step (Renew now m ttl) d = snd (renew now m ttl d)"
| "lease_step (Release now macs h) d = snd (release now macs h d)"
| "lease_step (Reap now) d = snd (reap_expired now d)"

lemma machine_at_other_holds [simp]: "machine_at k (reservations_update f d) = machine_at k d"
  by (simp add: machine_at_def)

lemma release_each_machines [simp]: "machines (snd (release_each now ms d)) = machines d"
  by (induction ms arbitrary: d) (simp_all add: Let_def split_beta)

lemma machine_at_release [simp]: "machine_at k (snd (release now macs h d)) = machine_at k d"
  by (simp add: machine_at_def release_def)

lemma spares_reserve: "wf_db d \<Longrightarrow> spares_held d (snd (reserve now profile count h ttl why arch d))"
proof (cases "strip profile = [] \<or> strip h = [] \<or> count \<le> 0 \<or> ttl \<le> 0")
  case True
  then show ?thesis by (simp add: reserve_refused)
next
  case False
  assume wf: "wf_db d"
  from False obtain ms d' where e: "reserve now profile count h ttl why arch d = (Inr ms, d')" "wf_db d'"
      "map mac ms = take (nat count) (sorted_list_of_set (claimable now arch d))"
      "\<forall>k. hold now d' k = (if k \<in> mac ` set ms then Leased (strip h) (datetime_plus now ttl) else hold now d k)"
      "\<forall>k. k \<notin> mac ` set ms \<longrightarrow> machine_at k d' = machine_at k d"
    using reserve_effect [OF wf, of profile h count ttl now why arch] by auto
  have "hold now d' k = Held g \<and> machine_at k d' = machine_at k d" if "hold now d k = Held g" for k g
  proof -
    have "mac ` set ms \<subseteq> claimable now arch d"
      using arg_cong [OF e(3), of set] finite_claimable [of now arch d] by (auto dest: in_set_takeD)
    then have "k \<notin> mac ` set ms" using that by (auto simp: claimable_def)
    with e that show ?thesis by simp
  qed
  then have "spares_held d d'" by (rule spares_by_hold [OF wf e(2)])
  with e(1) show ?thesis by simp
qed

lemma spares_renew: "wf_db d \<Longrightarrow> spares_held d (snd (renew now m ttl d))"
proof (cases "0 < ttl")
  case True
  assume wf: "wf_db d"
  have "machine_at k (snd (renew now m ttl d)) = machine_at k d" for k by (simp add: renew_def Let_def)
  then show ?thesis
    using renew_effect [OF wf True, of now m] by (intro spares_by_hold [OF wf, where now = now]) auto
next
  case False
  then show ?thesis by (simp add: renew_refused)
qed

lemma spares_release: "wf_db d \<Longrightarrow> spares_held d (snd (release now macs h d))"
proof -
  assume wf: "wf_db d"
  from release_effect [OF wf, of now macs h]
  have "hold now (snd (release now macs h d)) k = Held g" if "hold now d k = Held g" for k g
    using that by auto
  then show ?thesis
    by (intro spares_by_hold [OF wf, where now = now]) (simp_all add: wf_holds wf)
qed

lemma spares_reap: "wf_db d \<Longrightarrow> spares_held d (snd (reap_expired now d))"
proof -
  assume wf: "wf_db d"
  have "machine_at k (snd (reap_expired now d)) = machine_at k d" for k
    using reap_expired_effect [OF wf, of now] by (simp add: machine_at_def)
  then show ?thesis
    using reap_expired_effect [OF wf, of now] by (intro spares_by_hold [OF wf, where now = now]) auto
qed

interpretation leases: pool_operations lease_step "\<lambda>d. d"
proof
  fix r d assume wf: "wf_db d"
  show "wf_db (lease_step r d)" using wf by (cases r) (simp_all add: wf_intros)
  show "spares_held d (lease_step r d)"
    using wf by (cases r) (simp_all add: spares_reserve spares_renew spares_release spares_reap)
qed

end
