(* ===== verification/Boot_Chain.thy ===== *)
theory Boot_Chain
  imports Control_Plane Registry_Invariant
begin

text \<open>
  A boot from end to end: the TFTP glue resolves the machine and mints a session (\<open>Tftp_Glue\<close>), the
  configuration it renders (\<open>Grub_Template\<close>) is run by GRUB, whose stage events reach the server, the kernel
  command line leads the image to the reporter (\<open>Reporter\<close>), and its reports reach the session the boot
  was minted for (\<open>App\<close>).
\<close>

section \<open>Bearer tokens\<close>

lemma bearer_of:
  assumes "s \<noteq> []" "unspaced s"
  shows "extract_bearer_token (Some (''Bearer '' @ s)) = s"
proof -
  define h where "h = ''Bearer'' @ CHR '' '' # s"
  have ends: "\<not> py_space (hd s)" "\<not> py_space (last s)" "strip s = s" "hd s \<in> set s"
    using assms strip_between [of s] by (auto simp: unspaced_def)
  have B: "\<forall>c \<in> set ''Bearer''. \<not> py_space c" "py_space (CHR '' '')" "lower ''Bearer'' = ''bearer''" by code_simp+
  have "h \<noteq> []" "hd h = CHR ''B''" "last h = last s" using assms(1) by (simp_all add: h_def)
  then have "strip h = h" using ends B(1) by (intro strip_between) auto
  moreover have "takeWhile (\<lambda>c. \<not> py_space c) h = ''Bearer''" "dropWhile (\<lambda>c. \<not> py_space c) h = CHR '' '' # s"
    unfolding h_def using B(1,2) by (subst takeWhile_append2 dropWhile_append2; auto)+
  moreover have "dropWhile py_space (CHR '' '' # s) = s"
    using B(2) ends(1) assms(1) by (cases s) simp_all
  ultimately have "extract_bearer_token (Some h) = s"
    using assms(1) ends B(2,3) by (auto simp: extract_bearer_token_def opt_str_def Let_def intro: hd_in_set)
  then show ?thesis by (simp add: h_def)
qed

lemma secret_accepted:
  assumes "secret \<noteq> []" "unspaced secret" "\<forall>c \<in> set secret. code c < 128"
  shows "check_secret (Some (''Bearer '' @ secret)) secret = Inr ()"
  using assms(1,3) unfolding check_secret_def bearer_of [OF assms(1,2)] by (auto simp: compare_digest_def Let_def)

section \<open>Events from the boot loader\<close>

lemma grub_event_effect:
  assumes "good_sessions d" "db_view d t = Some (m, l)"
  shows "good_sessions (snd (grub_event now cfg t (state_value st) d))"
    and "db_view (snd (grub_event now cfg t (state_value st) d)) = (db_view d)(t \<mapsto> (m, further l st))"
proof -
  obtain session s where r: "record_in_db now t st d = (Inr session, boot_sessions_update (\<lambda>_. s) d)"
    "good_sessions (boot_sessions_update (\<lambda>_. s) d)"
    "db_view (boot_sessions_update (\<lambda>_. s) d) = (db_view d)(t \<mapsto> (m, further l st))"
    using record_in_db_session(2) [OF assms] by blast
  let ?d1 = "boot_sessions_update (\<lambda>_. s) d"
  have "boot_sessions (log_boot_event now k v x ?d1) = boot_sessions ?d1" for k v x
    using stamped_log [of k ?d1 now v x] by (simp only: stamped_def)
  note same = good_cong [OF this] view_cong [OF this]
  show "good_sessions (snd (grub_event now cfg t (state_value st) d))"
    "db_view (snd (grub_event now cfg t (state_value st) d)) = (db_view d)(t \<mapsto> (m, further l st))"
    using r same by (simp_all add: grub_event_def BootState_of_value)
qed

definition boot_loader :: "site \<Rightarrow> string \<Rightarrow> string list \<Rightarrow> db \<Rightarrow> db" where
  \<comment> \<open>GRUB fetches these paths over TFTP; the glue forwards them to the server\<close>
  "boot_loader st internal requests d =
     fold (\<lambda>path e. snd (forward_event (\<lambda>url e. snd (server_get st url [] e)) internal path e)) requests d"

lemma state_url_safe: "url_safe (state_value st)"
  by (cases st) (simp_all add: url_safe_def ascii_lower_def ascii_upper_def py_digit_def code_def Let_def)

lemma forwarded_event:
  assumes "base_ok (st_base st)" "st_base st = rstrip_char (CHR ''/'') internal" "url_safe t"
  shows "snd (forward_event (\<lambda>url e. snd (server_get st url [] e)) internal (event_path t (state_value s)) d)
    = snd (grub_event (st_now st) (st_cfg st) t (state_value s) d)"
proof -
  have clean: "CHR ''/'' \<notin> set t" "CHR ''/'' \<notin> set (state_value s)"
    using url_safe_clean [OF assms(3)] url_safe_clean [OF state_url_safe] by simp_all
  have "split_char (CHR ''/'') (lstrip_char (CHR ''/'') (event_path t (state_value s))) = [''grub-event'', t, state_value s]"
    using split_char_append [of "CHR ''/''" t "state_value s"] clean
    by (simp add: event_path_def lstrip_char_def split_char_no_sep)
  then show ?thesis
    using server_grub_event [OF assms(1,3) state_url_safe [of s], of d] assms(2) by (simp add: forward_event_def)
qed

lemma boot_loader_effect:
  assumes "base_ok (st_base st)" "st_base st = rstrip_char (CHR ''/'') internal" "url_safe t"
    and "good_sessions d" "db_view d t = Some (m, l)"
  shows "good_sessions (boot_loader st internal (map (event_path t) (map state_value ss)) d)
    \<and> db_view (boot_loader st internal (map (event_path t) (map state_value ss)) d) t = Some (m, fold (\<lambda>s l. further l s) ss l)"
  using assms(4,5)
proof (induction ss arbitrary: d l)
  case (Cons s ss)
  let ?d1 = "snd (grub_event (st_now st) (st_cfg st) t (state_value s) d)"
  have "good_sessions ?d1" "db_view ?d1 t = Some (m, further l s)"
    using grub_event_effect [OF Cons.prems] by simp_all
  from Cons.IH [OF this] show ?case
    by (simp add: boot_loader_def forwarded_event [OF assms(1-3)])
qed (simp add: boot_loader_def)

section \<open>The boot files\<close>

definition slug_name :: "string \<Rightarrow> bool" where
  \<comment> \<open>a profile name that \<open>/boot\<close> serves\<close>
  "slug_name p \<longleftrightarrow> p \<noteq> [] \<and> slug_char (hd p) \<and> (\<forall>c \<in> set p. slug_char c \<or> c = CHR ''-'')"

lemma image_is_served:
  assumes "squashfs_filename_for arch p = Inr f" "slug_name p"
  shows "is_allowed_boot_filename f"
proof -
  obtain a where a: "a \<in> {''amd64'', ''arm64'', ''i386''}" "f = ''fleetboot-'' @ p @ ''-'' @ a @ ''.squashfs''"
    using squashfs_name(1) [OF assms(1)] by blast
  let ?s = "squashfs_suffix a"
  have f: "f = ''fleetboot-'' @ p @ ?s" using a(2) by (simp add: squashfs_suffix_def)
  have middle: "drop (length x) (take (length (x @ y @ z) - length z) (x @ y @ z)) = y" for x y z :: string by simp
  have "drop 10 (take (length f - length ?s) f) = p"
  proof -
    have "length ''fleetboot-'' = 10" by simp
    with middle [of "''fleetboot-''" p ?s] show ?thesis unfolding f by metis
  qed
  with f assms(2) have "profiled_squashfs f"
    unfolding profiled_squashfs_def Let_def list_ex_iff
    by (intro bexI [of _ a]) (use a(1) in \<open>auto simp: slug_name_def list_all_iff\<close>)
  then show ?thesis by (simp add: is_allowed_boot_filename_def)
qed

lemma image_delivered:
  assumes "good_sessions d" "db_view d t = Some (m, l)" "boot_dir cfg = Some is_file" "is_file f" "is_allowed_boot_filename f"
  shows "serve_boot_file cfg t f d = Inr f"
proof -
  obtain row where row: "fetch_one (\<lambda>r. tok r = t) (sessions d) = Some row"
    using assms(2) by (auto simp: db_view_def)
  have "\<exists>session. load_from_db t d = Inr (Some session)"
    using good_stored_state [OF assms(1)] row by (simp add: load_from_db_def)
  then show ?thesis using assms(3-5) by (auto simp: serve_boot_file_def)
qed

lemma hex_url_safe: "t \<noteq> [] \<Longrightarrow> \<forall>c \<in> set t. hex_lower c \<Longrightarrow> url_safe t"
  by (auto simp: url_safe_def hex_lower_def ascii_lower_def Let_def)

lemma url_safe_unspaced: "url_safe s \<Longrightarrow> unspaced s"
  by (auto simp: url_safe_def unspaced_def py_space_def ascii_lower_def ascii_upper_def py_digit_def code_def Let_def)

section \<open>A boot hangs together\<close>

lemma registered_machine:
  "registered (from_machine machine) = \<lparr>rm_mac = mac machine, rm_profile_name = profile_name machine, rm_architecture = architecture machine,
     rm_platform = platform machine, rm_serial_console = serial_console machine, rm_enrolled_by = enrolled_by machine,
     rm_scratch_mode = scratch_mode machine\<rparr>"
  by (simp add: registered_def from_machine_def)

lemma scratch_mode_word: "s \<in> set SCRATCH_MODES \<Longrightarrow> unspaced s \<and> s \<noteq> []"
  by (auto simp: SCRATCH_MODES_def literal_chars)

definition ready_to_boot :: "site \<Rightarrow> string \<Rightarrow> db \<Rightarrow> bool" where
  \<comment> \<open>the server has its secret, and draws a token no session has\<close>
  "ready_to_boot st secret d \<longleftrightarrow> good_sessions d \<and> db_view d (st_token st) = None
     \<and> st_token st \<noteq> [] \<and> (\<forall>c \<in> set (st_token st). hex_lower c)
     \<and> mint_secret (st_cfg st) = Some secret \<and> has_registry (st_cfg st)
     \<and> secret \<noteq> [] \<and> unspaced secret \<and> (\<forall>c \<in> set secret. code c < 128)"

definition bootable :: "Machine \<Rightarrow> bool" where
  \<comment> \<open>a profile name that \<open>/boot\<close> serves and a known scratch mode\<close>
  "bootable machine \<longleftrightarrow> slug_name (profile_name machine) \<and> scratch_mode machine \<in> set SCRATCH_MODES"

lemma ready_client:
  assumes "ready_to_boot st secret d" "new_client internal secret = Inr cl" "st_base st = rstrip_char (CHR ''/'') internal"
  shows "cl = client_for st secret" and "check_secret (Some (''Bearer '' @ secret)) secret = Inr ()"
  using assms secret_accepted [of secret]
  by (auto simp: ready_to_boot_def new_client_def client_for_def split: if_splits)

lemma minted_boot:
  assumes ready: "ready_to_boot st secret d"
    and secret: "check_secret (Some (''Bearer '' @ secret)) secret = Inr ()"
  obtains d1 where "mint_session (st_now st) (st_token st) (st_cfg st) m (Some (''Bearer '' @ secret)) d = (Inr (st_token st, normalise_mac m), d1)"
    and "good_sessions d1" "db_view d1 (st_token st) = Some (normalise_mac m, None)"
  using mint_session_effect [of d "st_token st" "st_cfg st" secret "Some (''Bearer '' @ secret)" "st_now st" m] ready secret
  unfolding ready_to_boot_def by fastforce

lemma glue_answers:
  assumes ready: "ready_to_boot st secret d"
    and client: "new_client internal secret = Inr cl" "st_base st = rstrip_char (CHR ''/'') internal" "base_ok (st_base st)"
    and machine: "lookup m d = Some machine" "profile_name machine \<noteq> []" "scratch_mode machine \<noteq> []"
    and request: "url_safe m" "\<forall>s. ip = Some s \<longrightarrow> url_safe s" "\<forall>s. plat = Some s \<longrightarrow> url_safe s"
    and config: "asserted_mac identity = m" "render_grub_cfg identity public (st_token st) (profile_name machine) (serial_console machine)
      (Some (architecture machine)) (scratch_mode machine) = Inr config"
  obtains d1 where "lookup_machine (server_get st) cl m ip plat d = (Inr (Some (registered (from_machine machine))), d)"
    and "render_for (server_post st) cl public (registered (from_machine machine)) identity d = (Inr config, d1)"
    and "good_sessions d1" "db_view d1 (st_token st) = Some (normalise_mac m, None)"
proof -
  note cl = ready_client(1) [OF ready client(1,2)] and secret = ready_client(2) [OF ready client(1,2)]
  let ?t = "st_token st" and ?rm = "registered (from_machine machine)"
  have cfg: "mint_secret (st_cfg st) = Some secret" "has_registry (st_cfg st)" "?t \<noteq> []" using ready by (simp_all add: ready_to_boot_def)
  have "resolve_machine (st_now st) (st_cfg st) m ip plat (Some (''Bearer '' @ secret)) d = (Inr (from_machine machine), d)"
    by (rule resolve_known [OF cfg(1) secret cfg(2) machine(1)])
  then have found: "lookup_machine (server_get st) cl m ip plat d = (Inr (Some ?rm), d)"
    unfolding cl using client(3) request by (intro server.lookup_found) (simp_all add: client_for_def)
  obtain d1 where d1: "mint_session (st_now st) ?t (st_cfg st) m (Some (''Bearer '' @ secret)) d = (Inr (?t, normalise_mac m), d1)"
    "good_sessions d1" "db_view d1 ?t = Some (normalise_mac m, None)"
    using minted_boot [OF ready secret] by blast
  have "render_for (server_post st) cl public ?rm identity d = (Inr config, d1)"
    unfolding cl using server.render_granted [OF d1(1) [folded config(1)] cfg(3)] machine(2,3) config(2)
    by (simp add: registered_machine str_or_def)
  with found d1(2,3) show ?thesis using that by blast
qed

text \<open>C4: a boot hangs together, from the firmware's request to the image. For an enrolled machine, the glue's lookup
  returns what the registry holds; the configuration it renders under a freshly minted token starts one
  kernel, whose command line gives the reporter the server and that token and names the image of the
  machine's profile and architecture; GRUB's four events move exactly that session, bound to the
  machine's MAC, to \<open>booting_kernel\<close>; and the server then delivers that image to that token.\<close>
theorem a_boot_hangs_together:
  assumes ready: "ready_to_boot st secret d"
    and client: "new_client internal secret = Inr cl" "st_base st = rstrip_char (CHR ''/'') internal" "base_ok (st_base st)"
    and machine: "lookup m d = Some machine" "bootable machine" "squashfs_filename_for (architecture machine) (profile_name machine) = Inr f"
    and identity: "asserted_mac identity = m" "one_line (id_architecture identity)" "one_line (id_platform identity)"
    and request: "url_safe m" "\<forall>s. ip = Some s \<longrightarrow> url_safe s" "\<forall>s. plat = Some s \<longrightarrow> url_safe s"
    and public: "urlparse public = Inr u" "url_scheme u \<in> {''http'', ''https''}" "unspaced public"
    and image: "boot_dir (st_cfg st) = Some is_file" "is_file f"
  shows "\<exists>rm config d1 cmdline. lookup_machine (server_get st) cl m ip plat d = (Inr (Some rm), d)
    \<and> render_for (server_post st) cl public rm identity d = (Inr config, d1)
    \<and> kernel_lines config = [cmdline]
    \<and> parse_cmdline cmdline = Inr \<lparr>server_url = base_of u @ ''/'', boot_token = st_token st\<rparr>
    \<and> ''fetch='' @ base_of u @ ''/boot/'' @ st_token st @ ''/'' @ f \<in> set (words cmdline)
    \<and> (let d2 = boot_loader st internal (tftp_requests config) d1 in
        good_sessions d2 \<and> db_view d2 (st_token st) = Some (normalise_mac m, Some BOOTING_KERNEL)
        \<and> serve_boot_file (st_cfg st) (st_token st) f d2 = Inr f)"
proof -
  let ?t = "st_token st" and ?rm = "registered (from_machine machine)"
  have t: "url_safe ?t" "unspaced ?t"
    using ready hex_url_safe url_safe_unspaced by (auto simp: ready_to_boot_def)
  have names: "profile_name machine \<noteq> []" "scratch_mode machine \<noteq> []" "unspaced (scratch_mode machine)" "architecture machine \<noteq> []"
    and slug: "slug_name (profile_name machine)"
    using machine(2,3) scratch_mode_word
    by (auto simp: bootable_def slug_name_def squashfs_filename_for_def ARCH_TO_DEBIAN_def split: if_splits)
  have arch: "str_or (opt_str (Some (architecture machine))) (id_architecture identity) = architecture machine"
    using names(4) by (simp add: str_or_def opt_str_def)
  obtain config where config: "render_grub_cfg identity public ?t (profile_name machine) (serial_console machine) (Some (architecture machine))
      (scratch_mode machine) = Inr config"
    using public(1,2) machine(3) by (auto simp: render_grub_cfg_def arch)
  obtain d1 where d1: "lookup_machine (server_get st) cl m ip plat d = (Inr (Some ?rm), d)"
    "render_for (server_post st) cl public ?rm identity d = (Inr config, d1)" "good_sessions d1" "db_view d1 ?t = Some (normalise_mac m, None)"
    by (rule glue_answers [OF ready client machine(1) names(1,2) request identity(1) config])
  have "one_line (asserted_mac identity)" unfolding identity(1) by (rule unspaced_one_line [OF url_safe_unspaced [OF request(1)]])
  then obtain cmdline where parsed: "kernel_lines config = [cmdline]"
    "parse_cmdline cmdline = Inr \<lparr>server_url = base_of u @ ''/'', boot_token = ?t\<rparr>"
    "''fetch='' @ base_of u @ ''/boot/'' @ ?t @ ''/'' @ f \<in> set (words cmdline)"
    "tftp_requests config = map (event_path ?t) (map state_value [GRUB_RUNNING, KERNEL_LOADED, INITRD_LOADED, BOOTING_KERNEL])"
    using rendered_config [OF config public(3) t(2) names(3) _ identity(2,3)] public(1) machine(3) unfolding arch by auto
  let ?d2 = "boot_loader st internal (tftp_requests config) d1"
  have d2: "good_sessions ?d2" "db_view ?d2 ?t = Some (normalise_mac m, Some BOOTING_KERNEL)"
    using boot_loader_effect [OF client(3,2) t(1) d1(3,4), of "[GRUB_RUNNING, KERNEL_LOADED, INITRD_LOADED, BOOTING_KERNEL]"]
    unfolding parsed(4) by (simp_all add: further_def max_def state_order)
  note image_delivered [OF d2 image(1,2) image_is_served [OF machine(3) slug]]
  with d1(1,2) parsed(1-3) d2 show ?thesis unfolding Let_def by blast
qed

definition lab_site :: site where
  "lab_site = \<lparr>st_cfg = gate_example\<lparr>boot_dir := Some (\<lambda>f. f = ''fleetboot-desktop-amd64.squashfs'')\<rparr>, st_base = ''http://fleetboot:8080'',
     st_now = 5, st_token = ''c0ffee'', st_client = Some ''10.0.0.7'', st_dumps = (\<lambda>v. [])\<rparr>"

lemma lab_site_ready: "ready_to_boot lab_site ''m1nt'' pool_example"
proof -
  have none: "sessions pool_example = []" by (simp add: sessions_def pool_example_def empty_db_def)
  have "\<forall>c \<in> set ''c0ffee''. hex_lower c" "\<forall>c \<in> set ''m1nt''. code c < 128" "unspaced ''m1nt''" by code_simp+
  with none show ?thesis
    by (simp add: ready_to_boot_def lab_site_def gate_example_def good_sessions_def keys_distinct_def db_view_def)
qed

lemma a_boot_hangs_together_witness:
  "\<exists>rm config d1 cmdline. lookup_machine (server_get lab_site) (client_for lab_site ''m1nt'') ''aa'' (Some ''10.0.0.7'') None pool_example = (Inr (Some rm), pool_example)
    \<and> render_for (server_post lab_site) (client_for lab_site ''m1nt'') ''http://10.0.0.2:8080'' rm (example_identity\<lparr>asserted_mac := ''aa''\<rparr>) pool_example = (Inr config, d1)
    \<and> kernel_lines config = [cmdline]
    \<and> parse_cmdline cmdline = Inr \<lparr>server_url = ''http://10.0.0.2:8080/'', boot_token = ''c0ffee''\<rparr>
    \<and> db_view (boot_loader lab_site ''http://fleetboot:8080/'' (tftp_requests config) d1) ''c0ffee'' = Some (''aa'', Some BOOTING_KERNEL)"
proof -
  let ?u = "\<lparr>url_scheme = ''http'', url_netloc = ''10.0.0.2:8080'', url_path = []\<rparr>"
  have nm: "normalise_mac ''aa'' = ''aa''" by code_simp
  obtain machine where machine: "lookup ''aa'' pool_example = Some machine"
    and fields: "profile_name machine = ''desktop''" "architecture machine = ''x86_64''" "scratch_mode machine = ''volatile''"
    by (auto simp: lookup_def machine_at_def pool_example_def new_machine_row_def row_to_machine_def fetch_one_Cons str_or_def nm)
  have slug: "slug_name ''desktop''" by code_simp
  have "bootable machine" using fields slug by (simp add: bootable_def SCRATCH_MODES_def)
  moreover have img: "squashfs_filename_for (architecture machine) (profile_name machine) = Inr ''fleetboot-desktop-amd64.squashfs''"
    unfolding fields by code_simp
  moreover have client: "new_client ''http://fleetboot:8080/'' ''m1nt'' = Inr (client_for lab_site ''m1nt'')"
    "st_base lab_site = rstrip_char (CHR ''/'') ''http://fleetboot:8080/''" "base_ok (st_base lab_site)"
    by (simp_all add: new_client_def client_for_def lab_site_def base_ok_def rstrip_char_def strip_while_def)
  moreover have texts: "url_safe ''aa''" "url_safe ''10.0.0.7''" "unspaced ''http://10.0.0.2:8080''"
    "one_line (id_architecture example_identity)" "one_line (id_platform example_identity)" by code_simp+
  moreover have url: "urlparse ''http://10.0.0.2:8080'' = Inr ?u" "base_of ?u = ''http://10.0.0.2:8080''" by code_simp+
  moreover have "boot_dir (st_cfg lab_site) = Some (\<lambda>f. f = ''fleetboot-desktop-amd64.squashfs'')" "normalise_mac ''aa'' = ''aa''"
    "st_token lab_site = ''c0ffee''"
    by (simp add: lab_site_def, code_simp, simp add: lab_site_def)
  ultimately show ?thesis
    using a_boot_hangs_together [OF lab_site_ready client machine, of "''fleetboot-desktop-amd64.squashfs''"
        "example_identity\<lparr>asserted_mac := ''aa''\<rparr>" "Some ''10.0.0.7''" None "''http://10.0.0.2:8080''" ?u
        "\<lambda>f. f = ''fleetboot-desktop-amd64.squashfs''"]
    by (auto simp: Let_def)
qed

section \<open>A report arrives\<close>

lemma diagnostics_fit: "at_most 8192 (collect_diagnostics img)"
  by (auto simp: at_most_def collect_diagnostics_def opt_str_def DIAGNOSTICS_MAX_BYTES_def Let_def)

lemma payload_decoded:
  "report_of_body (report_payload img state detail hw) = Some \<lparr>sr_state = state, sr_detail = detail, sr_hostname = current_hostname img,
     sr_boot_version = read_boot_version img, sr_diagnostics = collect_diagnostics img, sr_hardware = (if hw = [] then None else Some hw)\<rparr>"
  by (simp add: report_of_body_def report_payload_def optional_text_def optional_object_def get_put_fact Let_def split: option.split)

definition fits :: "booted_image \<Rightarrow> string \<Rightarrow> string option \<Rightarrow> bool" where
  \<comment> \<open>the report stays within the bounds of \<open>StatusReport\<close>\<close>
  "fits img state detail \<longleftrightarrow> 1 \<le> length state \<and> length state \<le> 64 \<and> at_most 256 detail
     \<and> at_most 253 (current_hostname img) \<and> at_most 128 (read_boot_version img)"

lemma report_received:
  assumes "good_sessions (rp_server w)" "db_view (rp_server w) (boot_token conf) = Some (m, l)" "has_registry (st_cfg st)"
    and "boot_token conf \<noteq> []" "unspaced (boot_token conf)" "status_url (server_url conf) = Inr (st_base st @ ''/status'')"
    and "collect_hardware img = Inr hw" "fits img state detail"
  obtains r d' where "send_report (server_post st) img conf state detail w = (Inr r, w\<lparr>rp_server := d'\<rparr>)"
    and "asks_for_reboot r = Inr (pending_for m (rp_server w))" "good_sessions d'"
    and "db_view d' = after_report (boot_token conf) m l state (db_view (rp_server w))"
    and "pending_for m d' = pending_for m (rp_server w)"
proof -
  let ?report = "\<lparr>sr_state = state, sr_detail = detail, sr_hostname = current_hostname img, sr_boot_version = read_boot_version img,
     sr_diagnostics = collect_diagnostics img, sr_hardware = (if hw = [] then None else Some hw)\<rparr>"
  let ?header = "Some (''Bearer '' @ boot_token conf)"
  have "valid_report ?report" using assms(8) diagnostics_fit by (simp add: valid_report_def fits_def)
  then obtain ack d' where ack: "post_status (st_now st) (st_cfg st) ?report ?header (st_client st) (rp_server w) = (Inr ack, d')"
    "ack_pending_reboot ack = pending_for m (rp_server w)" "good_sessions d'"
    "db_view d' = after_report (boot_token conf) m l state (db_view (rp_server w))"
    "\<forall>k. map_option boot_view (machine_at k d') = map_option boot_view (machine_at k (rp_server w))"
    using status_accepted [OF assms(1) _ bearer_of [OF assms(4,5), symmetric] assms(2), of ?report "st_now st" "st_cfg st" "st_client st"] assms(3)
    by auto
  let ?r = "answer_of (st_dumps st) 200 ack_body (Inr ack)"
  have "server_post st (st_base st @ ''/status'') (report_payload img state detail hw) [(''Authorization'', ''Bearer '' @ boot_token conf)] (rp_server w)
      = (Some ?r, d')"
    using ack(1) by (simp add: server_post_def payload_decoded authorization_def)
  then have "send_report (server_post st) img conf state detail w = (Inr ?r, w\<lparr>rp_server := d'\<rparr>)"
    using assms(6,7) by (simp add: send_report_def answer_of_def)
  moreover have "asks_for_reboot ?r = Inr (pending_for m (rp_server w))"
    using ack(2) by (simp add: asks_for_reboot_def answer_of_def ack_body_def py_true_def)
  moreover have "pending_for m d' = pending_for m (rp_server w)"
    by (rule pending_for_boot_view) (use ack(5) in blast)
  ultimately show ?thesis using ack(3,4) that by blast
qed



end
