(* ===== verification/Profile_Store.thy ===== *)
theory Profile_Store
  imports App Profile_Resolver
begin

text \<open>
  The profile tree that the dashboard and the MCP tools edit (\<open>src/fleetboot/server/dashboard.py\<close>:
  \<open>_safe_profile_dir\<close>, \<open>_safe_overlay_path\<close>, \<open>_list_overlay_files\<close> and the profile routes).
  A path is the list of its components from \<open>/\<close>; a \<open>file_tree\<close> has regular files and directories
  by resolved path. What symbolic links make of a path is the argument \<open>R\<close> (\<open>Path.resolve\<close>), an
  arbitrary function: the files of a profile that have fixed names are taken not to be links. A
  file is text, or bytes that are not UTF-8, of which the model knows the size and whether the first
  4096 decode. \<open>OSError\<close> is the 500 of a failed file operation.
\<close>

section \<open>Files\<close>

type_synonym path = "string list"

datatype content = Text string | Undecodable nat bool

record file_tree =
  ft_files :: "(path \<times> content) list"
  ft_dirs :: "path list"

abbreviation OSError :: http_error where "OSError \<equiv> Server_Error"

definition is_file :: "file_tree \<Rightarrow> path \<Rightarrow> bool" where
  "is_file fs p \<longleftrightarrow> p \<in> fst ` set (ft_files fs)"

definition is_dir :: "file_tree \<Rightarrow> path \<Rightarrow> bool" where
  "is_dir fs p \<longleftrightarrow> p \<in> set (ft_dirs fs)"

definition lies_in :: "path \<Rightarrow> path \<Rightarrow> bool" where
  \<comment> \<open>\<open>p.relative_to(anchor)\<close> does not raise\<close>
  "lies_in anchor p \<longleftrightarrow> take (length anchor) p = anchor"

fun prefixes_of :: "path \<Rightarrow> path list" where
  "prefixes_of [] = [[]]"
| "prefixes_of (c # cs) = [] # map ((#) c) (prefixes_of cs)"

definition mkdir_parents :: "path \<Rightarrow> file_tree \<Rightarrow> unit response \<times> file_tree" where
  \<comment> \<open>\<open>p.mkdir(parents=True, exist_ok=True)\<close>\<close>
  "mkdir_parents p fs =
     (if \<exists>q \<in> set (prefixes_of p). is_file fs q then (Inl OSError, fs)
      else (Inr (), fs\<lparr>ft_dirs := ft_dirs fs @ filter (\<lambda>q. \<not> is_dir fs q) (prefixes_of p)\<rparr>))"

definition write_text :: "path \<Rightarrow> string \<Rightarrow> file_tree \<Rightarrow> unit response \<times> file_tree" where
  "write_text p t fs =
     (if is_dir fs p \<or> \<not> is_dir fs (butlast p) then (Inl OSError, fs)
      else (Inr (), fs\<lparr>ft_files := AList.update p (Text t) (ft_files fs)\<rparr>))"

definition unlink_file :: "path \<Rightarrow> file_tree \<Rightarrow> file_tree" where
  "unlink_file p fs = fs\<lparr>ft_files := AList.delete p (ft_files fs)\<rparr>"

definition has_entries :: "file_tree \<Rightarrow> path \<Rightarrow> bool" where
  \<comment> \<open>\<open>any(p.iterdir())\<close>\<close>
  "has_entries fs p \<longleftrightarrow> (\<exists>q \<in> fst ` set (ft_files fs) \<union> set (ft_dirs fs). q \<noteq> [] \<and> butlast q = p)"

definition rmdir :: "path \<Rightarrow> file_tree \<Rightarrow> file_tree" where
  "rmdir p fs = fs\<lparr>ft_dirs := removeAll p (ft_dirs fs)\<rparr>"

definition text_of :: "content \<Rightarrow> string response" where
  \<comment> \<open>\<open>read_text\<close>; \<open>UnicodeDecodeError\<close> is not caught by most callers\<close>
  "text_of c = (case c of Text t \<Rightarrow> Inr t | Undecodable n ok \<Rightarrow> Inl Server_Error)"

definition read_or_empty :: "file_tree \<Rightarrow> path \<Rightarrow> string response" where
  "read_or_empty fs p = (case map_of (ft_files fs) p of None \<Rightarrow> Inr [] | Some c \<Rightarrow> text_of c)"

definition utf8_bytes :: "string \<Rightarrow> nat list" where
  "utf8_bytes t = concat (map utf8 t)"

definition st_size :: "content \<Rightarrow> nat" where
  "st_size c = (case c of Text t \<Rightarrow> length (utf8_bytes t) | Undecodable n ok \<Rightarrow> n)"

definition head_decodes :: "content \<Rightarrow> bool" where
  \<comment> \<open>\<open>head.decode("utf-8")\<close> for the first 4096 bytes: a two-byte character must not be cut\<close>
  "head_decodes c = (case c of
     Text t \<Rightarrow> (let head = take 4096 (utf8_bytes t) in head = [] \<or> last head < 192)
   | Undecodable n ok \<Rightarrow> ok)"

section \<open>Names and paths from requests\<close>

definition invalid_profile_name :: http_error where
  "invalid_profile_name = HTTPException 400 ''invalid profile name''"

definition invalid_overlay_path :: http_error where
  "invalid_overlay_path = HTTPException 400 ''invalid overlay path''"

definition safe_profile_dir :: "(path \<Rightarrow> path) \<Rightarrow> path \<Rightarrow> string \<Rightarrow> path response" where
  "safe_profile_dir R profiles_root name =
     (if name = [] \<or> \<not> isalnum (filter (\<lambda>c. c \<noteq> CHR ''-'') name) then Inl invalid_profile_name
      else let candidate = R (profiles_root @ [name]) in
        if lies_in (R profiles_root) candidate then Inr candidate else Inl invalid_profile_name)"

definition path_parts :: "string \<Rightarrow> path" where
  \<comment> \<open>\<open>Path(relpath).parts\<close> of a relative path: empty and \<open>.\<close> components are dropped\<close>
  "path_parts relpath = filter (\<lambda>part. part \<noteq> [] \<and> part \<noteq> ''.'') (split_char (CHR ''/'') relpath)"

definition safe_overlay_path :: "(path \<Rightarrow> path) \<Rightarrow> path \<Rightarrow> string \<Rightarrow> path response" where
  "safe_overlay_path R profile_dir relpath =
     (if relpath = [] \<or> startswith relpath ''/'' then Inl invalid_overlay_path
      else if \<exists>part \<in> set (path_parts relpath). part \<in> {''..'', [], ''.'', ''/''} then Inl invalid_overlay_path
      else if CHR 0x00 \<in> set relpath then Inl Server_Error
      else let overlay_root = R (profile_dir @ [''overlay'']);
               candidate = R (overlay_root @ path_parts relpath)
           in if lies_in overlay_root candidate then Inr candidate else Inl invalid_overlay_path)"

definition tree_profile_names :: "path \<Rightarrow> file_tree \<Rightarrow> string list option" where
  \<comment> \<open>the directories under the profiles directory, if it is one\<close>
  "tree_profile_names profiles_root fs =
     (if is_dir fs profiles_root
      then Some (map last (filter (\<lambda>p. p \<noteq> [] \<and> butlast p = profiles_root) (ft_dirs fs))) else None)"

section \<open>What the builder and the resolver read\<close>

definition text_at :: "file_tree \<Rightarrow> path \<Rightarrow> string option" where
  "text_at fs p = (case map_of (ft_files fs) p of Some (Text t) \<Rightarrow> Some t | _ \<Rightarrow> None)"

definition profiles_of :: "path \<Rightarrow> file_tree \<Rightarrow> profiles option" where
  "profiles_of profiles_root fs = map_option (map (\<lambda>name. (name,
       \<lparr>parent_file = text_at fs (profiles_root @ [name, ''parent'']),
        packages_file = text_at fs (profiles_root @ [name, ''extra-packages.list'']),
        overlay = (if is_dir fs (profiles_root @ [name, ''overlay''])
          then Some (List.map_filter (\<lambda>(p, c). if lies_in (profiles_root @ [name, ''overlay'']) p
                 then Some (join ''/'' (drop (length profiles_root + 2) p), case c of Text t \<Rightarrow> t | _ \<Rightarrow> [])
                 else None) (ft_files fs))
          else None),
        setup_chroot = text_at fs (profiles_root @ [name, ''setup-chroot'']),
        suite_file = text_at fs (profiles_root @ [name, ''suite''])\<rparr>)))
     (tree_profile_names profiles_root fs)"

section \<open>The profile pages\<close>

type_synonym 'a file_step = "file_tree \<Rightarrow> 'a response \<times> file_tree"

fun run_steps :: "unit file_step list \<Rightarrow> unit file_step" where
  \<comment> \<open>one statement after the other, up to the first exception\<close>
  "run_steps [] fs = (Inr (), fs)"
| "run_steps (step # steps) fs = (case step fs of
     (Inl e, fs') \<Rightarrow> (Inl e, fs')
   | (Inr u, fs') \<Rightarrow> run_steps steps fs')"

definition write_or_unlink :: "bool \<Rightarrow> path \<Rightarrow> string \<Rightarrow> unit file_step" where
  \<comment> \<open>\<open>if filled: write_text ... elif is_file: unlink\<close>\<close>
  "write_or_unlink filled p t fs =
     (if filled then write_text p t fs
      else (Inr (), if is_file fs p then unlink_file p fs else fs))"

definition known_parents :: "path \<Rightarrow> string \<Rightarrow> file_tree \<Rightarrow> string set" where
  \<comment> \<open>\<open>set(_list_profile_names(profiles_root)) - {name}\<close>\<close>
  "known_parents profiles_root name fs =
     set (list_profile_names (tree_profile_names profiles_root fs)) - {name}"

record profile_form =
  form_extra_packages :: string
  form_setup_chroot :: string
  form_readme :: string
  form_parents :: string
  form_suite :: string

definition write_parents :: "path \<Rightarrow> path \<Rightarrow> string \<Rightarrow> string \<Rightarrow> unit file_step" where
  "write_parents profiles_root pdir name parents fs =
     (let cleaned_parents = join [CHR 0x0A] (filter (\<lambda>line. line \<noteq> [] \<and> line \<in> known_parents profiles_root name fs)
            (map strip (splitlines parents)))
      in write_or_unlink (cleaned_parents \<noteq> []) (pdir @ [''parent'']) (cleaned_parents @ [CHR 0x0A]) fs)"

definition write_suite :: "path \<Rightarrow> string \<Rightarrow> unit file_step" where
  "write_suite pdir suite fs =
     (let cleaned_suite = strip suite
      in write_or_unlink (cleaned_suite \<noteq> []) (pdir @ [''suite'']) (cleaned_suite @ [CHR 0x0A]) fs)"

definition write_setup_chroot :: "path \<Rightarrow> string \<Rightarrow> unit file_step" where
  "write_setup_chroot pdir script fs =
     write_or_unlink (strip script \<noteq> []) (pdir @ [''setup-chroot'']) script fs"

definition save_profile_page :: "(path \<Rightarrow> path) \<Rightarrow> path \<Rightarrow> string \<Rightarrow> profile_form \<Rightarrow> string file_step" where
  \<comment> \<open>answers with the address of the redirect\<close>
  "save_profile_page R profiles_root name form fs = (case safe_profile_dir R profiles_root name of
     Inl e \<Rightarrow> (Inl e, fs)
   | Inr pdir \<Rightarrow> (case run_steps
         [mkdir_parents pdir,
          write_text (pdir @ [''extra-packages.list'']) (form_extra_packages form),
          write_text (pdir @ [''README.md'']) (form_readme form),
          write_setup_chroot pdir (form_setup_chroot form),
          write_parents profiles_root pdir name (form_parents form),
          write_suite pdir (form_suite form)] fs of
       (Inl e, fs') \<Rightarrow> (Inl e, fs')
     | (Inr u, fs') \<Rightarrow> (Inr (''/dashboard/profiles/'' @ name), fs')))"

definition write_overlay_text :: "path \<Rightarrow> string \<Rightarrow> unit file_step" where
  \<comment> \<open>\<open>file_path.parent.mkdir(...)\<close>, then \<open>file_path.write_text(content)\<close>\<close>
  "write_overlay_text p t = run_steps [mkdir_parents (butlast p), write_text p t]"

definition save_overlay_file :: "(path \<Rightarrow> path) \<Rightarrow> path \<Rightarrow> string \<Rightarrow> string \<Rightarrow> string \<Rightarrow> string file_step" where
  "save_overlay_file R profiles_root name relpath text fs = (case safe_profile_dir R profiles_root name of
     Inl e \<Rightarrow> (Inl e, fs)
   | Inr pdir \<Rightarrow> (case safe_overlay_path R pdir relpath of
       Inl e \<Rightarrow> (Inl e, fs)
     | Inr file_path \<Rightarrow> (case write_overlay_text file_path text fs of
         (Inl e, fs') \<Rightarrow> (Inl e, fs')
       | (Inr u, fs') \<Rightarrow> (Inr (''/dashboard/profiles/'' @ name), fs'))))"

definition create_overlay_file :: "(path \<Rightarrow> path) \<Rightarrow> path \<Rightarrow> string \<Rightarrow> string \<Rightarrow> string \<Rightarrow> string file_step" where
  "create_overlay_file R profiles_root name relpath text fs = (case safe_profile_dir R profiles_root name of
     Inl e \<Rightarrow> (Inl e, fs)
   | Inr pdir \<Rightarrow>
       (let cleaned = strip relpath in
        if cleaned = [] then (Inl (HTTPException 400 ''relpath is required''), fs)
        else save_overlay_file R profiles_root name cleaned text fs))"

function prune_empty :: "path \<Rightarrow> path \<Rightarrow> file_tree \<Rightarrow> file_tree" where
  \<comment> \<open>the loop that removes the directories an unlinked file leaves empty\<close>
  "prune_empty overlay_root parent fs =
     (if parent = overlay_root \<or> parent = [] \<or> has_entries fs parent then fs
      else prune_empty overlay_root (butlast parent) (rmdir parent fs))"
  by pat_completeness auto
termination
  by (relation "measure (\<lambda>(overlay_root, parent, fs). length parent)") auto

declare prune_empty.simps [simp del]

definition delete_overlay_file :: "(path \<Rightarrow> path) \<Rightarrow> path \<Rightarrow> string \<Rightarrow> string \<Rightarrow> string file_step" where
  "delete_overlay_file R profiles_root name relpath fs = (case safe_profile_dir R profiles_root name of
     Inl e \<Rightarrow> (Inl e, fs)
   | Inr pdir \<Rightarrow> (case safe_overlay_path R pdir relpath of
       Inl e \<Rightarrow> (Inl e, fs)
     | Inr file_path \<Rightarrow>
         (Inr (''/dashboard/profiles/'' @ name),
          if is_file fs file_path
          then prune_empty (R (pdir @ [''overlay''])) (butlast file_path) (unlink_file file_path fs)
          else fs)))"

record overlay_page =
  page_relpath :: string
  page_content :: string
  page_is_text :: bool
  page_size :: nat

definition edit_overlay_file :: "(path \<Rightarrow> path) \<Rightarrow> path \<Rightarrow> string \<Rightarrow> string \<Rightarrow> file_tree \<Rightarrow> overlay_page response" where
  "edit_overlay_file R profiles_root name relpath fs = (case safe_profile_dir R profiles_root name of
     Inl e \<Rightarrow> Inl e
   | Inr pdir \<Rightarrow> (case safe_overlay_path R pdir relpath of
       Inl e \<Rightarrow> Inl e
     | Inr file_path \<Rightarrow> (case map_of (ft_files fs) file_path of
         None \<Rightarrow> Inl (HTTPException 404 ''overlay file not found'')
       | Some c \<Rightarrow> Inr \<lparr>page_relpath = relpath,
            page_content = (case c of Text t \<Rightarrow> t | Undecodable n ok \<Rightarrow> []),
            page_is_text = (case c of Text t \<Rightarrow> True | Undecodable n ok \<Rightarrow> False), page_size = st_size c\<rparr>)))"

record overlay_entry =
  entry_path :: string
  entry_size :: nat
  entry_is_text :: bool

definition list_overlay_files :: "path \<Rightarrow> file_tree \<Rightarrow> overlay_entry list" where
  \<comment> \<open>\<open>sorted(rglob("*"))\<close> compares paths component by component\<close>
  "list_overlay_files pdir fs =
     (let overlay_root = pdir @ [''overlay''] in
      if \<not> is_dir fs overlay_root then []
      else map (\<lambda>(p, c). \<lparr>entry_path = join ''/'' (drop (length overlay_root) p), entry_size = st_size c,
             entry_is_text = head_decodes c\<rparr>)
        (sort_key fst (filter (\<lambda>(p, c). lies_in overlay_root p \<and> p \<noteq> overlay_root) (ft_files fs))))"

record profile_page =
  page_name :: string
  page_form :: profile_form
  page_available_parents :: "string list"
  page_overlay_files :: "overlay_entry list"

definition edit_profile :: "(path \<Rightarrow> path) \<Rightarrow> path \<Rightarrow> string \<Rightarrow> file_tree \<Rightarrow> profile_page response" where
  "edit_profile R profiles_root name fs = (case safe_profile_dir R profiles_root name of
     Inl e \<Rightarrow> Inl e
   | Inr pdir \<Rightarrow>
       if \<not> is_dir fs pdir then Inl (HTTPException 404 ''profile not found'')
       else case map (\<lambda>f. read_or_empty fs (pdir @ [f])) [''README.md'', ''extra-packages.list'', ''setup-chroot'', ''parent'', ''suite''] of
         [Inr readme, Inr packages, Inr script, Inr parents, Inr suite] \<Rightarrow>
           Inr \<lparr>page_name = name,
             page_form = \<lparr>form_extra_packages = packages, form_setup_chroot = script, form_readme = readme,
               form_parents = parents, form_suite = strip suite\<rparr>,
             page_available_parents = filter (\<lambda>p. p \<noteq> name) (list_profile_names (tree_profile_names profiles_root fs)),
             page_overlay_files = list_overlay_files pdir fs\<rparr>
       | _ \<Rightarrow> Inl Server_Error)"

section \<open>What an edit leaves alone\<close>

definition file_at :: "file_tree \<Rightarrow> path \<Rightarrow> content option" where
  "file_at fs p = map_of (ft_files fs) p"

definition touches_only :: "path set \<Rightarrow> file_tree \<Rightarrow> file_tree \<Rightarrow> bool" where
  \<comment> \<open>outside \<open>S\<close> every file is as it was\<close>
  "touches_only S fs fs' \<longleftrightarrow> (\<forall>p. p \<notin> S \<longrightarrow> file_at fs' p = file_at fs p)"

named_theorems file_frames \<open>which files the operations may change\<close>

lemma touches_refl [file_frames]: "touches_only S fs fs"
  by (simp add: touches_only_def)

lemma touches_trans: "touches_only S fs fs' \<Longrightarrow> touches_only S fs' fs'' \<Longrightarrow> touches_only S fs fs''"
  by (simp add: touches_only_def)

lemma touches_mono: "touches_only S fs fs' \<Longrightarrow> S \<subseteq> T \<Longrightarrow> touches_only T fs fs'"
  by (auto simp: touches_only_def)

lemma mkdir_files [simp]: "ft_files (snd (mkdir_parents p fs)) = ft_files fs"
  by (simp add: mkdir_parents_def)

lemma mkdir_touches [file_frames]: "touches_only S fs (snd (mkdir_parents p fs))"
  by (simp add: touches_only_def file_at_def)

lemma write_touches [file_frames]: "p \<in> S \<Longrightarrow> touches_only S fs (snd (write_text p t fs))"
  by (auto simp: touches_only_def file_at_def write_text_def AList.update_conv')

lemma unlink_touches [file_frames]: "p \<in> S \<Longrightarrow> touches_only S fs (unlink_file p fs)"
  by (auto simp: touches_only_def file_at_def unlink_file_def AList.delete_conv')

lemma write_or_unlink_touches [file_frames]: "p \<in> S \<Longrightarrow> touches_only S fs (snd (write_or_unlink b p t fs))"
  by (simp add: write_or_unlink_def write_touches unlink_touches touches_refl)

lemma run_steps_touches:
  "(\<And>step fs. step \<in> set steps \<Longrightarrow> touches_only S fs (snd (step fs))) \<Longrightarrow> touches_only S fs (snd (run_steps steps fs))"
proof (induction steps arbitrary: fs)
  case Nil
  then show ?case by (simp add: touches_refl)
next
  case (Cons step steps)
  obtain res fs' where step: "step fs = (res, fs')" by force
  have "touches_only S fs fs'" using Cons.prems [of step fs] step by simp
  moreover have "touches_only S fs' (snd (run_steps steps fs'))" using Cons by simp
  ultimately show ?case using step by (cases res) (auto intro: touches_trans)
qed

lemma prune_empty_files [simp]: "ft_files (prune_empty overlay_root p fs) = ft_files fs"
  by (induction overlay_root p fs rule: prune_empty.induct) (subst prune_empty.simps, simp add: rmdir_def)

lemma write_overlay_touches: "p \<in> S \<Longrightarrow> touches_only S fs (snd (write_overlay_text p t fs))"
  unfolding write_overlay_text_def by (rule run_steps_touches) (auto intro: file_frames)

lemma safe_overlay_path_inside:
  "safe_overlay_path R pdir relpath = Inr p \<Longrightarrow> lies_in (R (pdir @ [''overlay''])) p"
  by (auto simp: safe_overlay_path_def Let_def split: if_splits)

lemma write_overlay_text_ok:
  "write_overlay_text p t fs = (Inr u, fs') \<Longrightarrow> file_at fs' p = Some (Text t)"
  by (auto simp: write_overlay_text_def write_text_def file_at_def AList.update_conv' split: prod.splits sum.splits if_splits)

datatype overlay_edit = Save_Overlay string | Create_Overlay string | Delete_Overlay

fun edit_overlay :: "overlay_edit \<Rightarrow> (path \<Rightarrow> path) \<Rightarrow> path \<Rightarrow> string \<Rightarrow> string \<Rightarrow> string file_step" where
  "edit_overlay (Save_Overlay text) R profiles_root name relpath = save_overlay_file R profiles_root name relpath text"
| "edit_overlay (Create_Overlay text) R profiles_root name relpath = create_overlay_file R profiles_root name relpath text"
| "edit_overlay Delete_Overlay R profiles_root name relpath = delete_overlay_file R profiles_root name relpath"

lemma save_overlay_inside:
  assumes "safe_profile_dir R profiles_root name = Inr pdir"
  shows "touches_only {p. lies_in (R (pdir @ [''overlay''])) p} fs (snd (save_overlay_file R profiles_root name relpath text fs))"
proof (cases "safe_overlay_path R pdir relpath")
  case (Inl e)
  with assms show ?thesis by (simp add: save_overlay_file_def touches_refl)
next
  case (Inr p)
  then have "touches_only {p. lies_in (R (pdir @ [''overlay''])) p} fs (snd (write_overlay_text p text fs))"
    by (intro write_overlay_touches) (simp add: safe_overlay_path_inside)
  with assms Inr show ?thesis by (auto simp: save_overlay_file_def split: prod.splits sum.splits)
qed

lemma edit_overlay_inside:
  assumes "safe_profile_dir R profiles_root name = Inr pdir"
  shows "touches_only {p. lies_in (R (pdir @ [''overlay''])) p} fs (snd (edit_overlay op R profiles_root name relpath fs))"
proof (cases op)
  case (Save_Overlay t)
  with assms show ?thesis by (simp add: save_overlay_inside)
next
  case (Create_Overlay t)
  with assms show ?thesis by (simp add: create_overlay_file_def Let_def save_overlay_inside touches_refl)
next
  case Delete_Overlay
  have "file_at (prune_empty r q (unlink_file p fs)) = file_at (unlink_file p fs)" for r q p
    by (rule ext) (simp add: file_at_def)
  then have "touches_only {p. lies_in (R (pdir @ [''overlay''])) p} fs (prune_empty r q (unlink_file p fs))"
    if "safe_overlay_path R pdir relpath = Inr p" for r q p
    using unlink_touches [of p "{p. lies_in (R (pdir @ [''overlay''])) p}" fs] safe_overlay_path_inside [OF that]
    by (simp add: touches_only_def)
  with assms Delete_Overlay show ?thesis
    by (auto simp: delete_overlay_file_def touches_refl split: sum.splits)
qed

lemma path_parts_dotdot: "''..'' \<in> set (split_char (CHR ''/'') relpath) \<Longrightarrow> ''..'' \<in> set (path_parts relpath)"
  by (simp add: path_parts_def)


definition example_tree :: file_tree where
  "example_tree = \<lparr>ft_files = [([''p'', ''lab'', ''suite''], Text ''sid''), ([''p'', ''lab'', ''overlay'', ''etc'', ''motd''], Text ''hi'')],
     ft_dirs = [[], [''p''], [''p'', ''base''], [''p'', ''lab''], [''p'', ''lab'', ''overlay''], [''p'', ''lab'', ''overlay'', ''etc'']]\<rparr>"


section \<open>Reading back an edit\<close>

lemma write_text_ok: "write_text p t fs = (Inr u, fs') \<Longrightarrow> file_at fs' p = Some (Text t)"
  by (auto simp: write_text_def file_at_def AList.update_conv' split: if_splits)

lemma file_at_unlink: "file_at (unlink_file p fs) p = None"
  by (simp add: file_at_def unlink_file_def AList.delete_conv')

lemma write_or_unlink_ok:
  assumes "write_or_unlink b p t fs = (Inr u, fs')"
  shows "file_at fs' p = (if b then Some (Text t) else None)"
proof (cases b)
  case True
  with assms show ?thesis by (simp add: write_or_unlink_def write_text_ok)
next
  case False
  then have "fs' = (if is_file fs p then unlink_file p fs else fs)"
    using assms by (simp add: write_or_unlink_def)
  moreover have "\<not> is_file fs p \<Longrightarrow> file_at fs p = None"
    by (simp add: is_file_def file_at_def map_of_eq_None_iff)
  ultimately show ?thesis using False by (simp add: file_at_unlink)
qed

lemma write_dirs [simp]: "ft_dirs (snd (write_text p t fs)) = ft_dirs fs" "ft_dirs (snd (write_or_unlink b p t fs)) = ft_dirs fs"
  by (simp_all add: write_text_def write_or_unlink_def unlink_file_def)

lemma run_steps_Cons_ok:
  "run_steps (step # steps) fs = (Inr u, fs') \<Longrightarrow> \<exists>fs1. step fs = (Inr (), fs1) \<and> run_steps steps fs1 = (Inr u, fs')"
  by (auto split: prod.splits sum.splits)

lemma prefixes_of_last: "p \<in> set (prefixes_of p)"
  by (induction p) auto

lemma prefixes_of_append: "q \<in> set (prefixes_of (p @ [x])) \<longleftrightarrow> q \<in> set (prefixes_of p) \<or> q = p @ [x]"
  by (induction p arbitrary: q) (auto simp: image_iff)

lemma prefixes_of_length: "q \<in> set (prefixes_of p) \<Longrightarrow> length q \<le> length p"
  by (induction p arbitrary: q) auto

lemma mkdir_ok:
  "mkdir_parents p fs = (Inr u, fs') \<Longrightarrow> set (ft_dirs fs') = set (ft_dirs fs) \<union> set (prefixes_of p)"
  by (auto simp: mkdir_parents_def is_dir_def split: if_splits)

lemma profile_names_iff:
  "n \<in> set (list_profile_names (tree_profile_names profiles_root fs)) \<longleftrightarrow>
     is_dir fs profiles_root \<and> is_dir fs (profiles_root @ [n])"
proof -
  have "last ` {q \<in> D. q \<noteq> [] \<and> butlast q = profiles_root} = {n. profiles_root @ [n] \<in> D}" for D
  proof
    show "{n. profiles_root @ [n] \<in> D} \<subseteq> last ` {q \<in> D. q \<noteq> [] \<and> butlast q = profiles_root}"
    proof
      fix n assume "n \<in> {n. profiles_root @ [n] \<in> D}"
      then show "n \<in> last ` {q \<in> D. q \<noteq> [] \<and> butlast q = profiles_root}"
        by (intro image_eqI [of _ _ "profiles_root @ [n]"]) simp_all
    qed
  qed (auto dest: append_butlast_last_id)
  from this [of "set (ft_dirs fs)"] show ?thesis
    by (simp add: list_profile_names_def tree_profile_names_def is_dir_def set_eq_iff)
qed

lemma known_parents_mkdir:
  assumes "mkdir_parents (profiles_root @ [name]) fs = (Inr u, fs')" "is_dir fs profiles_root"
  shows "known_parents profiles_root name fs' = known_parents profiles_root name fs"
proof -
  have dirs: "is_dir fs' q \<longleftrightarrow> is_dir fs q \<or> q \<in> set (prefixes_of profiles_root) \<or> q = profiles_root @ [name]" for q
    using mkdir_ok [OF assms(1)] prefixes_of_append [of q profiles_root name] by (auto simp: is_dir_def)
  have "profiles_root @ [n] \<notin> set (prefixes_of profiles_root)" for n
    using prefixes_of_length [of "profiles_root @ [n]" profiles_root] by auto
  then show ?thesis
    using assms(2) by (auto simp: known_parents_def profile_names_iff dirs)
qed

definition kept_parents :: "string set \<Rightarrow> string \<Rightarrow> string list" where
  "kept_parents known parents = filter (\<lambda>line. line \<noteq> [] \<and> line \<in> known) (map strip (splitlines parents))"

lemma kept_one_line: "w \<in> set (kept_parents known parents) \<Longrightarrow> one_line w \<and> strip w = w \<and> w \<noteq> []"
proof -
  assume "w \<in> set (kept_parents known parents)"
  then obtain l where l: "l \<in> set (splitlines parents)" "w = strip l" "w \<noteq> []"
    by (auto simp: kept_parents_def)
  then show ?thesis using splitlines_one_line [OF l(1)] set_strip [of l] by (auto simp: one_line_def)
qed

lemma declared_unlines:
  assumes "\<forall>w \<in> set ws. one_line w \<and> strip w = w \<and> w \<noteq> []"
  shows "declared_lines (Some (unlines ws)) = filter (\<lambda>w. \<not> startswith w ''#'') ws"
proof -
  have "map strip ws = ws" using assms by (simp add: map_idI)
  then have "declared_lines (Some (unlines ws)) = filter (\<lambda>l. l \<noteq> [] \<and> \<not> startswith l ''#'') ws"
    using assms by (simp add: declared_lines_def splitlines_unlines)
  also have "\<dots> = filter (\<lambda>w. \<not> startswith w ''#'') ws" using assms by (intro filter_cong) auto
  finally show ?thesis .
qed

lemma write_parents_ok:
  assumes "write_parents profiles_root pdir name parents fs = (Inr u, fs')"
  shows "declared_lines (text_at fs' (pdir @ [''parent'']))
    = filter (\<lambda>w. \<not> startswith w ''#'') (kept_parents (known_parents profiles_root name fs) parents)"
proof -
  let ?ws = "kept_parents (known_parents profiles_root name fs) parents"
  have at: "file_at fs' (pdir @ [''parent'']) = (if join [newline] ?ws \<noteq> [] then Some (Text (join [newline] ?ws @ [newline])) else None)"
    using assms unfolding write_parents_def Let_def kept_parents_def newline_def by (rule write_or_unlink_ok)
  show ?thesis
  proof (cases "?ws")
    case Nil
    with at show ?thesis by (simp add: text_at_def file_at_def declared_lines_def)
  next
    case (Cons w ws)
    then have "join [newline] ?ws \<noteq> []" using kept_one_line [of w "known_parents profiles_root name fs" parents] by (simp add: join_Cons)
    then have "text_at fs' (pdir @ [''parent'']) = Some (join [newline] ?ws @ [newline])"
      using at by (simp add: text_at_def file_at_def)
    also have "join [newline] ?ws @ [newline] = unlines ?ws" by (rule join_newline) (simp add: Cons)
    finally have "text_at fs' (pdir @ [''parent'']) = Some (unlines ?ws)" .
    moreover have "\<forall>w \<in> set ?ws. one_line w \<and> strip w = w \<and> w \<noteq> []" using kept_one_line by blast
    ultimately show ?thesis by (simp only: declared_unlines)
  qed
qed

lemma unchanged_by:
  "touches_only {q} fs fs' \<Longrightarrow> p \<noteq> q \<Longrightarrow> file_at fs' p = file_at fs p"
  by (simp add: touches_only_def)

lemma text_at_file: "text_at fs p = (case file_at fs p of Some (Text t) \<Rightarrow> Some t | _ \<Rightarrow> None)"
  by (simp add: text_at_def file_at_def)

lemma profiles_of_get:
  assumes "is_dir fs profiles_root" "is_dir fs (profiles_root @ [name])"
  shows "\<exists>P d. profiles_of profiles_root fs = Some P \<and> map_of P name = Some d
    \<and> parent_file d = text_at fs (profiles_root @ [name, ''parent''])
    \<and> packages_file d = text_at fs (profiles_root @ [name, ''extra-packages.list''])
    \<and> setup_chroot d = text_at fs (profiles_root @ [name, ''setup-chroot''])
    \<and> suite_file d = text_at fs (profiles_root @ [name, ''suite''])"
proof -
  obtain names where n: "tree_profile_names profiles_root fs = Some names"
    using assms(1) by (simp add: tree_profile_names_def)
  then have "name \<in> set names"
    using profile_names_iff [of name profiles_root fs] assms by (simp add: list_profile_names_def)
  then have get: "map_of (map (\<lambda>n. (n, f n)) names) name = Some (f name)" for f :: "string \<Rightarrow> profile_dir"
    by (induction names) auto
  show ?thesis
    unfolding profiles_of_def n option.map by (intro exI conjI, rule refl, rule get) simp_all
qed

definition saved_files :: "path \<Rightarrow> path set" where
  "saved_files pdir = (\<lambda>f. pdir @ [f]) ` {''extra-packages.list'', ''README.md'', ''setup-chroot'', ''parent'', ''suite''}"

lemma save_steps_touch:
  "touches_only (saved_files pdir) fs (snd (run_steps
     [mkdir_parents pdir, write_text (pdir @ [''extra-packages.list'']) a, write_text (pdir @ [''README.md'']) b,
      write_setup_chroot pdir c, write_parents profiles_root pdir name e, write_suite pdir g] fs))"
proof (rule run_steps_touches)
  fix step fs
  assume "step \<in> set [mkdir_parents pdir, write_text (pdir @ [''extra-packages.list'']) a, write_text (pdir @ [''README.md'']) b,
      write_setup_chroot pdir c, write_parents profiles_root pdir name e, write_suite pdir g]"
  then consider "step = mkdir_parents pdir" | "step = write_text (pdir @ [''extra-packages.list'']) a"
    | "step = write_text (pdir @ [''README.md'']) b" | "step = write_setup_chroot pdir c"
    | "step = write_parents profiles_root pdir name e" | "step = write_suite pdir g" by auto
  then show "touches_only (saved_files pdir) fs (snd (step fs))"
    by cases (simp_all add: write_setup_chroot_def write_parents_def write_suite_def Let_def file_frames saved_files_def)
qed

lemma write_step: "write_text p t fs = (r, fs') \<Longrightarrow> touches_only {p} fs fs' \<and> ft_dirs fs' = ft_dirs fs"
proof -
  assume e: "write_text p t fs = (r, fs')"
  have "fs' = snd (write_text p t fs)" by (simp only: e snd_conv)
  then show ?thesis by (simp only: write_dirs write_touches singletonI)
qed

lemma optional_step: "write_or_unlink b p t fs = (r, fs') \<Longrightarrow> touches_only {p} fs fs' \<and> ft_dirs fs' = ft_dirs fs"
proof -
  assume e: "write_or_unlink b p t fs = (r, fs')"
  have "fs' = snd (write_or_unlink b p t fs)" by (simp only: e snd_conv)
  then show ?thesis by (simp only: write_dirs write_or_unlink_touches singletonI)
qed

lemma run_six:
  "run_steps [a, b, c, d, e, f] fs = (Inr u, fs') \<Longrightarrow> \<exists>s1 s2 s3 s4 s5. a fs = (Inr (), s1) \<and> b s1 = (Inr (), s2)
     \<and> c s2 = (Inr (), s3) \<and> d s3 = (Inr (), s4) \<and> e s4 = (Inr (), s5) \<and> f s5 = (Inr (), fs')"
  by (auto split: prod.splits sum.splits)

lemma six_files_saved:
  assumes steps: "mkdir_parents pdir fs = (Inr (), fs1)" "write_text (pdir @ [''extra-packages.list'']) packages fs1 = (Inr (), fs2)"
      "write_text (pdir @ [''README.md'']) readme fs2 = (Inr (), fs3)" "write_setup_chroot pdir script fs3 = (Inr (), fs4)"
      "write_parents profiles_root pdir name parents fs4 = (Inr (), fs5)" "write_suite pdir suite fs5 = (Inr (), fs')"
  shows "file_at fs' (pdir @ [''extra-packages.list'']) = Some (Text packages)"
    and "file_at fs' (pdir @ [''setup-chroot'']) = (if strip script \<noteq> [] then Some (Text script) else None)"
    and "file_at fs' (pdir @ [''suite'']) = (if strip suite \<noteq> [] then Some (Text (strip suite @ [CHR 0x0A])) else None)"
    and "declared_lines (text_at fs' (pdir @ [''parent''])) = filter (\<lambda>w. \<not> startswith w ''#'')
      (kept_parents (known_parents profiles_root name fs4) parents)"
    and "ft_dirs fs' = ft_dirs fs1" "ft_dirs fs4 = ft_dirs fs1"
proof -
  note script_step = steps(4) [unfolded write_setup_chroot_def] and parents_step = steps(5) [unfolded write_parents_def Let_def]
    and suite_step = steps(6) [unfolded write_suite_def Let_def]
  note keep = write_step [OF steps(3), THEN conjunct1, THEN unchanged_by] optional_step [OF script_step, THEN conjunct1, THEN unchanged_by]
    optional_step [OF parents_step, THEN conjunct1, THEN unchanged_by] optional_step [OF suite_step, THEN conjunct1, THEN unchanged_by]
  show "file_at fs' (pdir @ [''extra-packages.list'']) = Some (Text packages)"
    using write_text_ok [OF steps(2)] by (simp add: keep)
  show "file_at fs' (pdir @ [''setup-chroot'']) = (if strip script \<noteq> [] then Some (Text script) else None)"
    using write_or_unlink_ok [OF script_step] by (simp add: keep)
  show "file_at fs' (pdir @ [''suite'']) = (if strip suite \<noteq> [] then Some (Text (strip suite @ [CHR 0x0A])) else None)"
    using write_or_unlink_ok [OF suite_step] .
  show "declared_lines (text_at fs' (pdir @ [''parent''])) = filter (\<lambda>w. \<not> startswith w ''#'')
      (kept_parents (known_parents profiles_root name fs4) parents)"
    using write_parents_ok [OF steps(5)] by (simp add: text_at_file keep)
  show "ft_dirs fs' = ft_dirs fs1" "ft_dirs fs4 = ft_dirs fs1"
    using write_step [OF steps(2)] write_step [OF steps(3)] optional_step [OF script_step] optional_step [OF parents_step]
      optional_step [OF suite_step] by simp_all
qed

text \<open>C20: the profile an administrator saves is the profile the builder reads. After a successful
  save the resolver finds the package list, the build script (none if it is blank) and the parents
  that were entered, those that are names of other profiles, in their order; the suite the build
  pins is the one entered; and no file but the five of the profile has changed. (The directory of
  the profile is not a symbolic link; a parent whose name starts with \<open>#\<close> reads as a comment.)\<close>
theorem saved_profile_is_built:
  assumes "save_profile_page R profiles_root name form fs = (Inr url, fs')"
    and "R (profiles_root @ [name]) = profiles_root @ [name]" "is_dir fs profiles_root"
  shows "\<exists>P d. profiles_of profiles_root fs' = Some P \<and> map_of P name = Some d
    \<and> packages_file d = Some (form_extra_packages form)
    \<and> setup_chroot d = (if strip (form_setup_chroot form) = [] then None else Some (form_setup_chroot form))
    \<and> declared_lines (parent_file d) = filter (\<lambda>w. \<not> startswith w ''#'')
        (kept_parents (known_parents profiles_root name fs) (form_parents form))
    \<and> suite_file d = (if strip (form_suite form) = [] then None else Some (strip (form_suite form) @ [CHR 0x0A]))
    \<and> touches_only (saved_files (profiles_root @ [name])) fs fs'"
proof -
  let ?d = "profiles_root @ [name]"
  let ?steps = "[mkdir_parents ?d, write_text (?d @ [''extra-packages.list'']) (form_extra_packages form),
          write_text (?d @ [''README.md'']) (form_readme form), write_setup_chroot ?d (form_setup_chroot form),
          write_parents profiles_root ?d name (form_parents form), write_suite ?d (form_suite form)]"
  from assms(1,2) have run: "run_steps ?steps fs = (Inr (), fs')"
    by (auto simp: save_profile_page_def safe_profile_dir_def Let_def simp del: run_steps.simps
        split: if_splits prod.splits sum.splits)
  obtain fs1 fs2 fs3 fs4 fs5 where steps: "mkdir_parents ?d fs = (Inr (), fs1)"
      "write_text (?d @ [''extra-packages.list'']) (form_extra_packages form) fs1 = (Inr (), fs2)"
      "write_text (?d @ [''README.md'']) (form_readme form) fs2 = (Inr (), fs3)"
      "write_setup_chroot ?d (form_setup_chroot form) fs3 = (Inr (), fs4)"
      "write_parents profiles_root ?d name (form_parents form) fs4 = (Inr (), fs5)"
      "write_suite ?d (form_suite form) fs5 = (Inr (), fs')"
    using run_six [OF run] by blast
  note saved = six_files_saved [OF steps]
  have isd: "is_dir fs1 profiles_root" "is_dir fs1 ?d"
    using mkdir_ok [OF steps(1)] assms(3) prefixes_of_last [of ?d] by (simp_all add: is_dir_def)
  have "known_parents profiles_root name fs4 = known_parents profiles_root name fs1"
    using saved(6) by (auto simp: known_parents_def profile_names_iff is_dir_def)
  then have known: "known_parents profiles_root name fs4 = known_parents profiles_root name fs"
    using known_parents_mkdir [OF steps(1) assms(3)] by simp
  obtain P d where d: "profiles_of profiles_root fs' = Some P" "map_of P name = Some d"
    "parent_file d = text_at fs' (?d @ [''parent''])" "packages_file d = text_at fs' (?d @ [''extra-packages.list''])"
    "setup_chroot d = text_at fs' (?d @ [''setup-chroot''])" "suite_file d = text_at fs' (?d @ [''suite''])"
    using profiles_of_get [of fs' profiles_root name] isd saved(5) by (auto simp: is_dir_def)
  have frame: "touches_only (saved_files ?d) fs fs'"
    using save_steps_touch [of ?d fs "form_extra_packages form" "form_readme form" "form_setup_chroot form"
        profiles_root name "form_parents form" "form_suite form"] run by simp
  show ?thesis
    by (intro exI [of _ P] exI [of _ d]) (use d saved(1-4) known frame in \<open>simp add: text_at_file\<close>)
qed


definition example_form :: profile_form where
  "example_form = \<lparr>form_extra_packages = ''vim'', form_setup_chroot = '' '', form_readme = ''Lab'',
     form_parents = ''nosuch'' @ [CHR 0x0A] @ '' base '', form_suite = ''bookworm ''\<rparr>"

lemma saved_profile_is_built_witness:
  "\<exists>P d. profiles_of [''p''] (snd (save_profile_page id [''p''] ''lab'' example_form example_tree)) = Some P
     \<and> map_of P ''lab'' = Some d \<and> setup_chroot d = None
     \<and> declared_lines (parent_file d) = [''base''] \<and> suite_file d = Some (''bookworm'' @ [CHR 0x0A])"
proof -
  let ?s = "save_profile_page id [''p''] ''lab'' example_form example_tree"
  have ok: "fst ?s = Inr ''/dashboard/profiles/lab''" by code_simp
  then have run: "?s = (Inr ''/dashboard/profiles/lab'', snd ?s)" by (metis prod.collapse)
  have hyps: "id ([''p''] @ [''lab'']) = [''p''] @ [''lab'']" "is_dir example_tree [''p'']" by code_simp+
  have vals: "strip (form_setup_chroot example_form) = []" "strip (form_suite example_form) = ''bookworm''"
    by code_simp+
  have "filter (\<lambda>w. \<not> startswith w ''#'') (kept_parents {''base''} (form_parents example_form)) = [''base'']"
    by code_simp
  moreover have "known_parents [''p''] ''lab'' example_tree = {''base''}"
    by (auto simp: known_parents_def profile_names_iff is_dir_def example_tree_def)
  ultimately show ?thesis
    using saved_profile_is_built [OF run hyps] vals by auto
qed

text \<open>
  The heuristic of \<open>_list_overlay_files\<close> reads 4096 bytes and then decodes them: a text file whose
  4096th byte begins a two-byte character is listed as binary, although it opens as text.
\<close>

lemma text_listed_as_binary:
  "head_decodes (Text (replicate 4095 (CHR ''a'') @ [CHR 0xE9])) = False"
  "text_of (Text (replicate 4095 (CHR ''a'') @ [CHR 0xE9])) = Inr (replicate 4095 (CHR ''a'') @ [CHR 0xE9])"
proof -
  have a: "concat (map utf8 (replicate n (CHR ''a''))) = replicate n 97" for n
    by (induction n) (simp_all add: utf8_def code_def)
  have "utf8_bytes (replicate 4095 (CHR ''a'') @ [CHR 0xE9]) = replicate 4095 97 @ [195, 169]"
    by (simp add: utf8_bytes_def a) (simp add: utf8_def code_def)
  then have "take 4096 (utf8_bytes (replicate 4095 (CHR ''a'') @ [CHR 0xE9])) = replicate 4095 97 @ [195]"
    by (simp)
  then show "head_decodes (Text (replicate 4095 (CHR ''a'') @ [CHR 0xE9])) = False"
    by (simp add: head_decodes_def Let_def)
qed (simp add: text_of_def)

end
