(* ===== verification/Utc_Time.thy ===== *)
theory Utc_Time
  imports Py_Strings
begin

text \<open>
  \<open>_format_mtime\<close> of \<open>src/fleetboot/server/dashboard.py\<close>: the time a file was changed, for people. The calendar is
  that of \<open>datetime.fromtimestamp(..., tz=utc)\<close>, for whole seconds from 1970 up to the year 9999.
\<close>

section \<open>The calendar\<close>

definition leap_year :: "nat \<Rightarrow> bool" where
  "leap_year y \<longleftrightarrow> y mod 4 = 0 \<and> (y mod 100 \<noteq> 0 \<or> y mod 400 = 0)"

definition days_of_year :: "nat \<Rightarrow> nat" where
  "days_of_year y = (if leap_year y then 366 else 365)"

definition month_lengths :: "nat \<Rightarrow> nat list" where
  "month_lengths y = [31, if leap_year y then 29 else 28, 31, 30, 31, 30, 31, 31, 30, 31, 30, 31]"

function year_from :: "nat \<Rightarrow> nat \<Rightarrow> nat \<times> nat" where
  \<comment> \<open>the year of a day counted from the start of \<open>y\<close>, and the day in it\<close>
  "year_from y n = (if n < days_of_year y then (y, n) else year_from (y + 1) (n - days_of_year y))"
  by pat_completeness auto
termination by (relation "measure snd") (auto simp: days_of_year_def)

declare year_from.simps [simp del]

fun month_from :: "nat \<Rightarrow> nat list \<Rightarrow> nat \<Rightarrow> nat \<times> nat" where
  \<comment> \<open>the month \<open>m\<close> or a later one, and the day in it\<close>
  "month_from m [] n = (m, n + 1)"
| "month_from m (l # ls) n = (if n < l then (m, n + 1) else month_from (m + 1) ls (n - l))"

definition date_of :: "nat \<Rightarrow> nat \<times> nat \<times> nat" where
  "date_of n = (let (y, k) = year_from 1970 n; (m, d) = month_from 1 (month_lengths y) k in (y, m, d))"

definition two_digits :: "nat \<Rightarrow> string" where
  "two_digits n = (if n < 10 then ''0'' else []) @ str_of_nat n"

definition format_mtime :: "nat \<Rightarrow> string" where
  \<comment> \<open>\<open>%Y-%m-%d %H:%M UTC\<close>\<close>
  "format_mtime epoch =
     (let (y, m, d) = date_of (epoch div 86400); t = epoch mod 86400 in
      str_of_nat y @ ''-'' @ two_digits m @ ''-'' @ two_digits d @ '' '' @ two_digits (t div 3600) @ '':''
        @ two_digits (t div 60 mod 60) @ '' UTC'')"

section \<open>The day is the right one\<close>

definition days_before :: "nat \<Rightarrow> nat \<Rightarrow> nat \<Rightarrow> nat" where
  \<comment> \<open>the specification: full years since 1970, full months, and days\<close>
  "days_before y m d = sum_list (map days_of_year [1970..<y]) + sum_list (take (m - 1) (month_lengths y)) + (d - 1)"

lemma months_of_year: "sum_list (month_lengths y) = days_of_year y"
  by (simp add: month_lengths_def days_of_year_def)

lemma year_from_sum:
  "year_from y n = (y', k) \<Longrightarrow> y \<le> y' \<and> sum_list (map days_of_year [y..<y']) + k = n \<and> k < days_of_year y'"
proof (induction y n rule: year_from.induct)
  case (1 y n)
  show ?case
  proof (cases "n < days_of_year y")
    case True
    with 1(2) show ?thesis by (simp add: year_from.simps [of y n])
  next
    case False
    with 1 have "y + 1 \<le> y' \<and> sum_list (map days_of_year [y + 1..<y']) + k = n - days_of_year y \<and> k < days_of_year y'"
      by (simp add: year_from.simps [of y n])
    moreover from this have "[y..<y'] = y # [y + 1..<y']" by (simp add: upt_conv_Cons)
    ultimately show ?thesis using False by auto
  qed
qed

lemma month_from_sum:
  "month_from m ls n = (m', d) \<Longrightarrow> n < sum_list ls \<Longrightarrow>
   m \<le> m' \<and> m' < m + length ls \<and> 1 \<le> d \<and> d \<le> ls ! (m' - m) \<and> sum_list (take (m' - m) ls) + (d - 1) = n"
proof (induction m ls n rule: month_from.induct)
  case (2 m l ls n)
  show ?case
  proof (cases "n < l")
    case False
    with 2(3) have "n - l < sum_list ls" by simp
    with 2 False have "m + 1 \<le> m' \<and> m' < m + 1 + length ls \<and> 1 \<le> d \<and> d \<le> ls ! (m' - (m + 1))
        \<and> sum_list (take (m' - (m + 1)) ls) + (d - 1) = n - l" by (simp only: month_from.simps if_False simp_thms not_False_eq_True)
    moreover from this obtain j where "m' = m + 1 + j" by (metis le_iff_add)
    ultimately show ?thesis using False by (cases d) auto
  qed (use 2 in auto)
qed simp

lemma date_of_correct:
  assumes "date_of n = (y, m, d)"
  shows "1970 \<le> y \<and> 1 \<le> m \<and> m \<le> 12 \<and> 1 \<le> d \<and> d \<le> month_lengths y ! (m - 1) \<and> days_before y m d = n"
proof -
  obtain k where y: "year_from 1970 n = (y, k)" and m: "month_from 1 (month_lengths y) k = (m, d)"
    using assms by (auto simp: date_of_def split: prod.splits)
  have twelve: "length (month_lengths y) = 12" by (simp add: month_lengths_def)
  from year_from_sum [OF y] have year: "1970 \<le> y" "sum_list (map days_of_year [1970..<y]) + k = n"
    "k < sum_list (month_lengths y)" by (simp_all add: months_of_year)
  from month_from_sum [OF m year(3)] twelve have "1 \<le> m \<and> m \<le> 12 \<and> 1 \<le> d \<and> d \<le> month_lengths y ! (m - 1)"
    "sum_list (take (m - 1) (month_lengths y)) + (d - 1) = k" by auto
  with year(1,2) show ?thesis unfolding days_before_def by (simp only: add.assoc simp_thms)
qed

lemma format_mtime_example: "format_mtime 1792775520 = ''2026-10-23 17:12 UTC''"
  by (simp add: format_mtime_def date_of_def year_from.simps days_of_year_def leap_year_def month_lengths_def two_digits_def
      str_of_nat.simps) code_simp

end
