(* ===== verification/Dashboard.thy ===== *)
theory Dashboard
  imports Profile_Store Registry_Invariant Bug_Reports Utc_Time
begin

text \<open>
  The administrator's pages of \<open>src/fleetboot/server/dashboard.py\<close>. A \<open>world\<close> is the state of the
  server: the registry's database (the boot sessions are in it), the build manager, the profile
  tree and the bug reports (where they are enabled; only the MCP tools use them). A \<open>deployment\<close> is what does not change: secrets, directories, and the shell that power
  commands run in. A page is the context its template gets; a form answers with the address it
  redirects to, and possibly with a task that runs after the answer is sent (\<open>background\<close>).
  Form fields a browser leaves out arrive as the defaults of the routes.
\<close>

section \<open>State\<close>

record boot_file =
  bf_content :: content
  bf_mtime :: nat   \<comment> \<open>the time of last change\<close>

record deployment =
  dp_admin :: string
  dp_pool :: "string option"
  dp_profiles_root :: path
  dp_resolve :: "path \<Rightarrow> path"
  dp_boot_dir :: "(string \<times> boot_file) list option"
  dp_shell :: shell
  dp_timeout :: string

record world =
  reg :: db
  builds :: manager
  tree :: file_tree
  bugs :: "bug_store option"

type_synonym 'a handler = "world \<Rightarrow> 'a response \<times> world"

definition with_reg :: "(db \<Rightarrow> db) \<Rightarrow> world \<Rightarrow> world" where
  "with_reg f w = w\<lparr>reg := f (reg w)\<rparr>"

definition profile_names_of :: "deployment \<Rightarrow> world \<Rightarrow> string list" where
  "profile_names_of dp w = list_profile_names (tree_profile_names (dp_profiles_root dp) (tree w))"

section \<open>Who may come in\<close>

definition basic_auth :: "deployment \<Rightarrow> string \<Rightarrow> unit response" where
  \<comment> \<open>\<open>_require_admin\<close>: the password of HTTP basic authentication\<close>
  "basic_auth dp password = (case compare_digest password (dp_admin dp) of
     Inl e \<Rightarrow> Inl e
   | Inr same \<Rightarrow> if same then Inr () else Inl unauthorised)"

definition guarded :: "deployment \<Rightarrow> string \<Rightarrow> 'a handler \<Rightarrow> 'a handler" where
  \<comment> \<open>\<open>dependencies=[Depends(require_admin)]\<close>\<close>
  "guarded dp password handler w = (case basic_auth dp password of
     Inl e \<Rightarrow> (Inl e, w) | Inr u \<Rightarrow> handler w)"

section \<open>What the pages show\<close>

definition STALE_AFTER_SECONDS :: int where "STALE_AFTER_SECONDS = 6 * 60"

definition LIVE_POLL_SECONDS :: nat where "LIVE_POLL_SECONDS = 5"

definition all_sessions :: "db \<Rightarrow> BootSession list response" where
  \<comment> \<open>\<open>active_sessions\<close> raises on a stored state it does not know\<close>
  "all_sessions d = (if \<exists>s \<in> set (db_active_sessions d). case s of Inl e \<Rightarrow> True | Inr x \<Rightarrow> False
     then Inl Server_Error else Inr (List.map_filter (\<lambda>s. case s of Inl e \<Rightarrow> None | Inr x \<Rightarrow> Some x) (db_active_sessions d)))"

definition latest_states :: "BootSession list \<Rightarrow> string pydict" where
  "latest_states ss = fold (\<lambda>s found. case bs_latest s of
     None \<Rightarrow> found | Some st \<Rightarrow> dict_set (bs_mac s) (state_value st) found) ss []"

definition states_by_mac :: "db \<Rightarrow> string pydict response" where
  "states_by_mac d = (case all_sessions d of Inl e \<Rightarrow> Inl e | Inr ss \<Rightarrow> Inr (latest_states ss))"

definition humanise_seconds :: "int \<Rightarrow> string" where
  "humanise_seconds seconds =
     (if seconds < 60 then str_of_int seconds @ ''s ago''
      else let minutes = seconds div 60 in
        if minutes < 60 then str_of_int minutes @ ''m ago''
        else let hours = minutes div 60 in
          if hours < 48 then str_of_int hours @ ''h ago''
          else let days = hours div 24 in str_of_int days @ ''d ago'')"

definition format_last_seen :: "timestamp \<Rightarrow> (string \<Rightarrow> timestamp option) \<Rightarrow> string \<Rightarrow> (string \<times> bool) option" where
  \<comment> \<open>the label, and whether it is stale\<close>
  "format_last_seen now raw m = (case raw m of
     None \<Rightarrow> None
   | Some ts \<Rightarrow> (let seconds = max 0 (now - ts) in
       Some (humanise_seconds seconds, STALE_AFTER_SECONDS \<le> seconds)))"

definition arch_aliases :: "(string \<times> string list) list" where
  "arch_aliases =
     [(''amd64'', [''amd64'', ''x86_64'', ''x64'']),
      (''x86_64'', [''amd64'', ''x86_64'', ''x64'']),
      (''x64'', [''amd64'', ''x86_64'', ''x64'']),
      (''arm64'', [''arm64'', ''aarch64'']),
      (''aarch64'', [''arm64'', ''aarch64''])]"

definition version_stem :: "string \<Rightarrow> string option" where
  \<comment> \<open>of a name that \<open>fleetboot-*-*.version\<close> matches, what is before \<open>.version\<close>\<close>
  "version_stem name =
     (let stem = take (length name - length ''.version'') name in
      if name = stem @ ''.version'' \<and> startswith stem ''fleetboot-'' \<and> CHR ''-'' \<in> set (drop 10 stem)
      then Some stem else None)"

definition record_version :: "(string \<times> boot_file) \<Rightarrow> string pydict response \<Rightarrow> string pydict response" where
  \<comment> \<open>one turn of the loop over the side-car files\<close>
  "record_version entry found = (case found of Inl e \<Rightarrow> Inl e | Inr out \<Rightarrow>
     (case version_stem (fst entry) of
        None \<Rightarrow> Inr out
      | Some stem \<Rightarrow>
          (let parts = split_char (CHR ''-'') stem;
               arch = last parts;
               profile = join ''-'' (butlast (tl parts))
           in if length parts < 3 \<or> hd parts \<noteq> ''fleetboot'' then Inr out
              else case text_of (bf_content (snd entry)) of
                Inl e \<Rightarrow> Inl e
              | Inr text \<Rightarrow> (case splitlines (strip text) of
                  [] \<Rightarrow> Inr out
                | version # others \<Rightarrow>
                    if version = [] then Inr out
                    else Inr (fold (\<lambda>alias. dict_set (profile @ ''/'' @ alias) version)
                      (case map_of arch_aliases arch of None \<Rightarrow> [arch] | Some xs \<Rightarrow> xs) out)))))"

definition latest_versions_by_artefact :: "(string \<times> boot_file) list option \<Rightarrow> string pydict response" where
  "latest_versions_by_artefact boot_files = (case boot_files of
     None \<Rightarrow> Inr []
   | Some entries \<Rightarrow> fold record_version entries (Inr []))"

record artifact =
  art_name :: string
  art_size_mb :: nat
  art_mtime :: string

definition artifact_for :: "(string \<times> boot_file) list option \<Rightarrow> string \<Rightarrow> string \<Rightarrow> artifact option" where
  "artifact_for boot_files profile arch = (case boot_files of
     None \<Rightarrow> None
   | Some entries \<Rightarrow>
       (let name = ''fleetboot-'' @ profile @ ''-'' @ arch @ ''.squashfs'' in
        case map_of entries name of
          None \<Rightarrow> None
        | Some f \<Rightarrow> Some \<lparr>art_name = name, art_size_mb = st_size (bf_content f) div (1024 * 1024), art_mtime = format_mtime (bf_mtime f)\<rparr>))"

section \<open>The pages that read\<close>

definition clamp_limit :: "int \<Rightarrow> int" where
  "clamp_limit limit = max 1 (min limit 1000)"

definition events_snapshot :: "string option \<Rightarrow> int \<Rightarrow> world \<Rightarrow> boot_event list \<times> int \<times> string option" where
  "events_snapshot m limit w =
     (let limit' = clamp_limit limit in (recent_boot_events limit' m (reg w), limit', m))"

definition builds_snapshot :: "deployment \<Rightarrow> world \<Rightarrow> bool \<times> (BuildJob \<times> artifact option) list" where
  "builds_snapshot dp w = (is_running (builds w),
     map (\<lambda>j. (j, if job_state j = SUCCEEDED
                   then artifact_for (dp_boot_dir dp) (job_profile j) (job_architecture j) else None)) (list_jobs (builds w)))"

record machine_view =
  mv_machine :: Machine
  mv_state :: "string option"
  mv_last_seen :: "(string \<times> bool) option"
  mv_events :: "boot_event list"
  mv_hardware :: "json option"

definition stored_inventory :: "'h machine \<Rightarrow> json option" where
  \<comment> \<open>\<open>json.loads\<close> of the column, \<open>None\<close> where it is no JSON\<close>
  "stored_inventory m = Option.bind (last_hardware m) json_loads"

definition machine_page :: "int \<Rightarrow> timestamp \<Rightarrow> string \<Rightarrow> world \<Rightarrow> machine_view response" where
  "machine_page limit now m w = (case lookup m (reg w) of
     None \<Rightarrow> Inl (HTTPException 404 ''machine not found'')
   | Some machine \<Rightarrow> (case states_by_mac (reg w) of
       Inl e \<Rightarrow> Inl e
     | Inr states \<Rightarrow> Inr \<lparr>mv_machine = machine, mv_state = dict_get states (mac machine),
         mv_last_seen = format_last_seen now (last_seen_by_mac (reg w)) (mac machine),
         mv_events = recent_boot_events limit (Some m) (reg w), mv_hardware = stored_inventory machine\<rparr>))"

definition machine_snapshot :: "timestamp \<Rightarrow> string \<Rightarrow> world \<Rightarrow> machine_view response" where
  "machine_snapshot now m w = machine_page 30 now m w"

definition machine_detail :: "deployment \<Rightarrow> timestamp \<Rightarrow> string \<Rightarrow> world
  \<Rightarrow> (machine_view \<times> string pydict \<times> string list) response" where
  "machine_detail dp now m w = (case machine_page 200 now m w of
     Inl e \<Rightarrow> Inl e
   | Inr view \<Rightarrow> (case latest_versions_by_artefact (dp_boot_dir dp) of
       Inl e \<Rightarrow> Inl e
     | Inr versions \<Rightarrow> Inr (view, versions, profile_names_of dp w)))"

record fleet_row =
  row_machine :: Machine
  row_state :: "string option"
  row_latest_version :: "string option"
  row_last_seen :: "(string \<times> bool) option"
  row_availability :: string

definition fleet_rows :: "deployment \<Rightarrow> timestamp \<Rightarrow> world \<Rightarrow> fleet_row list response" where
  "fleet_rows dp now w = (case states_by_mac (reg w) of
     Inl e \<Rightarrow> Inl e
   | Inr states \<Rightarrow> (case latest_versions_by_artefact (dp_boot_dir dp) of
       Inl e \<Rightarrow> Inl e
     | Inr versions \<Rightarrow>
         (let reservations = all_active_reservations now (reg w) in
          Inr (map (\<lambda>m. \<lparr>row_machine = m, row_state = dict_get states (mac m),
             row_latest_version = dict_get versions (profile_name m @ ''/'' @ architecture m),
             row_last_seen = format_last_seen now (last_seen_by_mac (reg w)) (mac m),
             row_availability = availability_of (dict_get reservations (mac m))\<rparr>) (list_all (reg w))))))"

definition machines_snapshot :: "deployment \<Rightarrow> timestamp \<Rightarrow> world \<Rightarrow> fleet_row list response" where
  "machines_snapshot dp now w = fleet_rows dp now w"

definition dashboard_home ::
  "deployment \<Rightarrow> timestamp \<Rightarrow> world \<Rightarrow> (fleet_row list \<times> string list \<times> string option) response" where
  "dashboard_home dp now w = (case fleet_rows dp now w of
     Inl e \<Rightarrow> Inl e
   | Inr rows \<Rightarrow> Inr (rows, profile_names_of dp w, get_setting ''pdudaemon_host'' (reg w)))"

definition show_settings :: "world \<Rightarrow> string" where
  "show_settings w = opt_str (get_setting ''pdudaemon_host'' (reg w))"

definition newest_artifact :: "deployment \<Rightarrow> string \<Rightarrow> (artifact \<times> string) option" where
  "newest_artifact dp name = (case artifact_for (dp_boot_dir dp) name ''amd64'' of
     Some a \<Rightarrow> Some (a, ''amd64'')
   | None \<Rightarrow> map_option (\<lambda>a. (a, ''arm64'')) (artifact_for (dp_boot_dir dp) name ''arm64''))"

definition list_profiles_page :: "deployment \<Rightarrow> world \<Rightarrow> (string \<times> (artifact \<times> string) option) list" where
  "list_profiles_page dp w = map (\<lambda>name. (name, newest_artifact dp name)) (profile_names_of dp w)"

definition list_events :: "string option \<Rightarrow> int \<Rightarrow> world \<Rightarrow> boot_event list \<times> int" where
  "list_events m limit w =
     (let limit' = clamp_limit limit in (recent_boot_events limit' m (reg w), limit'))"

definition list_builds_page :: "deployment \<Rightarrow> world \<Rightarrow> (BuildJob \<times> artifact option) list \<times> bool \<times> string list" where
  "list_builds_page dp w = (snd (builds_snapshot dp w), is_running (builds w), profile_names_of dp w)"

definition view_build :: "string \<Rightarrow> world \<Rightarrow> (BuildJob \<times> string list) response" where
  "view_build i w = (case get_job i (builds w) of
     None \<Rightarrow> Inl (HTTPException 404 ''build not found'')
   | Some job \<Rightarrow> Inr (job, tail_log i 400 (builds w)))"

definition list_rules_page :: "deployment \<Rightarrow> world \<Rightarrow> auto_enrol_rule list \<times> string list" where
  "list_rules_page dp w = (list_auto_enrol_rules (reg w), profile_names_of dp w)"

section \<open>The forms\<close>

datatype background =
    Power_Task string string bool          \<comment> \<open>\<open>power_machine\<close> or \<open>reboot_machine\<close>, with \<open>then_delete\<close>\<close>
  | Power_Tasks "string list" string       \<comment> \<open>\<open>power_machines\<close>\<close>

fun run_background :: "deployment \<Rightarrow> background \<Rightarrow> world \<Rightarrow> world" where
  \<comment> \<open>after the answer was sent, so results and exceptions go nowhere\<close>
  "run_background dp (Power_Task m action then_delete) w =
     with_reg (\<lambda>d. snd (power_machine (dp_shell dp) (dp_timeout dp) m action then_delete d)) w"
| "run_background dp (Power_Tasks ms action) w =
     with_reg (\<lambda>d. snd (power_machines (dp_shell dp) (dp_timeout dp) ms action d)) w"

type_synonym redirect = "string \<times> background list"

definition reg_call :: "(db \<Rightarrow> 'a result \<times> db) \<Rightarrow> ('a \<Rightarrow> 'b response) \<Rightarrow> 'b handler" where
  \<comment> \<open>a call of the registry whose exceptions the route does not catch\<close>
  "reg_call f answer w = (case f (reg w) of
     (Inl e, d) \<Rightarrow> (Inl Server_Error, w\<lparr>reg := d\<rparr>)
   | (Inr x, d) \<Rightarrow> (answer x, w\<lparr>reg := d\<rparr>))"

record machine_form =
  mf_mac :: string
  mf_profile_name :: string
  mf_architecture :: string
  mf_platform :: string
  mf_serial_console :: "string option"
  mf_scratch_mode :: string

definition enrol_machine_form :: "timestamp \<Rightarrow> machine_form \<Rightarrow> redirect handler" where
  "enrol_machine_form now form w =
     (if mf_scratch_mode form \<notin> {''volatile'', ''persistent'', ''off''} then (Inl bad_scratch_mode, w)
      else reg_call (enroll now (mf_mac form) (mf_profile_name form) (mf_architecture form) (mf_platform form)
               (truthy (mf_serial_console form)) ''manual'' (mf_scratch_mode form))
             (\<lambda>machine. Inr (''/dashboard'', [])) w)"

definition delete_machine_form :: "string \<Rightarrow> redirect handler" where
  "delete_machine_form m w = (Inr (''/dashboard'', []), with_reg (\<lambda>d. snd (remove m d)) w)"

definition update_settings :: "timestamp \<Rightarrow> string \<Rightarrow> redirect handler" where
  "update_settings now pdudaemon_host w =
     (Inr (''/dashboard/settings'', []), with_reg (set_setting now ''pdudaemon_host'' (Some pdudaemon_host)) w)"

record rule_form =
  rf_name :: string
  rf_match_kind :: string
  rf_match_value :: string
  rf_profile_name :: string
  rf_architecture :: string
  rf_platform :: string
  rf_serial_console :: "string option"
  rf_scratch_mode :: string

definition check_rule_form :: "rule_form \<Rightarrow> unit response" where
  "check_rule_form form =
     (if rf_match_kind form \<notin> {''mac_prefix'', ''ip_cidr''} then Inl (HTTPException 400 ''invalid match_kind'')
      else if rf_platform form \<notin> {''any'', ''efi'', ''pc''}
      then Inl (HTTPException 400 (''platform must be '' @ [CHR 0x27] @ ''any'' @ [CHR 0x27] @ '', '' @ [CHR 0x27] @ ''efi''
             @ [CHR 0x27] @ '', or '' @ [CHR 0x27] @ ''pc'' @ [CHR 0x27]))
      else if rf_scratch_mode form \<notin> {''volatile'', ''persistent'', ''off''} then Inl bad_scratch_mode
      else Inr ())"

definition add_rule_form :: "timestamp \<Rightarrow> rule_form \<Rightarrow> redirect handler" where
  "add_rule_form now form w = (case check_rule_form form of
     Inl e \<Rightarrow> (Inl e, w)
   | Inr u \<Rightarrow> (case add_auto_enrol_rule now (rf_name form) (rf_match_kind form) (rf_match_value form) (rf_profile_name form)
           (rf_architecture form) (rf_platform form) (truthy (rf_serial_console form)) (rf_scratch_mode form) (reg w) of
         (Inl e, d) \<Rightarrow> (Inl (value_error e), w\<lparr>reg := d\<rparr>)
       | (Inr rule, d) \<Rightarrow> (Inr (''/dashboard/auto-enrol-rules'', []), w\<lparr>reg := d\<rparr>)))"

definition update_rule_form :: "nat \<Rightarrow> rule_form \<Rightarrow> redirect handler" where
  "update_rule_form i form w = (case check_rule_form form of
     Inl e \<Rightarrow> (Inl e, w)
   | Inr u \<Rightarrow> (case update_auto_enrol_rule i (rf_name form) (rf_match_kind form) (rf_match_value form) (rf_profile_name form)
           (rf_architecture form) (rf_platform form) (truthy (rf_serial_console form)) (rf_scratch_mode form) (reg w) of
         (Inl e, d) \<Rightarrow> (Inl (value_error e), w\<lparr>reg := d\<rparr>)
       | (Inr None, d) \<Rightarrow> (Inl (HTTPException 404 ''rule not found''), w\<lparr>reg := d\<rparr>)
       | (Inr (Some rule), d) \<Rightarrow> (Inr (''/dashboard/auto-enrol-rules'', []), w\<lparr>reg := d\<rparr>)))"

definition delete_rule_form :: "nat \<Rightarrow> redirect handler" where
  "delete_rule_form i w =
     (Inr (''/dashboard/auto-enrol-rules'', []), with_reg (\<lambda>d. snd (remove_auto_enrol_rule i d)) w)"

definition machine_url :: "string \<Rightarrow> string" where
  "machine_url m = ''/dashboard/machines/'' @ m"

definition set_reboot_command_form :: "string \<Rightarrow> string \<Rightarrow> redirect handler" where
  "set_reboot_command_form m command =
     reg_call (set_reboot_command m (Some command)) (\<lambda>u. Inr (machine_url m, []))"

definition delete_and_reboot :: "string \<Rightarrow> redirect handler" where
  "delete_and_reboot m w = (Inr (''/dashboard'', [Power_Task m ''reboot'' True]), w)"

definition reboot_machine_route :: "string \<Rightarrow> redirect handler" where
  "reboot_machine_route m w = (Inr (''/dashboard'', [Power_Task m ''reboot'' False]), w)"

definition machine_missing :: http_error where
  "machine_missing = HTTPException 404 ''machine not found''"

definition set_machine_profile_form :: "deployment \<Rightarrow> string \<Rightarrow> string \<Rightarrow> redirect handler" where
  "set_machine_profile_form dp m profile w =
     (if profile \<notin> set (profile_names_of dp w) then (Inl (HTTPException 400 (''unknown profile: '' @ profile)), w)
      else reg_call (set_profile m profile) (\<lambda>known. if known then Inr (machine_url m, []) else Inl machine_missing) w)"

definition power_machine_route :: "string \<Rightarrow> string \<Rightarrow> redirect handler" where
  "power_machine_route m action w =
     (if action \<notin> set POWER_ACTIONS
      then (Inl (HTTPException 400 (''action must be one of '' @ join '', '' POWER_ACTIONS)), w)
      else (Inr (machine_url m, [Power_Task m action False]), w))"

definition release_to_pool_route :: "timestamp \<Rightarrow> string \<Rightarrow> redirect handler" where
  "release_to_pool_route now m w =
     (if lookup m (reg w) = None then (Inl machine_missing, w)
      else (Inr (''/dashboard'', []), with_reg (\<lambda>d. snd (release_to_pool now m d)) w))"

definition pin_machine_route :: "timestamp \<Rightarrow> string \<Rightarrow> redirect handler" where
  "pin_machine_route now m = reg_call (pin now m ''admin'' None (Some ''pinned from dashboard''))
     (\<lambda>held. if held = None then Inl machine_missing else Inr (''/dashboard'', []))"

definition release_lease_route :: "timestamp \<Rightarrow> string \<Rightarrow> redirect handler" where
  "release_lease_route now m w =
     (let (freed, d) = release now (Some [m]) None (reg w)
      in (Inr (''/dashboard'', [Power_Tasks freed ''off'']), w\<lparr>reg := d\<rparr>))"

definition set_power_settings :: "string \<Rightarrow> string \<Rightarrow> string \<Rightarrow> string \<Rightarrow> redirect handler" where
  "set_power_settings m alias on_command off_command w =
     (case set_power_command m ''on'' (Some on_command) (set_pdu_alias m (Some alias) (reg w)) of
        (Inl e, d) \<Rightarrow> (Inl Server_Error, w\<lparr>reg := d\<rparr>)
      | (Inr u, d) \<Rightarrow> reg_call (set_power_command m ''off'' (Some off_command)) (\<lambda>u. Inr (machine_url m, [])) (w\<lparr>reg := d\<rparr>))"

definition trigger_build :: "(nat \<Rightarrow> string) \<Rightarrow> deployment \<Rightarrow> string \<Rightarrow> string \<Rightarrow> string option \<Rightarrow> redirect handler" where
  "trigger_build ids dp profile arch auto w = (case safe_profile_dir (dp_resolve dp) (dp_profiles_root dp) profile of
     Inl e \<Rightarrow> (Inl e, w)
   | Inr pdir \<Rightarrow>
       if \<not> is_dir (tree w) (dp_resolve dp (dp_profiles_root dp @ [profile])) then (Inl (HTTPException 404 ''profile not found''), w)
       else case start_with_downstream ids (profiles_of (dp_profiles_root dp) (tree w)) profile arch (truthy auto) (builds w) of
         (Inl e, b) \<Rightarrow> (Inr (''/dashboard/builds?error=already-running'', []), w\<lparr>builds := b\<rparr>)
       | (Inr [], b) \<Rightarrow> (Inl Server_Error, w\<lparr>builds := b\<rparr>)
       | (Inr (job # rest), b) \<Rightarrow> (Inr (''/dashboard/builds/'' @ job_id job, []), w\<lparr>builds := b\<rparr>))"

definition in_tree :: "string file_step \<Rightarrow> redirect handler" where
  "in_tree f w = (case f (tree w) of
     (Inl e, fs) \<Rightarrow> (Inl e, w\<lparr>tree := fs\<rparr>) | (Inr url, fs) \<Rightarrow> (Inr (url, []), w\<lparr>tree := fs\<rparr>))"

section \<open>All the forms\<close>

datatype dash_form =
    Enrol_Form machine_form
  | Delete_Form string
  | Settings_Form string
  | Add_Rule_Form rule_form
  | Update_Rule_Form nat rule_form
  | Delete_Rule_Form nat
  | Reboot_Command_Form string string
  | Delete_And_Reboot_Form string
  | Reboot_Form string
  | Profile_Of_Machine_Form string string
  | Power_Form string string
  | To_Pool_Form string
  | Pin_Form string
  | Release_Lease_Form string
  | Power_Settings_Form string string string string
  | Build_Form string string "string option"
  | Save_Profile_Form string profile_form
  | Overlay_Form overlay_edit string string

fun form_handler :: "(nat \<Rightarrow> string) \<Rightarrow> timestamp \<Rightarrow> deployment \<Rightarrow> dash_form \<Rightarrow> redirect handler" where
  "form_handler ids now dp (Enrol_Form form) = enrol_machine_form now form"
| "form_handler ids now dp (Delete_Form m) = delete_machine_form m"
| "form_handler ids now dp (Settings_Form host) = update_settings now host"
| "form_handler ids now dp (Add_Rule_Form form) = add_rule_form now form"
| "form_handler ids now dp (Update_Rule_Form i form) = update_rule_form i form"
| "form_handler ids now dp (Delete_Rule_Form i) = delete_rule_form i"
| "form_handler ids now dp (Reboot_Command_Form m command) = set_reboot_command_form m command"
| "form_handler ids now dp (Delete_And_Reboot_Form m) = delete_and_reboot m"
| "form_handler ids now dp (Reboot_Form m) = reboot_machine_route m"
| "form_handler ids now dp (Profile_Of_Machine_Form m profile) = set_machine_profile_form dp m profile"
| "form_handler ids now dp (Power_Form m action) = power_machine_route m action"
| "form_handler ids now dp (To_Pool_Form m) = release_to_pool_route now m"
| "form_handler ids now dp (Pin_Form m) = pin_machine_route now m"
| "form_handler ids now dp (Release_Lease_Form m) = release_lease_route now m"
| "form_handler ids now dp (Power_Settings_Form m alias on off) = set_power_settings m alias on off"
| "form_handler ids now dp (Build_Form profile arch auto) = trigger_build ids dp profile arch auto"
| "form_handler ids now dp (Save_Profile_Form name form) =
     in_tree (save_profile_page (dp_resolve dp) (dp_profiles_root dp) name form)"
| "form_handler ids now dp (Overlay_Form op name relpath) =
     in_tree (edit_overlay op (dp_resolve dp) (dp_profiles_root dp) name relpath)"

definition submit_form ::
  "(nat \<Rightarrow> string) \<Rightarrow> timestamp \<Rightarrow> deployment \<Rightarrow> string \<Rightarrow> dash_form \<Rightarrow> world \<Rightarrow> string response \<times> world" where
  \<comment> \<open>a form, and then its background tasks\<close>
  "submit_form ids now dp password form w = (case guarded dp password (form_handler ids now dp form) w of
     (Inl e, w') \<Rightarrow> (Inl e, w')
   | (Inr (url, tasks), w') \<Rightarrow> (Inr url, fold (run_background dp) tasks w'))"

section \<open>The forms keep the registry well-formed\<close>

lemma basic_auth_ok: "basic_auth dp password = Inr u \<Longrightarrow> password = dp_admin dp"
  by (auto simp: basic_auth_def compare_digest_def split: if_splits sum.splits)

lemma reg_with_reg [simp]: "reg (with_reg f w) = f (reg w)"
  by (simp add: with_reg_def)

lemma wf_background: "wf_db (reg w) \<Longrightarrow> wf_db (reg (run_background dp task w))"
  by (cases task) (simp_all add: wf_intros)

lemma wf_backgrounds: "wf_db (reg w) \<Longrightarrow> wf_db (reg (fold (run_background dp) tasks w))"
  by (induction tasks arbitrary: w) (simp_all add: wf_background)

lemma wf_reg_call: "wf_db (snd (f (reg w))) \<Longrightarrow> wf_db (reg (snd (reg_call f answer w)))"
  by (auto simp: reg_call_def split: prod.split sum.split)

lemma in_tree_reg [simp]: "reg (snd (in_tree f w)) = reg w"
  by (simp add: in_tree_def split: prod.split sum.split)

lemma trigger_build_reg [simp]: "reg (snd (trigger_build ids dp profile arch auto w)) = reg w"
  by (simp add: trigger_build_def split: prod.split sum.split list.split)

lemma wf_set_reboot_command [wf_intros]: "wf_db d \<Longrightarrow> wf_db (snd (set_reboot_command m v d))"
  by (simp add: set_reboot_command_def wf_stamps)

lemma wf_rule_forms:
  assumes "wf_db (reg w)"
  shows "wf_db (reg (snd (add_rule_form now form w)))" "wf_db (reg (snd (update_rule_form i form w)))"
proof -
  have "wf_db d" if "add_auto_enrol_rule now a b c e f g h k (reg w) = (r, d)" for a b c e f g h k r d
    using wf_rule_operations(1) [OF assms, of now a b c e f g h k] that by simp
  then show "wf_db (reg (snd (add_rule_form now form w)))"
    using assms by (auto simp: add_rule_form_def split: prod.split sum.split)
  have "wf_db d" if "update_auto_enrol_rule i a b c e f g h k (reg w) = (r, d)" for a b c e f g h k r d
    using wf_rule_operations(2) [OF assms, of i a b c e f g h k] that by simp
  then show "wf_db (reg (snd (update_rule_form i form w)))"
    using assms by (auto simp: update_rule_form_def split: prod.split sum.split option.split)
qed

lemma wf_set_power_settings:
  assumes wf: "wf_db (reg w)"
  shows "wf_db (reg (snd (set_power_settings m alias on off w)))"
proof -
  obtain r d where first: "set_power_command m ''on'' (Some on) (set_pdu_alias m (Some alias) (reg w)) = (r, d)" by force
  then have "wf_db d" using wf by (metis snd_conv wf_stamps(7,8))
  then have "wf_db (snd (set_power_command m ''off'' (Some off) d))" by (rule wf_stamps)
  with first \<open>wf_db d\<close> show ?thesis
    by (auto simp: set_power_settings_def intro!: wf_reg_call split: sum.split)
qed

lemma wf_form_handler:
  assumes wf: "wf_db (reg w)"
  shows "wf_db (reg (snd (form_handler ids now dp form w)))"
proof (cases form)
  case (Release_Lease_Form m)
  then show ?thesis using wf_holds(1) [OF wf] by (simp add: release_lease_route_def split_beta)
qed (use wf in \<open>simp_all add: enrol_machine_form_def delete_machine_form_def update_settings_def delete_rule_form_def
    set_reboot_command_form_def delete_and_reboot_def reboot_machine_route_def set_machine_profile_form_def
    power_machine_route_def release_to_pool_route_def pin_machine_route_def wf_reg_call wf_intros
    wf_rule_forms wf_set_power_settings\<close>)

text \<open>The administrator's forms keep the registry well-formed: no machine twice, at most one
  un-released hold of a machine and none of a machine that is gone, no expiry on a permanent hold. That
  includes the tasks that run after the answer. A wrong password changes nothing and gets no
  answer but an error.\<close>
theorem forms_keep_the_registry:
  assumes "submit_form ids now dp password form w = (res, w')" and "wf_db (reg w)"
  shows "wf_db (reg w') \<and> (password \<noteq> dp_admin dp \<longrightarrow> w' = w \<and> (\<exists>e. res = Inl e))"
proof (cases "basic_auth dp password")
  case (Inl e)
  with assms show ?thesis by (auto simp: submit_form_def guarded_def)
next
  case (Inr u)
  obtain r w1 where h: "form_handler ids now dp form w = (r, w1)" by force
  then have "wf_db (reg w1)" using wf_form_handler [OF assms(2), of ids now dp form] by simp
  with assms(1) Inr h wf_backgrounds basic_auth_ok [OF Inr] show ?thesis
    by (auto simp: submit_form_def guarded_def split: sum.splits prod.splits)
qed


definition example_deployment :: deployment where
  "example_deployment = \<lparr>dp_admin = ''adm1n'', dp_pool = Some ''p00l'', dp_profiles_root = [''p''], dp_resolve = id,
     dp_boot_dir = Some [(''fleetboot-lab-amd64.version'', \<lparr>bf_content = Text (''v7'' @ [newline]), bf_mtime = 1792775460\<rparr>),
       (''fleetboot-lab-amd64.squashfs'', \<lparr>bf_content = Undecodable 3145728 False, bf_mtime = 1792775520\<rparr>)],
     dp_shell = (\<lambda>command. Exited_With 0), dp_timeout = ''60''\<rparr>"

definition example_world :: world where
  "example_world = \<lparr>reg = pool_example, builds = empty_manager, tree = example_tree,
     bugs = Some \<lparr>open_reports = [], resolved_reports = []\<rparr>\<rparr>"

lemma forms_keep_the_registry_witness:
  "wf_db (reg (snd (submit_form (\<lambda>n. ''j'') 10 example_deployment ''adm1n'' (Release_Lease_Form ''bb'') example_world)))
   \<and> snd (submit_form (\<lambda>n. ''j'') 10 example_deployment ''guess'' (Delete_Form ''aa'') example_world) = example_world"
proof -
  have wf: "wf_db (reg example_world)" by (simp add: example_world_def pool_example_facts)
  have e: "submit_form ids now dp pw form w = (fst (submit_form ids now dp pw form w), snd (submit_form ids now dp pw form w))"
    for ids now dp pw form w by simp
  show ?thesis
    using forms_keep_the_registry [OF e wf, of "\<lambda>n. ''j''" 10 example_deployment "''adm1n''" "Release_Lease_Form ''bb''"]
      forms_keep_the_registry [OF e wf, of "\<lambda>n. ''j''" 10 example_deployment "''guess''" "Delete_Form ''aa''"]
    by (simp add: example_deployment_def)
qed

section \<open>Which version a machine's row is compared with\<close>

lemma aliases_agree: "arch_aliases = ARCHITECTURE_ALIASES"
  by (simp add: arch_aliases_def ARCHITECTURE_ALIASES_def)

end
