(* ===== verification/Mcp_Docs.thy ===== *)
theory Mcp_Docs
  imports Py_Strings
begin

text \<open>
  \<open>src/fleetboot/server/mcp_docs.py\<close>: the documentation topics an agent can read. The bodies of the
  pages are long constant texts; they are the argument \<open>page\<close>, from topic names to markdown.
\<close>

definition DOC_URI_PREFIX :: string where "DOC_URI_PREFIX = ''fleetboot://docs/''"
definition DOC_MIME_TYPE :: string where "DOC_MIME_TYPE = ''text/markdown''"
definition DEFAULT_TOPIC :: string where "DEFAULT_TOPIC = ''overview''"

record DocTopic =
  topic_name :: string
  topic_title :: string
  topic_summary :: string
  topic_body :: string

definition topic_uri :: "DocTopic \<Rightarrow> string" where
  "topic_uri topic = DOC_URI_PREFIX @ topic_name topic"

definition em_dash :: string where "em_dash = [CHR '' '', CHR 0x97, CHR '' '']"

definition apostrophe :: string where "apostrophe = [CHR 0x27]"

definition TOPIC_TABLE :: "(string \<times> string \<times> string) list" where
  "TOPIC_TABLE =
    [(''overview'', ''What fleetboot is'',
      ''The system in one page: what fleetboot does, the four layers, what it deliberately isn'' @ apostrophe
        @ ''t, and the vocabulary.''),
     (''services'', ''What fleetboot offers'',
      ''Every service on offer'' @ em_dash @ ''MCP tools, the HTTP rails the fleet boots against, the operator API, ''
        @ ''and the companion projects.''),
     (''profiles'', ''Profiles: how an image is composed'',
      ''The profile contract, how inheritance merges packages, overlays and scripts, and how to author one from an agent.''),
     (''workflows'', ''Recipes'',
      ''Step-by-step tool sequences: enrol, roll out a new image, power on and off, diagnose, retire'' @ em_dash
        @ ''and what has no undo.''),
     (''on-demand-compute'', ''Running the fleet as on-demand compute'',
      ''Renting the fleet to an agent as generic compute: spin up a temporary worker to compile a kernel, ''
        @ ''cross-compile, or run a job, then power it down'' @ em_dash @ ''and what fleetboot doesn'' @ apostrophe @ ''t do.''),
     (''reservations'', ''Reservations: availability for both fleet and compute'',
      ''How fleetboot tracks who holds a machine'' @ em_dash @ ''permanent fleet holds and timed compute leases in one model''
        @ em_dash @ ''so an agent knows what'' @ apostrophe @ ''s claimable and a school desktop is never grabbed.''),
     (''boot-lifecycle'', ''The boot lifecycle'',
      ''The ordered states a boot reports, who emits each, and what a stall at each one usually means.''),
     (''examples'', ''Talking to this endpoint'',
      ''Raw JSON-RPC over the wire: client config, handshake, tool calls, resource reads, and how errors are shaped.'')]"

definition TOPICS :: "(string \<Rightarrow> string) \<Rightarrow> DocTopic list" where
  "TOPICS page = map (\<lambda>(name, title, summary).
     \<lparr>topic_name = name, topic_title = title, topic_summary = summary, topic_body = page name\<rparr>) TOPIC_TABLE"

definition topic_names :: "string list" where
  "topic_names = map fst TOPIC_TABLE"

definition get_topic :: "(string \<Rightarrow> string) \<Rightarrow> string \<Rightarrow> DocTopic option" where
  "get_topic page name = List.find (\<lambda>topic. topic_name topic = name) (TOPICS page)"

definition topic_for_uri :: "(string \<Rightarrow> string) \<Rightarrow> string \<Rightarrow> DocTopic option" where
  "topic_for_uri page uri =
     (if \<not> startswith uri DOC_URI_PREFIX then None else get_topic page (drop (length DOC_URI_PREFIX) uri))"

definition resource_descriptors :: "(string \<Rightarrow> string) \<Rightarrow> (string \<times> string \<times> string \<times> string \<times> string) list" where
  \<comment> \<open>uri, name, title, description and MIME type\<close>
  "resource_descriptors page = map (\<lambda>topic. (topic_uri topic, topic_name topic, topic_title topic,
     topic_summary topic, DOC_MIME_TYPE)) (TOPICS page)"

definition topic_index :: string where
  "topic_index = join [newline]
     ([[], ''---'', [], ''**Other topics** (`describe_fleetboot`, or read `fleetboot://docs/<topic>`):'', []]
      @ map (\<lambda>(name, title, summary). ''- `'' @ name @ ''`'' @ em_dash @ summary) TOPIC_TABLE) @ [newline]"

lemma topics_distinct: "distinct topic_names"
  by code_simp

lemma default_topic_exists: "DEFAULT_TOPIC \<in> set topic_names"
  by code_simp

lemma get_topic_iff: "get_topic page name \<noteq> None \<longleftrightarrow> name \<in> set topic_names"
  by (force simp: get_topic_def find_None_iff TOPICS_def topic_names_def)

text \<open>The two ways to a page agree: the tool by name and the resource by URI.\<close>

lemma uri_reads_the_topic: "topic_for_uri page (DOC_URI_PREFIX @ name) = get_topic page name"
  by (simp add: topic_for_uri_def)

end
