(* ===== verification/Mcp.thy ===== *)
theory Mcp
  imports Dashboard Mcp_Docs
begin

text \<open>
  The MCP endpoint, \<open>src/fleetboot/server/mcp.py\<close>: JSON-RPC requests that call tools, with an admin
  and a pool token. A tool takes the arguments object (its keys are distinct) and the \<open>world\<close> of
  \<open>Dashboard\<close>, and returns a result or an exception with the new world. \<open>ToolError\<close> is
  \<open>_ToolError\<close>, which the caller sees as a result marked as an error; \<open>Uncaught\<close> is any other
  exception, which \<open>_dispatch\<close> turns into an internal error that carries its text (left out here).

  A \<open>request_env\<close> is what a request meets by chance: the time, the ids of new build jobs, the id and
  the time stamp of a new bug report, and Python's \<open>str\<close> of a JSON value that is not a string. Times
  in the payloads are seconds. A JSON float is an exact rational, so \<open>NaN\<close> and the infinities that
  \<open>json.loads\<close> also reads are left out.
\<close>

section \<open>Arguments\<close>

datatype tool_error = ToolError string | Uncaught

datatype tool_result = Text_Result json | Markdown_Result string

type_synonym tool = "json pydict \<Rightarrow> world \<Rightarrow> (tool_error + tool_result) \<times> world"

record request_env =
  rq_now :: timestamp
  rq_job_ids :: "nat \<Rightarrow> string"
  rq_report_id :: string
  rq_time :: string
  rq_str :: "json \<Rightarrow> string"
  rq_page :: "string \<Rightarrow> string"

definition arg_or :: "json pydict \<Rightarrow> string \<Rightarrow> json \<Rightarrow> json" where
  \<comment> \<open>\<open>args.get(key, default)\<close>\<close>
  "arg_or args key dflt = (case dict_get args key of None \<Rightarrow> dflt | Some v \<Rightarrow> v)"

definition missing_argument :: "string \<Rightarrow> tool_error" where
  "missing_argument key = ToolError (''missing argument: '' @ key)"

definition wrong_kind :: "string \<Rightarrow> string \<Rightarrow> tool_error" where
  "wrong_kind key kind = ToolError (''argument '' @ key @ '' must be '' @ kind)"

definition require_str :: "json pydict \<Rightarrow> string \<Rightarrow> tool_error + string" where
  "require_str args key = (case dict_get args key of
     None \<Rightarrow> Inl (missing_argument key) | Some (JStr s) \<Rightarrow> Inr s | Some v \<Rightarrow> Inl (wrong_kind key ''str''))"

definition require_bool :: "json pydict \<Rightarrow> string \<Rightarrow> tool_error + bool" where
  "require_bool args key = (case dict_get args key of
     None \<Rightarrow> Inl (missing_argument key) | Some (JBool b) \<Rightarrow> Inr b | Some v \<Rightarrow> Inl (wrong_kind key ''bool''))"

definition require_int :: "json pydict \<Rightarrow> string \<Rightarrow> tool_error + json" where
  \<comment> \<open>\<open>isinstance(True, int)\<close> holds\<close>
  "require_int args key = (case dict_get args key of
     None \<Rightarrow> Inl (missing_argument key)
   | Some (JInt i) \<Rightarrow> Inr (JInt i) | Some (JBool b) \<Rightarrow> Inr (JBool b) | Some v \<Rightarrow> Inl (wrong_kind key ''int''))"

definition optional_str :: "json pydict \<Rightarrow> string \<Rightarrow> tool_error + string option" where
  \<comment> \<open>the tools that test \<open>is not None and not isinstance(..., str)\<close>\<close>
  "optional_str args key = (case arg_or args key JNull of
     JNull \<Rightarrow> Inr None | JStr s \<Rightarrow> Inr (Some s) | v \<Rightarrow> Inl (ToolError (key @ '' must be a string'')))"

definition bind :: "'e + 'a \<Rightarrow> ('a \<Rightarrow> 'w \<Rightarrow> ('e + 'b) \<times> 'w) \<Rightarrow> 'w \<Rightarrow> ('e + 'b) \<times> 'w" where
  \<comment> \<open>go on with the value, or leave with the exception\<close>
  "bind x f w = (case x of Inl e \<Rightarrow> (Inl e, w) | Inr a \<Rightarrow> f a w)"

definition truncate_rat :: "rat \<Rightarrow> int" where
  "truncate_rat r = (if r < 0 then \<lceil>r\<rceil> else \<lfloor>r\<rfloor>)"

definition py_int :: "json \<Rightarrow> int option" where
  \<comment> \<open>\<open>int(v)\<close>, \<open>None\<close> where it raises\<close>
  "py_int v = (case v of JInt i \<Rightarrow> Some i | JBool b \<Rightarrow> Some (if b then 1 else 0) | JFloat r \<Rightarrow> Some (truncate_rat r)
     | JStr s \<Rightarrow> int_of_str s | _ \<Rightarrow> None)"

definition of_http :: "http_error \<Rightarrow> tool_error" where
  \<comment> \<open>\<open>except HTTPException as err: raise _ToolError(err.detail)\<close>\<close>
  "of_http e = (case e of HTTPException status text \<Rightarrow> ToolError text | Server_Error \<Rightarrow> Uncaught)"

section \<open>Payloads\<close>

definition jstr :: "string option \<Rightarrow> json" where
  "jstr v = (case v of None \<Rightarrow> JNull | Some s \<Rightarrow> JStr s)"

definition jint :: "int option \<Rightarrow> json" where
  "jint v = (case v of None \<Rightarrow> JNull | Some i \<Rightarrow> JInt i)"

definition jstrs :: "string list \<Rightarrow> json" where
  "jstrs xs = JList (map JStr xs)"

record live =
  lv_state :: "string option"
  lv_last_seen :: "timestamp option"
  lv_seconds :: "int option"
  lv_online :: bool

definition OFFLINE :: live where
  "OFFLINE = \<lparr>lv_state = None, lv_last_seen = None, lv_seconds = None, lv_online = False\<rparr>"

definition liveness_by_mac :: "timestamp \<Rightarrow> db \<Rightarrow> (string \<Rightarrow> live option) response" where
  "liveness_by_mac now d = (case states_by_mac d of
     Inl e \<Rightarrow> Inl e
   | Inr states \<Rightarrow> Inr (\<lambda>m. case last_seen_by_mac d m of
         Some ts \<Rightarrow> (let seconds = max 0 (now - ts) in
           Some \<lparr>lv_state = dict_get states m, lv_last_seen = Some ts, lv_seconds = Some seconds,
             lv_online = seconds < STALE_AFTER_SECONDS\<rparr>)
       | None \<Rightarrow> map_option (\<lambda>state. OFFLINE\<lparr>lv_state := Some state\<rparr>) (dict_get states m)))"

definition live_of :: "(string \<Rightarrow> live option) \<Rightarrow> string \<Rightarrow> live" where
  "live_of liveness m = (case liveness m of None \<Rightarrow> OFFLINE | Some l \<Rightarrow> l)"

definition lease_kind_text :: "lease_kind \<Rightarrow> string" where
  "lease_kind_text k = (case k of Permanent \<Rightarrow> ''permanent'' | Lease \<Rightarrow> ''lease'')"

definition reservation_dict :: "reservation option \<Rightarrow> json" where
  "reservation_dict res = (case res of None \<Rightarrow> JNull
   | Some r \<Rightarrow> JObj [(''holder'', JStr (holder r)), (''purpose'', jstr (purpose r)),
        (''lease_kind'', JStr (lease_kind_text (lease_kind r))), (''acquired_at'', JInt (acquired_at r)),
        (''expires_at'', jint (expires_at r))])"

definition hardware_inventory :: "'h machine \<Rightarrow> json" where
  "hardware_inventory m = (case stored_inventory m of Some (JObj d) \<Rightarrow> JObj d | _ \<Rightarrow> JNull)"

definition machine_dict :: "live \<Rightarrow> reservation option \<Rightarrow> Machine \<Rightarrow> json" where
  "machine_dict l res m = JObj
     [(''mac'', JStr (mac m)), (''hostname'', jstr (hostname m)), (''profile_name'', JStr (profile_name m)),
      (''architecture'', JStr (architecture m)), (''platform'', JStr (platform m)),
      (''last_ip'', jstr (last_ip m)), (''last_ip_at'', jint (last_ip_at m)),
      (''ram_total_mb'', case ram_total_mb (hardware_spec m) of None \<Rightarrow> JNull | Some v \<Rightarrow> v),
      (''hardware_spec'', case hardware_spec m of None \<Rightarrow> JNull | Some d \<Rightarrow> JObj d),
      (''hardware'', hardware_inventory m), (''hardware_reported_at'', jint (last_hardware_at m)),
      (''boot_version'', jstr (boot_version m)), (''pending_reboot'', JBool (pending_reboot m)),
      (''reboot_command'', jstr (reboot_command m)), (''power_on_command'', jstr (power_on_command m)),
      (''power_off_command'', jstr (power_off_command m)), (''pdu_alias'', jstr (pdu_alias m)),
      (''scratch_mode'', JStr (scratch_mode m)), (''serial_console'', JBool (serial_console m)),
      (''enrolled_by'', JStr (enrolled_by m)), (''availability'', JStr (availability_of res)),
      (''reservation'', reservation_dict res), (''state'', jstr (lv_state l)),
      (''last_seen'', jint (lv_last_seen l)), (''seconds_since_last_seen'', jint (lv_seconds l)),
      (''online'', JBool (lv_online l))]"

definition power_result_dict :: "PowerResult \<Rightarrow> json" where
  "power_result_dict r = JObj [(''mac'', JStr (pr_mac r)), (''action'', JStr (pr_action r)), (''method'', JStr (pr_method r)),
     (''ok'', JBool (pr_ok r)), (''detail'', JStr (pr_detail r)), (''deleted'', JBool (pr_deleted r))]"

definition job_state_value :: "JobState \<Rightarrow> string" where
  "job_state_value s = (case s of QUEUED \<Rightarrow> ''queued'' | RUNNING \<Rightarrow> ''running'' | SUCCEEDED \<Rightarrow> ''succeeded''
     | FAILED \<Rightarrow> ''failed'' | REJECTED \<Rightarrow> ''rejected'' | SKIPPED \<Rightarrow> ''skipped'')"

definition job_fields :: "BuildJob \<Rightarrow> json pydict" where
  "job_fields j = [(''job_id'', JStr (job_id j)), (''profile'', JStr (job_profile j)),
     (''architecture'', JStr (job_architecture j)), (''state'', JStr (job_state_value (job_state j))),
     (''exit_code'', jint (exit_code j)), (''started_at'', JInt (started_at j)), (''finished_at'', jint (finished_at j)),
     (''auto_reboot'', JBool (auto_reboot j)), (''auto_reboot_armed'', jint (map_option int (auto_reboot_armed j))),
     (''cascade_root'', jstr (cascade_root j))]"

definition event_dict :: "boot_event \<Rightarrow> json" where
  "event_dict e = JObj [(''occurred_at'', JInt (occurred_at e)), (''mac'', JStr (ev_mac e)), (''state'', JStr (ev_state e)),
     (''detail'', JStr (opt_str (ev_detail e)))]"

definition summary_fields :: "BugReport \<Rightarrow> json pydict" where
  "summary_fields r = (let s = summary r in
     [(''id'', JStr (sum_id s)), (''title'', JStr (sum_title s)), (''status'', JStr (sum_status s)),
      (''severity'', JStr (sum_severity s)), (''reported_at'', JStr (sum_reported_at s)),
      (''component'', jstr (sum_component s)), (''reporter'', jstr (sum_reporter s))])"

definition report_dict :: "BugReport \<Rightarrow> json" where
  "report_dict r = JObj (summary_fields r @ [(''token'', JStr (br_token r)), (''description'', JStr (br_description r)),
     (''resolution'', jstr (br_resolution r)), (''file'', JStr (br_path r))])"

section \<open>Tools that only read\<close>

definition reading :: "(json pydict \<Rightarrow> world \<Rightarrow> tool_error + tool_result) \<Rightarrow> tool" where
  "reading f args w = (f args w, w)"

definition describe_fleetboot :: "request_env \<Rightarrow> json pydict \<Rightarrow> world \<Rightarrow> tool_error + tool_result" where
  "describe_fleetboot q args w = (case arg_or args ''topic'' (JStr DEFAULT_TOPIC) of
     JStr name \<Rightarrow> (case get_topic (rq_page q) name of
         None \<Rightarrow> Inl (ToolError (''unknown topic: '' @ py_repr name @ ''. Known topics: '' @ join '', '' topic_names))
       | Some topic \<Rightarrow> Inr (Markdown_Result (topic_body topic @ topic_index)))
   | v \<Rightarrow> Inl (ToolError ''topic must be a string''))"

definition list_machines_tool :: "request_env \<Rightarrow> json pydict \<Rightarrow> world \<Rightarrow> tool_error + tool_result" where
  "list_machines_tool q args w = (case liveness_by_mac (rq_now q) (reg w) of
     Inl e \<Rightarrow> Inl Uncaught
   | Inr liveness \<Rightarrow>
       (let reservations = all_active_reservations (rq_now q) (reg w) in
        Inr (Text_Result (JObj [(''machines'', JList (map
          (\<lambda>m. machine_dict (live_of liveness (mac m)) (dict_get reservations (mac m)) m) (list_all (reg w))))]))))"

definition no_machine :: "string \<Rightarrow> tool_error" where
  "no_machine m = ToolError (''no machine with MAC '' @ py_repr m)"

definition one_machine :: "request_env \<Rightarrow> bool \<Rightarrow> string \<Rightarrow> world \<Rightarrow> tool_error + tool_result" where
  \<comment> \<open>\<open>_machine_dict(registry.lookup(mac), ...)\<close>, with or without the live view\<close>
  "one_machine q with_liveness m w = (case lookup m (reg w) of
     None \<Rightarrow> Inl Uncaught
   | Some machine \<Rightarrow> (case (if with_liveness then liveness_by_mac (rq_now q) (reg w) else Inr (\<lambda>m. None)) of
       Inl e \<Rightarrow> Inl Uncaught
     | Inr liveness \<Rightarrow> Inr (Text_Result (machine_dict (live_of liveness (mac machine))
         (active_reservation (rq_now q) (mac machine) (reg w)) machine))))"

definition get_machine_tool :: "request_env \<Rightarrow> json pydict \<Rightarrow> world \<Rightarrow> tool_error + tool_result" where
  "get_machine_tool q args w = (case require_str args ''mac'' of
     Inl e \<Rightarrow> Inl e
   | Inr m \<Rightarrow> if lookup m (reg w) = None then Inl (no_machine m) else one_machine q True m w)"

definition list_profiles_tool :: "deployment \<Rightarrow> json pydict \<Rightarrow> world \<Rightarrow> tool_error + tool_result" where
  "list_profiles_tool dp args w = Inr (Text_Result (JObj [(''profiles'', jstrs (profile_names_of dp w))]))"

definition profile_dir_tool :: "deployment \<Rightarrow> string \<Rightarrow> tool_error + path" where
  "profile_dir_tool dp name = map_sum of_http id (safe_profile_dir (dp_resolve dp) (dp_profiles_root dp) name)"

definition profile_not_found :: "string \<Rightarrow> tool_error" where
  "profile_not_found name = ToolError (''profile not found: '' @ name)"

definition get_profile_tool :: "deployment \<Rightarrow> json pydict \<Rightarrow> world \<Rightarrow> tool_error + tool_result" where
  "get_profile_tool dp args w = (case require_str args ''name'' of
     Inl e \<Rightarrow> Inl e
   | Inr name \<Rightarrow> (case profile_dir_tool dp name of
       Inl e \<Rightarrow> Inl e
     | Inr pdir \<Rightarrow>
         if \<not> is_dir (tree w) pdir then Inl (profile_not_found name)
         else case map (\<lambda>f. read_or_empty (tree w) (pdir @ [f]))
             [''extra-packages.list'', ''setup-chroot'', ''README.md'', ''parent'', ''suite''] of
           [Inr packages, Inr script, Inr readme, Inr parents, Inr suite] \<Rightarrow>
             Inr (Text_Result (JObj [(''name'', JStr name), (''extra_packages'', JStr packages), (''setup_chroot'', JStr script),
               (''readme'', JStr readme), (''parents'', jstrs (splitlines (strip parents))), (''suite'', JStr (strip suite))]))
         | _ \<Rightarrow> Inl Uncaught))"

definition list_builds_tool :: "json pydict \<Rightarrow> world \<Rightarrow> tool_error + tool_result" where
  "list_builds_tool args w = Inr (Text_Result (JObj [(''running'', JBool (is_running (builds w))),
     (''jobs'', JList (map (\<lambda>j. JObj (job_fields j)) (list_jobs (builds w))))]))"

definition get_build_tool :: "json pydict \<Rightarrow> world \<Rightarrow> tool_error + tool_result" where
  "get_build_tool args w = (case require_str args ''job_id'' of
     Inl e \<Rightarrow> Inl e
   | Inr i \<Rightarrow> (case get_job i (builds w) of
       None \<Rightarrow> Inl (ToolError (''no build with job_id '' @ py_repr i))
     | Some job \<Rightarrow> (case py_int (arg_or args ''log_tail'' (JInt 200)) of
         None \<Rightarrow> Inl Uncaught
       | Some n \<Rightarrow> Inr (Text_Result (JObj (job_fields job @ [(''log_tail'', jstrs (tail_log i n (builds w)))]))))))"

definition recent_events_tool :: "json pydict \<Rightarrow> world \<Rightarrow> tool_error + tool_result" where
  "recent_events_tool args w = (case py_int (arg_or args ''limit'' (JInt 200)) of
     None \<Rightarrow> Inl Uncaught
   | Some limit \<Rightarrow>
       (let events = (\<lambda>m. Inr (Text_Result (JObj [(''events'',
             JList (map event_dict (recent_boot_events (clamp_limit limit) m (reg w))))])))
        in case arg_or args ''mac'' JNull of
             JNull \<Rightarrow> events None | JStr m \<Rightarrow> events (Some m) | v \<Rightarrow> Inl Uncaught))"

definition bug_failure :: "bug_error \<Rightarrow> tool_error" where
  "bug_failure e = (case e of BugReportError text \<Rightarrow> ToolError text | IndexError \<Rightarrow> Uncaught)"

definition bug_report_store :: "world \<Rightarrow> tool_error + bug_store" where
  "bug_report_store w = (case bugs w of
     None \<Rightarrow> Inl (ToolError ''bug reports are not enabled on this deployment'') | Some store \<Rightarrow> Inr store)"

definition list_bug_reports_tool :: "json pydict \<Rightarrow> world \<Rightarrow> tool_error + tool_result" where
  "list_bug_reports_tool args w = (case bug_report_store w of
     Inl e \<Rightarrow> Inl e
   | Inr store \<Rightarrow>
       (let answer = (\<lambda>status. case list_reports status store of
              Inl e \<Rightarrow> Inl (bug_failure e)
            | Inr rs \<Rightarrow> Inr (Text_Result (JObj [(''status'', JStr status), (''count'', JInt (int (length rs))),
                (''reports'', JList (map (\<lambda>r. JObj (summary_fields r)) rs))])))
        in case arg_or args ''status'' (JStr ''open'') of
             JStr status \<Rightarrow> answer status
           | v \<Rightarrow> answer []))"

definition get_bug_report_tool :: "json pydict \<Rightarrow> world \<Rightarrow> tool_error + tool_result" where
  "get_bug_report_tool args w = (case require_str args ''id'' of
     Inl e \<Rightarrow> Inl e
   | Inr i \<Rightarrow> (case bug_report_store w of
       Inl e \<Rightarrow> Inl e
     | Inr store \<Rightarrow> (case get_report i store of
         Inl e \<Rightarrow> Inl (bug_failure e) | Inr r \<Rightarrow> Inr (Text_Result (report_dict r)))))"

section \<open>Tools on machines\<close>

definition unknown_profile :: "string \<Rightarrow> string \<Rightarrow> tool_error" where
  "unknown_profile profile known = ToolError (''unknown profile: '' @ py_repr profile @ ''. Known profiles: '' @ known)"

definition known_text :: "deployment \<Rightarrow> world \<Rightarrow> string" where
  "known_text dp w = join '', '' (profile_names_of dp w)"

definition bound_text :: "request_env \<Rightarrow> json \<Rightarrow> string option" where
  \<comment> \<open>what a \<open>TEXT NOT NULL\<close> column holds of a value the tool did not check; \<open>None\<close> if the statement raises\<close>
  "bound_text q v = (case v of JStr s \<Rightarrow> Some s
     | JInt i \<Rightarrow> if - (2 ^ 63) \<le> i \<and> i < 2 ^ 63 then Some (str_of_int i) else None
     | JBool b \<Rightarrow> Some (if b then ''1'' else ''0'') | JFloat r \<Rightarrow> Some (rq_str q (JFloat r)) | _ \<Rightarrow> None)"

definition reg_result :: "(db \<Rightarrow> 'a result \<times> db) \<Rightarrow> ('a \<Rightarrow> world \<Rightarrow> (tool_error + 'b) \<times> world) \<Rightarrow> world \<Rightarrow> (tool_error + 'b) \<times> world" where
  \<comment> \<open>a call of the registry, no exception of which is caught\<close>
  "reg_result f go w = (case f (reg w) of
     (Inl e, d) \<Rightarrow> (Inl Uncaught, w\<lparr>reg := d\<rparr>) | (Inr x, d) \<Rightarrow> go x (w\<lparr>reg := d\<rparr>))"

definition bad_platform :: tool_error where
  "bad_platform = ToolError (''platform must be '' @ [CHR 0x27] @ ''efi'' @ [CHR 0x27] @ '' or '' @ [CHR 0x27] @ ''pc'' @ [CHR 0x27])"

definition enrol_machine_tool :: "request_env \<Rightarrow> deployment \<Rightarrow> tool" where
  "enrol_machine_tool q dp args = bind (require_str args ''mac'') (\<lambda>m. bind (require_str args ''profile_name'') (\<lambda>profile w.
     let arch = arg_or args ''architecture'' (JStr ''x86_64''); plat = arg_or args ''platform'' (JStr ''efi'');
         serial = py_true (arg_or args ''serial_console'' (JBool False));
         scratch = arg_or args ''scratch_mode'' (JStr ''volatile'')
     in if plat \<noteq> JStr ''efi'' \<and> plat \<noteq> JStr ''pc'' then (Inl bad_platform, w)
        else if scratch \<notin> JStr ` {''volatile'', ''persistent'', ''off''}
        then (Inl (ToolError ''scratch_mode must be volatile/persistent/off''), w)
        else if profile \<notin> set (profile_names_of dp w)
        then (Inl (unknown_profile profile (str_or (known_text dp w) ''(none)'')), w)
        else case bound_text q arch of
          None \<Rightarrow> (Inl Uncaught, w)
        | Some a \<Rightarrow> reg_result (enroll (rq_now q) m profile a (case plat of JStr p \<Rightarrow> p | _ \<Rightarrow> [])
              serial ''manual'' (case scratch of JStr s \<Rightarrow> s | _ \<Rightarrow> []))
            (\<lambda>machine w'. (one_machine q False m w', w')) w))"

definition set_machine_profile_tool :: "request_env \<Rightarrow> deployment \<Rightarrow> tool" where
  "set_machine_profile_tool q dp args = bind (require_str args ''mac'') (\<lambda>m. bind (require_str args ''profile_name'') (\<lambda>profile w.
     if profile \<notin> set (profile_names_of dp w) then (Inl (unknown_profile profile (known_text dp w)), w)
     else reg_result (set_profile m profile)
       (\<lambda>known w'. (if known then one_machine q True m w' else Inl (no_machine m), w')) w))"

definition delete_machine_tool :: tool where
  "delete_machine_tool args = bind (require_str args ''mac'') (\<lambda>m w.
     (Inr (Text_Result (JObj [(''mac'', JStr m), (''removed'', JBool (fst (remove m (reg w))))])),
      with_reg (\<lambda>d. snd (remove m d)) w))"

definition reboot_tool :: "deployment \<Rightarrow> tool" where
  "reboot_tool dp args = bind (require_str args ''mac'') (\<lambda>m.
     reg_result (reboot_machine (dp_shell dp) (dp_timeout dp) m (py_true (arg_or args ''delete_after'' (JBool False))))
       (\<lambda>result w. (Inr (Text_Result (JObj [(''mac'', JStr m), (''deleted'', JBool (lookup m (reg w) = None)),
          (''pending_reboot'', JBool (case lookup m (reg w) of None \<Rightarrow> False | Some r \<Rightarrow> pending_reboot r))])), w)))"

definition bad_action :: tool_error where
  "bad_action = ToolError (''action must be one of '' @ join '', '' POWER_ACTIONS)"

definition power_tool :: "deployment \<Rightarrow> tool" where
  "power_tool dp args = bind (require_str args ''mac'') (\<lambda>m. bind (require_str args ''action'') (\<lambda>action w.
     if action \<notin> set POWER_ACTIONS then (Inl bad_action, w)
     else if lookup m (reg w) = None then (Inl (no_machine m), w)
     else reg_result (power_machine (dp_shell dp) (dp_timeout dp) m action False)
       (\<lambda>result w'. (Inr (Text_Result (power_result_dict result)), w')) w))"

definition matching_machines :: "string \<Rightarrow> string option \<Rightarrow> db \<Rightarrow> Machine list" where
  "matching_machines profile arch d = filter (\<lambda>m. profile_name m = profile
     \<and> (case arch of None \<Rightarrow> True | Some a \<Rightarrow> matches_architecture (architecture m) a)) (list_all d)"

definition power_candidates :: "string \<Rightarrow> (string \<Rightarrow> live option) \<Rightarrow> Machine list \<Rightarrow> Machine list" where
  "power_candidates action liveness matching = sort_key mac
     (if action = ''on'' then filter (\<lambda>m. \<not> lv_online (live_of liveness (mac m))) matching
      else filter (\<lambda>m. lv_online (live_of liveness (mac m))) matching)"

definition optional_count :: "json pydict \<Rightarrow> tool_error + int option" where
  "optional_count args = (case arg_or args ''count'' JNull of
     JNull \<Rightarrow> Inr None
   | JInt i \<Rightarrow> (if i < 1 then Inl (ToolError ''count must be at least 1'') else Inr (Some i))
   | v \<Rightarrow> Inl (ToolError ''count must be an integer''))"

definition select_count :: "int option \<Rightarrow> 'a list \<Rightarrow> 'a list" where
  "select_count count xs = (case count of None \<Rightarrow> xs | Some n \<Rightarrow> take (nat n) xs)"

definition power_fleet_tool :: "request_env \<Rightarrow> deployment \<Rightarrow> tool" where
  "power_fleet_tool q dp args = bind (require_str args ''action'') (\<lambda>action. bind (require_str args ''profile'') (\<lambda>profile w.
     if action \<notin> set POWER_ACTIONS then (Inl bad_action, w)
     else bind (optional_str args ''architecture'') (\<lambda>arch. bind (optional_count args) (\<lambda>count w.
       (case liveness_by_mac (rq_now q) (reg w) of
          Inl e \<Rightarrow> (Inl Uncaught, w)
        | Inr liveness \<Rightarrow>
            (let matching = matching_machines profile arch (reg w);
                 candidates = power_candidates action liveness matching;
                 selected = select_count count candidates
             in reg_result (power_machines (dp_shell dp) (dp_timeout dp) (map mac selected) action)
               (\<lambda>results w'. (Inr (Text_Result (JObj [(''action'', JStr action), (''profile'', JStr profile), (''architecture'', jstr arch),
                  (''matching'', JInt (int (length matching))), (''eligible'', JInt (int (length candidates))),
                  (''selected'', JInt (int (length selected))), (''succeeded'', JInt (int (length (filter pr_ok results)))),
                  (''short_by'', JInt (case count of None \<Rightarrow> 0 | Some n \<Rightarrow> max 0 (n - int (length selected)))),
                  (''results'', JList (map power_result_dict results))])), w')) w)))) w))"

definition set_power_command_tool :: tool where
  "set_power_command_tool args = bind (require_str args ''mac'') (\<lambda>m. bind (require_str args ''action'') (\<lambda>action.
     bind (require_str args ''command'') (\<lambda>command w.
       if action \<notin> set POWER_ACTIONS then (Inl bad_action, w)
       else if lookup m (reg w) = None then (Inl (no_machine m), w)
       else reg_result (set_power_command m action (Some command))
         (\<lambda>u w'. ((case lookup m (reg w') of
              None \<Rightarrow> Inl Uncaught
            | Some machine \<Rightarrow> Inr (Text_Result (JObj [(''mac'', JStr m), (''action'', JStr action),
                (''command'', jstr (machine_power_command machine action))]))), w')) w)))"

definition set_pdu_alias_tool :: tool where
  "set_pdu_alias_tool args = bind (require_str args ''mac'') (\<lambda>m. bind (require_str args ''alias'') (\<lambda>alias w.
     if lookup m (reg w) = None then (Inl (no_machine m), w)
     else let w' = with_reg (set_pdu_alias m (Some alias)) w in
       ((case lookup m (reg w') of
           None \<Rightarrow> Inl Uncaught
         | Some machine \<Rightarrow> Inr (Text_Result (JObj [(''mac'', JStr m), (''pdu_alias'', jstr (pdu_alias machine))]))), w')))"

definition set_pending_reboot_tool :: tool where
  "set_pending_reboot_tool args = bind (require_str args ''mac'') (\<lambda>m. bind (require_bool args ''armed'') (\<lambda>armed w.
     (Inr (Text_Result (JObj [(''mac'', JStr m), (''pending_reboot'', JBool armed)])),
      with_reg (set_pending_reboot m armed) w)))"

definition set_reboot_command_tool :: tool where
  "set_reboot_command_tool args = bind (require_str args ''mac'') (\<lambda>m. bind (require_str args ''command'') (\<lambda>command.
     reg_result (set_reboot_command m (none_if_empty command))
       (\<lambda>u w. (Inr (Text_Result (JObj [(''mac'', JStr m), (''reboot_command'', jstr (none_if_empty command))])), w))))"

section \<open>Tools on profiles and builds\<close>

definition text_or_empty :: "json \<Rightarrow> string response" where
  \<comment> \<open>\<open>value or ""\<close> where a string is needed next; anything else raises \<open>TypeError\<close> or \<open>AttributeError\<close>\<close>
  "text_or_empty v = (if \<not> py_true v then Inr [] else case v of JStr s \<Rightarrow> Inr s | _ \<Rightarrow> Inl Server_Error)"

definition with_text :: "json \<Rightarrow> (string \<Rightarrow> unit file_step) \<Rightarrow> unit file_step" where
  "with_text v f fs = (case text_or_empty v of Inl e \<Rightarrow> (Inl e, fs) | Inr t \<Rightarrow> f t fs)"

definition parents_argument :: "string set \<Rightarrow> json \<Rightarrow> string list response" where
  \<comment> \<open>a list in a list is not hashable, so looking it up in a set raises\<close>
  "parents_argument known v =
     (if \<not> py_true v then Inr []
      else case v of
        JList ps \<Rightarrow>
          (if \<exists>p \<in> set ps. case p of JList xs \<Rightarrow> True | JObj d \<Rightarrow> True | _ \<Rightarrow> False then Inl Server_Error
           else Inr (List.map_filter (\<lambda>p. case p of JStr s \<Rightarrow> if s \<in> known then Some s else None | _ \<Rightarrow> None) ps))
      | _ \<Rightarrow> Inl (HTTPException 400 ''parents must be a list of strings''))"

definition write_parent_names :: "path \<Rightarrow> path \<Rightarrow> string \<Rightarrow> json \<Rightarrow> unit file_step" where
  "write_parent_names profiles_root pdir name v fs = (case parents_argument (known_parents profiles_root name fs) v of
     Inl e \<Rightarrow> (Inl e, fs)
   | Inr cleaned \<Rightarrow> write_or_unlink (cleaned \<noteq> []) (pdir @ [''parent'']) (join [newline] cleaned @ [newline]) fs)"

definition if_given :: "json pydict \<Rightarrow> string \<Rightarrow> (json \<Rightarrow> unit file_step) \<Rightarrow> unit file_step" where
  "if_given args key f fs = (case dict_get args key of None \<Rightarrow> (Inr (), fs) | Some v \<Rightarrow> f v fs)"

definition write_or_create :: "json pydict \<Rightarrow> string \<Rightarrow> bool \<Rightarrow> path \<Rightarrow> unit file_step" where
  \<comment> \<open>the given text, or an empty file in a new profile\<close>
  "write_or_create args key existed p fs = (case dict_get args key of
     Some v \<Rightarrow> with_text v (write_text p) fs
   | None \<Rightarrow> if existed then (Inr (), fs) else write_text p [] fs)"

definition save_profile_steps :: "deployment \<Rightarrow> json pydict \<Rightarrow> string \<Rightarrow> path \<Rightarrow> bool \<Rightarrow> unit file_step list" where
  "save_profile_steps dp args name pdir existed =
     [mkdir_parents pdir,
      write_or_create args ''extra_packages'' existed (pdir @ [''extra-packages.list'']),
      write_or_create args ''readme'' existed (pdir @ [''README.md'']),
      if_given args ''setup_chroot'' (\<lambda>v. with_text v (write_setup_chroot pdir)),
      if_given args ''parents'' (write_parent_names (dp_profiles_root dp) pdir name),
      if_given args ''suite'' (\<lambda>v. with_text v (write_suite pdir))]"

definition save_profile_tool :: "deployment \<Rightarrow> tool" where
  "save_profile_tool dp args = bind (require_str args ''name'') (\<lambda>name. bind (profile_dir_tool dp name) (\<lambda>pdir w.
     let existed = is_dir (tree w) pdir in
     case run_steps (save_profile_steps dp args name pdir existed) (tree w) of
       (Inl e, fs) \<Rightarrow> (Inl (of_http e), w\<lparr>tree := fs\<rparr>)
     | (Inr u, fs) \<Rightarrow> (Inr (Text_Result (JObj [(''name'', JStr name), (''created'', JBool (\<not> existed))])), w\<lparr>tree := fs\<rparr>)))"

definition write_overlay_tool :: "deployment \<Rightarrow> tool" where
  "write_overlay_tool dp args = bind (require_str args ''name'') (\<lambda>name. bind (require_str args ''relpath'') (\<lambda>relpath.
     bind (require_str args ''content'') (\<lambda>text. bind (profile_dir_tool dp name) (\<lambda>pdir w.
       if \<not> is_dir (tree w) pdir then (Inl (profile_not_found name), w)
       else bind (map_sum of_http id (safe_overlay_path (dp_resolve dp) pdir relpath)) (\<lambda>file_path w.
         (case write_overlay_text file_path text (tree w) of
            (Inl e, fs) \<Rightarrow> (Inl Uncaught, w\<lparr>tree := fs\<rparr>)
          | (Inr u, fs) \<Rightarrow> (Inr (Text_Result (JObj [(''profile'', JStr name), (''relpath'', JStr relpath),
               (''bytes_written'', JInt (int (length (utf8_bytes text))))])), w\<lparr>tree := fs\<rparr>))) w))))"

definition arch_text :: "request_env \<Rightarrow> json \<Rightarrow> string" where
  \<comment> \<open>an architecture is only ever printed\<close>
  "arch_text q v = (case v of JStr s \<Rightarrow> s | _ \<Rightarrow> rq_str q v)"

definition started_job :: "BuildJob list \<Rightarrow> json" where
  "started_job js = (case js of [] \<Rightarrow> JNull
   | j # rest \<Rightarrow> JObj ([(''job_id'', JStr (job_id j)), (''profile'', JStr (job_profile j)),
        (''architecture'', JStr (job_architecture j)), (''state'', JStr (job_state_value (job_state j))),
        (''started_at'', JInt (started_at j)), (''auto_reboot'', JBool (auto_reboot j))]
      @ (if rest = [] then [] else [(''cascade'',
           JList (map (\<lambda>j. JObj [(''job_id'', JStr (job_id j)), (''profile'', JStr (job_profile j))]) js))])))"

definition start_build_tool :: "request_env \<Rightarrow> deployment \<Rightarrow> tool" where
  "start_build_tool q dp args = bind (require_str args ''profile'') (\<lambda>profile. bind (profile_dir_tool dp profile) (\<lambda>pdir w.
     if \<not> is_dir (tree w) pdir then (Inl (profile_not_found profile), w)
     else case start_with_downstream (rq_job_ids q) (profiles_of (dp_profiles_root dp) (tree w)) profile
         (arch_text q (arg_or args ''architecture'' (JStr ''amd64''))) (py_true (arg_or args ''auto_reboot'' (JBool False))) (builds w) of
       (Inl e, b) \<Rightarrow> (Inl (ToolError (case e of RuntimeError text \<Rightarrow> str_or text ''a build is already running'' | _ \<Rightarrow> [])), w\<lparr>builds := b\<rparr>)
     | (Inr js, b) \<Rightarrow> (Inr (Text_Result (started_job js)), w\<lparr>builds := b\<rparr>)))"

section \<open>Tools on reservations\<close>

definition holder_argument :: "json pydict \<Rightarrow> string \<Rightarrow> tool_error + string" where
  "holder_argument args dflt = (case arg_or args ''holder'' (JStr dflt) of
     JStr h \<Rightarrow> if strip h = [] then Inl (ToolError ''holder must be a non-empty string'') else Inr h
   | v \<Rightarrow> Inl (ToolError ''holder must be a non-empty string''))"

definition ttl_seconds :: "json pydict \<Rightarrow> tool_error + int" where
  \<comment> \<open>\<open>int(ttl_minutes * 60)\<close>\<close>
  "ttl_seconds args = (case arg_or args ''ttl_minutes'' (JInt 60) of
     JInt i \<Rightarrow> (if i \<le> 0 then Inl (ToolError ''ttl_minutes must be a positive number'') else Inr (i * 60))
   | JFloat r \<Rightarrow> (if r \<le> 0 then Inl (ToolError ''ttl_minutes must be a positive number'') else Inr (truncate_rat (r * 60)))
   | v \<Rightarrow> Inl (ToolError ''ttl_minutes must be a positive number''))"

definition count_argument :: "json pydict \<Rightarrow> tool_error + int" where
  "count_argument args = (case require_int args ''count'' of
     Inl e \<Rightarrow> Inl e
   | Inr (JInt i) \<Rightarrow> (if i < 1 then Inl (ToolError ''count must be an integer >= 1'') else Inr i)
   | Inr v \<Rightarrow> Inl (ToolError ''count must be an integer >= 1''))"

definition reserved_payload :: "request_env \<Rightarrow> json pydict \<Rightarrow> string \<Rightarrow> string \<Rightarrow> int \<Rightarrow> PowerResult list \<Rightarrow> Machine list
  \<Rightarrow> world \<Rightarrow> tool_error + tool_result" where
  "reserved_payload q args profile h count results leased w = (case liveness_by_mac (rq_now q) (reg w) of
     Inl e \<Rightarrow> Inl Uncaught
   | Inr liveness \<Rightarrow>
       (let reservations = all_active_reservations (rq_now q) (reg w) in
        Inr (Text_Result (JObj [(''profile'', JStr profile), (''holder'', JStr h), (''requested'', JInt count),
          (''reserved'', JInt (int (length leased))), (''short_by'', JInt (max 0 (count - int (length leased)))),
          (''ttl_minutes'', arg_or args ''ttl_minutes'' (JInt 60)),
          (''power_results'', JList (map power_result_dict results)),
          (''machines'', JList (map (\<lambda>m. machine_dict (live_of liveness (mac m)) (dict_get reservations (mac m)) m) leased))]))))"

definition reserve_machines_tool :: "request_env \<Rightarrow> deployment \<Rightarrow> tool" where
  \<comment> \<open>SQLite binds integers of 64 bits; a count beyond them raises \<open>OverflowError\<close> before anything is written\<close>
  "reserve_machines_tool q dp args = bind (require_str args ''profile'') (\<lambda>profile. bind (count_argument args) (\<lambda>count.
     bind (holder_argument args ''agent'') (\<lambda>h. bind (optional_str args ''purpose'') (\<lambda>why.
     bind (optional_str args ''architecture'') (\<lambda>arch. bind (ttl_seconds args) (\<lambda>ttl w.
       if profile \<notin> set (profile_names_of dp w)
       then (Inl (unknown_profile profile (str_or (known_text dp w) ''(none)'')), w)
       else if 2 ^ 63 \<le> count then (Inl Uncaught, w)
       else reg_result (reserve (rq_now q) profile count (strip h) ttl why arch)
         (\<lambda>leased. reg_result (power_machines (dp_shell dp) (dp_timeout dp) (map mac leased) ''on'')
           (\<lambda>results w'. (reserved_payload q args profile h count results leased w', w'))) w))))))"

definition macs_argument :: "json pydict \<Rightarrow> tool_error + string list option" where
  "macs_argument args = (case arg_or args ''macs'' JNull of
     JNull \<Rightarrow> Inr None
   | JList xs \<Rightarrow> (if List.list_all (\<lambda>x. case x of JStr s \<Rightarrow> True | _ \<Rightarrow> False) xs
       then Inr (Some (List.map_filter (\<lambda>x. case x of JStr s \<Rightarrow> Some s | _ \<Rightarrow> None) xs))
       else Inl (ToolError ''macs must be a list of strings''))
   | v \<Rightarrow> Inl (ToolError ''macs must be a list of strings''))"

definition release_machines_tool :: "request_env \<Rightarrow> deployment \<Rightarrow> tool" where
  "release_machines_tool q dp args = bind (macs_argument args) (\<lambda>macs. bind (optional_str args ''holder'') (\<lambda>h w.
     if (macs = None \<or> macs = Some []) \<and> \<not> truthy h then (Inl (ToolError ''pass either macs or holder''), w)
     else let (freed, d) = release (rq_now q) macs h (reg w) in
       reg_result (power_machines (dp_shell dp) (dp_timeout dp) freed ''off'')
         (\<lambda>results w'. (Inr (Text_Result (JObj [(''released'', jstrs freed), (''count'', JInt (int (length freed))),
            (''power_results'', JList (map power_result_dict results))])), w')) (w\<lparr>reg := d\<rparr>)))"

definition renew_reservation_tool :: "request_env \<Rightarrow> tool" where
  "renew_reservation_tool q args = bind (require_str args ''mac'') (\<lambda>m. bind (ttl_seconds args) (\<lambda>ttl.
     reg_result (renew (rq_now q) m ttl) (\<lambda>done w. ((if done
       then Inr (Text_Result (JObj [(''mac'', JStr m),
         (''expires_at'', jint (Option.bind (active_reservation (rq_now q) m (reg w)) expires_at))]))
       else Inl (ToolError (''no active lease on '' @ py_repr m @ '' to renew (unknown machine, permanent hold, or already free)''))), w))))"

definition pin_profile :: "deployment \<Rightarrow> json pydict \<Rightarrow> world \<Rightarrow> tool_error + string option" where
  "pin_profile dp args w = (case optional_str args ''profile'' of
     Inl e \<Rightarrow> Inl e | Inr None \<Rightarrow> Inr None
   | Inr (Some p) \<Rightarrow> if p \<in> set (profile_names_of dp w) then Inr (Some p)
       else Inl (unknown_profile p (str_or (known_text dp w) ''(none)'')))"

definition pin_machine_tool :: "request_env \<Rightarrow> deployment \<Rightarrow> tool" where
  "pin_machine_tool q dp args = bind (require_str args ''mac'') (\<lambda>m. bind (holder_argument args ''admin'') (\<lambda>h w.
     bind (pin_profile dp args w) (\<lambda>profile. bind (optional_str args ''purpose'') (\<lambda>why.
       reg_result (pin (rq_now q) m (strip h) profile why)
         (\<lambda>res w'. (if res = None then Inl (no_machine m) else one_machine q True m w', w')))) w))"

definition release_to_pool_tool :: "request_env \<Rightarrow> tool" where
  "release_to_pool_tool q args = bind (require_str args ''mac'') (\<lambda>m w.
     if lookup m (reg w) = None then (Inl (no_machine m), w)
     else let (released, d) = release_to_pool (rq_now q) m (reg w) in
       (Inr (Text_Result (JObj [(''mac'', JStr m), (''released_permanent_hold'', JBool released),
          (''availability'', JStr (availability (rq_now q) m d))])), w\<lparr>reg := d\<rparr>))"

section \<open>Tools on bug reports\<close>

datatype role = Admin | Pool

definition role_name :: "role \<Rightarrow> string" where
  "role_name r = (case r of Admin \<Rightarrow> ''admin'' | Pool \<Rightarrow> ''pool'')"

definition label_argument :: "json pydict \<Rightarrow> string \<Rightarrow> label" where
  "label_argument args key = (case arg_or args key JNull of JNull \<Rightarrow> No_Label | JStr s \<Rightarrow> Label s | v \<Rightarrow> Not_A_String)"

definition severity_argument :: "json pydict \<Rightarrow> tool_error + string" where
  "severity_argument args = (case arg_or args ''severity'' (JStr DEFAULT_SEVERITY) of
     JStr s \<Rightarrow> Inr s | v \<Rightarrow> Inl (ToolError ''severity must be a string''))"

definition report_bug_tool :: "request_env \<Rightarrow> role \<Rightarrow> tool" where
  "report_bug_tool q caller args = bind (require_str args ''title'') (\<lambda>title. bind (require_str args ''description'') (\<lambda>description.
     bind (severity_argument args) (\<lambda>severity w. bind (bug_report_store w) (\<lambda>store w.
       (case file_report (rq_report_id q) (rq_time q) title description severity (label_argument args ''component'')
           (label_argument args ''reporter'') (role_name caller) store of
          (Inl e, store') \<Rightarrow> (Inl (bug_failure e), w\<lparr>bugs := Some store'\<rparr>)
        | (Inr r, store') \<Rightarrow> (Inr (Text_Result (JObj [(''id'', JStr (br_id r)), (''status'', JStr (br_status r)),
             (''message'', JStr (''Thank you'' @ em_dash @ ''the report is filed for a fix.''))])), w\<lparr>bugs := Some store'\<rparr>))) w)))"

definition resolve_bug_report_tool :: "request_env \<Rightarrow> tool" where
  "resolve_bug_report_tool q args = bind (require_str args ''id'') (\<lambda>i. bind (require_str args ''resolution'') (\<lambda>resolution w.
     bind (bug_report_store w) (\<lambda>store w.
       (case resolve_report (rq_time q) i resolution store of
          (Inl e, store') \<Rightarrow> (Inl (bug_failure e), w\<lparr>bugs := Some store'\<rparr>)
        | (Inr r, store') \<Rightarrow> (Inr (Text_Result (JObj (summary_fields r))), w\<lparr>bugs := Some store'\<rparr>))) w))"

section \<open>The tools by name\<close>

definition POOL_CLIENT_TOOLS :: "string list" where
  "POOL_CLIENT_TOOLS = [''describe_fleetboot'', ''list_machines'', ''get_machine'', ''list_profiles'', ''get_profile'',
     ''recent_events'', ''reserve_machines'', ''release_machines'', ''renew_reservation'', ''report_bug'']"

definition tool_catalogue :: "string list" where
  \<comment> \<open>the names, in the order of the catalogue; descriptions and schemas are left out\<close>
  "tool_catalogue = [''describe_fleetboot'', ''list_machines'', ''get_machine'', ''enrol_machine'', ''set_machine_profile'',
     ''delete_machine'', ''reboot_machine'', ''power_machine'', ''power_fleet'', ''reserve_machines'', ''release_machines'',
     ''renew_reservation'', ''pin_machine'', ''release_to_pool'', ''set_power_command'', ''set_pdu_alias'',
     ''set_pending_reboot'', ''set_reboot_command'', ''list_profiles'', ''get_profile'', ''save_profile'',
     ''write_profile_overlay'', ''start_build'', ''list_builds'', ''get_build'', ''recent_events'', ''report_bug'',
     ''list_bug_reports'', ''get_bug_report'', ''resolve_bug_report'']"

definition tool_impls :: "request_env \<Rightarrow> deployment \<Rightarrow> role \<Rightarrow> (string \<times> tool) list" where
  "tool_impls q dp caller =
     [(''report_bug'', report_bug_tool q caller),
      (''list_bug_reports'', reading list_bug_reports_tool),
      (''get_bug_report'', reading get_bug_report_tool),
      (''resolve_bug_report'', resolve_bug_report_tool q),
      (''describe_fleetboot'', reading (describe_fleetboot q)),
      (''list_machines'', reading (list_machines_tool q)),
      (''get_machine'', reading (get_machine_tool q)),
      (''enrol_machine'', enrol_machine_tool q dp),
      (''set_machine_profile'', set_machine_profile_tool q dp),
      (''delete_machine'', delete_machine_tool),
      (''reboot_machine'', reboot_tool dp),
      (''power_machine'', power_tool dp),
      (''power_fleet'', power_fleet_tool q dp),
      (''reserve_machines'', reserve_machines_tool q dp),
      (''release_machines'', release_machines_tool q dp),
      (''renew_reservation'', renew_reservation_tool q),
      (''pin_machine'', pin_machine_tool q dp),
      (''release_to_pool'', release_to_pool_tool q),
      (''set_power_command'', set_power_command_tool),
      (''set_pdu_alias'', set_pdu_alias_tool),
      (''set_pending_reboot'', set_pending_reboot_tool),
      (''set_reboot_command'', set_reboot_command_tool),
      (''list_profiles'', reading (list_profiles_tool dp)),
      (''get_profile'', reading (get_profile_tool dp)),
      (''save_profile'', save_profile_tool dp),
      (''write_profile_overlay'', write_overlay_tool dp),
      (''start_build'', start_build_tool q dp),
      (''list_builds'', reading list_builds_tool),
      (''get_build'', reading get_build_tool),
      (''recent_events'', reading recent_events_tool)]"

section \<open>Requests\<close>

datatype rpc_message = Message string | Unknown_Tool json | Unknown_Resource json | Exception_Text

datatype rpc_result =
    Initialize | Ping | Tools "string list"
  | Resources "(string \<times> string \<times> string \<times> string \<times> string) list" | Resource_Templates
  | Resource_Contents string string string string   \<comment> \<open>uri, name, title and text\<close>
  | Tool_Answer tool_result | Tool_Error string

datatype rpc_response = Rpc_Result json rpc_result | Rpc_Error json int rpc_message

definition PARSE_ERROR :: int where "PARSE_ERROR = -32700"
definition INVALID_REQUEST :: int where "INVALID_REQUEST = -32600"
definition METHOD_NOT_FOUND :: int where "METHOD_NOT_FOUND = -32601"
definition INVALID_PARAMS :: int where "INVALID_PARAMS = -32602"
definition INTERNAL_ERROR :: int where "INTERNAL_ERROR = -32603"

datatype outcome_of_method = Answer rpc_result | Failure int rpc_message | No_Answer

definition params_of :: "json pydict \<Rightarrow> json" where
  \<comment> \<open>\<open>req.get("params") or {}\<close>\<close>
  "params_of request = (let v = arg_or request ''params'' JNull in if py_true v then v else JObj [])"

definition visible_tools :: "role \<Rightarrow> string list" where
  "visible_tools caller = (if caller = Admin then tool_catalogue else filter (\<lambda>t. t \<in> set POOL_CLIENT_TOOLS) tool_catalogue)"

definition read_resource :: "request_env \<Rightarrow> json \<Rightarrow> outcome_of_method" where
  "read_resource q params = (case params of
     JObj d \<Rightarrow>
       (let uri = arg_or d ''uri'' JNull in
        case (case uri of JStr s \<Rightarrow> topic_for_uri (rq_page q) s | _ \<Rightarrow> None) of
          None \<Rightarrow> Failure INVALID_PARAMS (Unknown_Resource uri)
        | Some topic \<Rightarrow> Answer (Resource_Contents (topic_uri topic) (topic_name topic) (topic_title topic)
            (topic_body topic @ topic_index)))
   | _ \<Rightarrow> Failure INTERNAL_ERROR Exception_Text)"

definition needs_admin :: "string \<Rightarrow> rpc_message" where
  "needs_admin name = Message (''tool '' @ py_repr name @ '' requires an admin token; a pool-client token may only use: ''
     @ join '', '' (sort POOL_CLIENT_TOOLS))"

definition call_tool :: "request_env \<Rightarrow> deployment \<Rightarrow> role \<Rightarrow> json \<Rightarrow> world \<Rightarrow> outcome_of_method \<times> world" where
  "call_tool q dp caller params w = (case params of
     JObj d \<Rightarrow>
       (let name = arg_or d ''name'' JNull;
            given = arg_or d ''arguments'' JNull;
            arguments = (if py_true given then given else JObj [])
        in case name of
             JStr n \<Rightarrow> (case dict_get (tool_impls q dp caller) n of
                 None \<Rightarrow> (Failure METHOD_NOT_FOUND (Unknown_Tool name), w)
               | Some impl \<Rightarrow>
                   if caller \<noteq> Admin \<and> n \<notin> set POOL_CLIENT_TOOLS then (Failure METHOD_NOT_FOUND (needs_admin n), w)
                   else (case arguments of
                     JObj args \<Rightarrow> (case impl args w of
                         (Inr result, w') \<Rightarrow> (Answer (Tool_Answer result), w')
                       | (Inl (ToolError text), w') \<Rightarrow> (Answer (Tool_Error text), w')
                       | (Inl Uncaught, w') \<Rightarrow> (Failure INTERNAL_ERROR Exception_Text, w'))
                   | _ \<Rightarrow> (Failure INVALID_PARAMS (Message ''arguments must be an object''), w)))
           | _ \<Rightarrow> (Failure METHOD_NOT_FOUND (Unknown_Tool name), w))
   | _ \<Rightarrow> (Failure INTERNAL_ERROR Exception_Text, w))"

definition run_method :: "request_env \<Rightarrow> deployment \<Rightarrow> role \<Rightarrow> string \<Rightarrow> json \<Rightarrow> world \<Rightarrow> outcome_of_method \<times> world" where
  "run_method q dp caller meth params w =
     (if meth = ''initialize'' then (Answer Initialize, w)
      else if meth = ''notifications/initialized'' \<or> meth = ''initialized'' then (No_Answer, w)
      else if meth = ''ping'' then (Answer Ping, w)
      else if meth = ''tools/list'' then (Answer (Tools (visible_tools caller)), w)
      else if meth = ''resources/list'' then (Answer (Resources (resource_descriptors (rq_page q))), w)
      else if meth = ''resources/templates/list'' then (Answer Resource_Templates, w)
      else if meth = ''resources/read'' then (read_resource q params, w)
      else if meth = ''tools/call'' then call_tool q dp caller params w
      else (Failure METHOD_NOT_FOUND (Message (''unknown method: '' @ py_repr meth)), w))"

definition dispatch :: "deployment \<Rightarrow> role \<Rightarrow> request_env \<Rightarrow> json \<Rightarrow> world \<Rightarrow> rpc_response option \<times> world" where
  "dispatch dp caller q req w = (case req of
     JObj request \<Rightarrow>
       (let i = arg_or request ''id'' JNull;
            is_notification = (dict_get request ''id'' = None)
        in case arg_or request ''method'' JNull of
             JStr meth \<Rightarrow> (case run_method q dp caller meth (params_of request) w of
                 (No_Answer, w') \<Rightarrow> (None, w')
               | (Answer r, w') \<Rightarrow> (if is_notification then None else Some (Rpc_Result i r), w')
               | (Failure c text, w') \<Rightarrow> (if is_notification then None else Some (Rpc_Error i c text), w'))
           | _ \<Rightarrow> (if is_notification then None else Some (Rpc_Error i INVALID_REQUEST (Message ''missing method'')), w))
   | _ \<Rightarrow> (Some (Rpc_Error JNull INVALID_REQUEST (Message ''not a JSON object'')), w))"

section \<open>The endpoint\<close>

definition bearer_required :: http_error where
  "bearer_required = HTTPException 401 ''Bearer token required''"

definition check_auth :: "deployment \<Rightarrow> string option \<Rightarrow> role response" where
  "check_auth dp authorization =
     (let given = opt_str authorization in
      if given = [] \<or> \<not> startswith (lower given) ''bearer '' then Inl bearer_required
      else let presented = strip (drop (length ''Bearer '') given) in
        case compare_digest presented (dp_admin dp) of
          Inl e \<Rightarrow> Inl e
        | Inr True \<Rightarrow> Inr Admin
        | Inr False \<Rightarrow>
            if \<not> truthy (dp_pool dp) then Inl unauthorised
            else (case compare_digest presented (opt_str (dp_pool dp)) of
              Inl e \<Rightarrow> Inl e | Inr True \<Rightarrow> Inr Pool | Inr False \<Rightarrow> Inl unauthorised))"

datatype mcp_reply = Accepted | Method_Not_Allowed | Single rpc_response | Batch "rpc_response list"

definition mcp_get :: "deployment \<Rightarrow> string option \<Rightarrow> mcp_reply response" where
  "mcp_get dp authorization = map_sum id (\<lambda>_. Method_Not_Allowed) (check_auth dp authorization)"

fun dispatch_all :: "deployment \<Rightarrow> role \<Rightarrow> (request_env \<times> json) list \<Rightarrow> world \<Rightarrow> rpc_response list \<times> world" where
  "dispatch_all dp caller [] w = ([], w)"
| "dispatch_all dp caller ((q, req) # entries) w =
     (let (resp, w') = dispatch dp caller q req w; (out, w'') = dispatch_all dp caller entries w'
      in (case resp of None \<Rightarrow> out | Some r \<Rightarrow> r # out, w''))"

definition mcp_post ::
  "(nat \<Rightarrow> request_env) \<Rightarrow> deployment \<Rightarrow> string option \<Rightarrow> json_text option \<Rightarrow> world \<Rightarrow> mcp_reply response \<times> world" where
  \<comment> \<open>\<open>qs n\<close> is what the n-th entry of a batch meets\<close>
  "mcp_post qs dp authorization body w = (case check_auth dp authorization of
     Inl e \<Rightarrow> (Inl e, w)
   | Inr caller \<Rightarrow> (case body of
       None \<Rightarrow> (Inr (Single (Rpc_Error JNull INVALID_REQUEST (Message ''empty body''))), w)
     | Some (BadText s) \<Rightarrow> (Inr (Single (Rpc_Error JNull PARSE_ERROR (Message ''invalid JSON''))), w)
     | Some (JsonText JNull) \<Rightarrow> (Inr (Single (Rpc_Error JNull INVALID_REQUEST (Message ''empty body''))), w)
     | Some (JsonText (JList entries)) \<Rightarrow>
         (let (out, w') = dispatch_all dp caller (map (\<lambda>(n, req). (qs n, req)) (enumerate 0 entries)) w
          in (Inr (if out = [] then Accepted else Batch out), w'))
     | Some (JsonText payload) \<Rightarrow>
         (let (resp, w') = dispatch dp caller (qs 0) payload w
          in (Inr (case resp of None \<Rightarrow> Accepted | Some r \<Rightarrow> Single r), w'))))"

section \<open>What a caller without the admin token can do\<close>

definition pool_keeps :: "world \<Rightarrow> world \<Rightarrow> bool" where
  "pool_keeps w w' \<longleftrightarrow> tree w' = tree w \<and> builds w' = builds w
     \<and> (wf_db (reg w) \<longrightarrow> wf_db (reg w') \<and> spares_held (reg w) (reg w'))"

named_theorems pool_rules \<open>steps that keep what a pool client must not touch\<close>

lemma pool_keeps_refl [simp, pool_rules]: "pool_keeps w w"
  by (simp add: pool_keeps_def)

lemma pool_keeps_trans: "pool_keeps w w' \<Longrightarrow> pool_keeps w' w'' \<Longrightarrow> pool_keeps w w''"
  by (auto simp: pool_keeps_def intro: spares_trans)

lemma pool_keeps_bugs [simp, pool_rules]: "pool_keeps w (w\<lparr>bugs := b\<rparr>)"
  by (simp add: pool_keeps_def)

lemma pool_keeps_reg:
  "(wf_db (reg w) \<Longrightarrow> wf_db d \<and> spares_held (reg w) d) \<Longrightarrow> pool_keeps w (w\<lparr>reg := d\<rparr>)"
  by (simp add: pool_keeps_def)

lemma bind_keeps [pool_rules]: "(\<And>a. x = Inr a \<Longrightarrow> pool_keeps w (snd (f a w))) \<Longrightarrow> pool_keeps w (snd (bind x f w))"
  by (cases x) (simp_all add: bind_def)

lemma reading_keeps [pool_rules]: "pool_keeps w (snd (reading f args w))"
  by (simp add: reading_def)

lemma reg_result_keeps:
  assumes "wf_db (reg w) \<Longrightarrow> wf_db (snd (f (reg w))) \<and> spares_held (reg w) (snd (f (reg w)))"
    and "\<And>x w'. pool_keeps w' (snd (go x w'))"
  shows "pool_keeps w (snd (reg_result f go w))"
proof -
  obtain r d where f: "f (reg w) = (r, d)" by force
  then have "pool_keeps w (w\<lparr>reg := d\<rparr>)" using assms(1) by (intro pool_keeps_reg) simp
  with f assms(2) show ?thesis
    by (cases r) (auto simp: reg_result_def intro: pool_keeps_trans)
qed

lemma reserve_tool_keeps [pool_rules]: "pool_keeps w (snd (reserve_machines_tool q dp args w))"
  unfolding reserve_machines_tool_def
  by (intro bind_keeps) (auto intro!: reg_result_keeps simp: wf_reserve spares_reserve)

lemma release_tool_keeps [pool_rules]: "pool_keeps w (snd (release_machines_tool q dp args w))"
proof -
  have step: "pool_keeps w (snd (reg_result (power_machines sh t ms ''off'') (\<lambda>results w'. (g results, w')) (w\<lparr>reg := d\<rparr>)))"
    if "release now macs h (reg w) = (ms, d)" for now macs h ms d sh t and g :: "PowerResult list \<Rightarrow> tool_error + tool_result" and w
  proof (rule pool_keeps_trans)
    show "pool_keeps w (w\<lparr>reg := d\<rparr>)"
      using that wf_holds(1) [of "reg w" now macs h] spares_release [of "reg w" now macs h]
      by (intro pool_keeps_reg) simp
    show "pool_keeps (w\<lparr>reg := d\<rparr>) (snd (reg_result (power_machines sh t ms ''off'') (\<lambda>results w'. (g results, w')) (w\<lparr>reg := d\<rparr>)))"
      by (rule reg_result_keeps) simp_all
  qed
  show ?thesis
    unfolding release_machines_tool_def
    by (intro bind_keeps) (auto simp: split_beta Let_def intro!: step)
qed

lemma renew_tool_keeps [pool_rules]: "pool_keeps w (snd (renew_reservation_tool q args w))"
  unfolding renew_reservation_tool_def
  by (intro bind_keeps) (auto intro!: reg_result_keeps simp: wf_renew spares_renew)

lemma report_tool_keeps [pool_rules]: "pool_keeps w (snd (report_bug_tool q caller args w))"
  unfolding report_bug_tool_def
  by (intro bind_keeps) (auto split: prod.split sum.split)

lemma pool_impl_keeps:
  assumes "n \<in> set POOL_CLIENT_TOOLS" "dict_get (tool_impls q dp caller) n = Some impl"
  shows "pool_keeps w (snd (impl args w))"
  using assms by (auto simp: POOL_CLIENT_TOOLS_def tool_impls_def intro: pool_rules)

lemma pool_call_keeps: "pool_keeps w (snd (call_tool q dp Pool params w))"
proof -
  have "pool_keeps w w'"
    if "n \<in> set POOL_CLIENT_TOOLS" "dict_get (tool_impls q dp Pool) n = Some impl" "impl args w = (r, w')" for n impl args r w'
    using pool_impl_keeps [OF that(1,2), of w args] that(3) by simp
  then show ?thesis
    by (auto simp: call_tool_def Let_def split: json.split option.split prod.split sum.split tool_error.split)
qed

lemma pool_dispatch_keeps: "pool_keeps w (snd (dispatch dp Pool q req w))"
proof -
  have "pool_keeps w w'" if "run_method q dp Pool meth params w = (r, w')" for meth params r w'
    using that pool_call_keeps [of w q dp params] by (auto simp: run_method_def split: if_splits)
  then show ?thesis
    by (auto simp: dispatch_def Let_def split: json.split prod.split outcome_of_method.split)
qed

lemma pool_batch_keeps: "pool_keeps w (snd (dispatch_all dp Pool entries w))"
proof (induction entries arbitrary: w)
  case (Cons e entries)
  obtain q req where e: "e = (q, req)" by force
  have "pool_keeps w (snd (dispatch dp Pool q req w))" by (rule pool_dispatch_keeps)
  moreover have "pool_keeps (snd (dispatch dp Pool q req w)) (snd (dispatch_all dp Pool entries (snd (dispatch dp Pool q req w))))"
    by (rule Cons.IH)
  ultimately show ?case using e by (simp add: split_beta Let_def pool_keeps_trans)
qed simp

type_synonym mcp_call = "(nat \<Rightarrow> request_env) \<times> string option \<times> json_text option"

fun post_step :: "deployment \<Rightarrow> mcp_call \<Rightarrow> world \<Rightarrow> world" where
  "post_step dp (qs, authorization, body) w = snd (mcp_post qs dp authorization body w)"

fun is_admin_call :: "deployment \<Rightarrow> mcp_call \<Rightarrow> bool" where
  "is_admin_call dp (qs, authorization, body) \<longleftrightarrow> check_auth dp authorization = Inr Admin"

definition outsider_step :: "deployment \<Rightarrow> mcp_call \<Rightarrow> world \<Rightarrow> world" where
  "outsider_step dp call w = (if is_admin_call dp call then w else post_step dp call w)"

lemma post_refused: "check_auth dp authorization = Inl e \<Longrightarrow> mcp_post qs dp authorization body w = (Inl e, w)"
  by (simp add: mcp_post_def)

lemma outsider_keeps: "pool_keeps w (outsider_step dp call w)"
proof (cases call)
  case (fields qs authorization body)
  show ?thesis
  proof (cases "check_auth dp authorization")
    case (Inl e)
    with fields show ?thesis by (simp add: outsider_step_def post_refused)
  next
    case (Inr caller)
    show ?thesis
    proof (cases caller)
      case Admin
      with fields Inr show ?thesis by (simp add: outsider_step_def)
    next
      case Pool
      have one: "pool_keeps w (snd (dispatch dp Pool q req w))" for q req by (rule pool_dispatch_keeps)
      have many: "pool_keeps w (snd (dispatch_all dp Pool entries w))" for entries by (rule pool_batch_keeps)
      from fields Inr Pool one many show ?thesis
        by (simp add: outsider_step_def mcp_post_def split_beta Let_def split: option.split json_text.split json.split)
    qed
  qed
qed

interpretation outsiders: pool_operations "outsider_step dp" "reg :: world \<Rightarrow> db"
proof
  fix r :: mcp_call and w :: world
  assume "wf_db (reg w)"
  with outsider_keeps [of w dp r] show "wf_db (reg (outsider_step dp r w))" "spares_held (reg w) (reg (outsider_step dp r w))"
    by (simp_all add: pool_keeps_def)
qed

lemma outsiders_trees: "tree (fold (outsider_step dp) calls w) = tree w \<and> builds (fold (outsider_step dp) calls w) = builds w"
proof (induction calls arbitrary: w)
  case (Cons call calls)
  have "tree (outsider_step dp call w) = tree w" "builds (outsider_step dp call w) = builds w"
    using outsider_keeps [of w dp call] by (simp_all add: pool_keeps_def)
  with Cons show ?case by simp
qed simp

text \<open>C3: whatever requests arrive, single or in batches, from callers that do not present the admin
  token (a pool client, or anybody): every permanently held machine stays held by the same holder and
  its row, the profile it boots included, stays as it was; no profile file changes, no build
  starts and the registry stays well-formed. The admin token is the only way to present oneself
  as admin.\<close>
theorem without_admin_no_harm:
  assumes "wf_db (reg w)" and "\<forall>call \<in> set calls. \<not> is_admin_call dp call"
    and w': "w' = fold (post_step dp) calls w"
  shows "wf_db (reg w') \<and> tree w' = tree w \<and> builds w' = builds w
    \<and> (\<forall>now k h. hold now (reg w) k = Held h \<longrightarrow> hold now (reg w') k = Held h \<and> machine_at k (reg w') = machine_at k (reg w))
    \<and> (\<forall>authorization. check_auth dp authorization = Inr Admin \<longrightarrow>
         strip (drop (length ''Bearer '') (opt_str authorization)) = dp_admin dp)"
proof -
  have "fold (post_step dp) calls w = fold (outsider_step dp) calls w"
    using assms(2) by (intro fold_cong) (auto simp: outsider_step_def fun_eq_iff)
  then have out: "w' = fold (outsider_step dp) calls w" using w' by simp
  have wf': "wf_db (reg w')" using outsiders.run_wf [OF assms(1)] out by simp
  have spares: "spares_held (reg w) (reg w')" using outsiders.run_spares [OF assms(1)] out by simp
  have admin: "strip (drop (length ''Bearer '') (opt_str authorization)) = dp_admin dp"
    if "check_auth dp authorization = Inr Admin" for authorization
    using that by (auto simp: check_auth_def Let_def compare_digest_def split: if_splits bool.splits sum.splits)
  show ?thesis
    using wf' spares outsiders_trees [of dp calls w] out admin held_iff [OF assms(1)] held_iff [OF wf']
    by (simp add: spares_held_def)
qed

definition example_env :: "nat \<Rightarrow> request_env" where
  "example_env n = \<lparr>rq_now = 10, rq_job_ids = (\<lambda>k. ''job''), rq_report_id = ''20261023-171203-a1b2c3'',
     rq_time = ''2026-10-23T17:12:03Z'', rq_str = (\<lambda>v. ''?''), rq_page = (\<lambda>name. name)\<rparr>"

definition tool_call :: "string \<Rightarrow> json pydict \<Rightarrow> json" where
  "tool_call name args = JObj [(''jsonrpc'', JStr ''2.0''), (''id'', JInt 1), (''method'', JStr ''tools/call''),
     (''params'', JObj [(''name'', JStr name), (''arguments'', JObj args)])]"

lemma without_admin_no_harm_witness:
  "hold 10 (reg (fold (post_step example_deployment)
      [(example_env, Some ''Bearer p00l'', Some (JsonText (tool_call ''release_machines'' [(''macs'', JList [JStr ''bb''])]))),
       (example_env, None, Some (JsonText (tool_call ''delete_machine'' [(''mac'', JStr ''bb'')])))] example_world)) ''bb''
   = Held ''school''"
proof -
  let ?calls = "[(example_env, Some ''Bearer p00l'', Some (JsonText (tool_call ''release_machines'' [(''macs'', JList [JStr ''bb''])]))),
       (example_env, None, Some (JsonText (tool_call ''delete_machine'' [(''mac'', JStr ''bb'')])))]"
  have wf: "wf_db (reg example_world)" by (simp add: example_world_def pool_example_facts)
  have "startswith (lower ''Bearer p00l'') ''bearer ''" "strip (drop (length ''Bearer '') ''Bearer p00l'') = ''p00l''"
    "compare_digest ''p00l'' ''adm1n'' = Inr False"
    by code_simp+
  then have "check_auth example_deployment (Some ''Bearer p00l'') \<noteq> Inr Admin"
    by (simp add: check_auth_def example_deployment_def Let_def opt_str_def split: sum.split bool.split)
  moreover have "check_auth example_deployment None = Inl bearer_required"
    by (simp add: check_auth_def opt_str_def)
  ultimately have outside: "\<forall>call \<in> set ?calls. \<not> is_admin_call example_deployment call" by simp
  have held: "hold 10 (reg example_world) ''bb'' = Held ''school''" by (simp add: example_world_def pool_example_facts)
  show ?thesis
    by (rule without_admin_no_harm [OF wf outside refl, THEN conjunct2, THEN conjunct2, THEN conjunct2, THEN conjunct1,
          rule_format, OF held, THEN conjunct1])
qed

section \<open>Which tools a token opens\<close>

lemma catalogue_distinct: "distinct tool_catalogue"
  by code_simp

lemma catalogue_is_implemented: "dom (dict_get (tool_impls q dp caller)) = set tool_catalogue"
proof -
  have "map fst (tool_impls q dp caller) =
     [''report_bug'', ''list_bug_reports'', ''get_bug_report'', ''resolve_bug_report'', ''describe_fleetboot'', ''list_machines'',
      ''get_machine'', ''enrol_machine'', ''set_machine_profile'', ''delete_machine'', ''reboot_machine'', ''power_machine'',
      ''power_fleet'', ''reserve_machines'', ''release_machines'', ''renew_reservation'', ''pin_machine'', ''release_to_pool'',
      ''set_power_command'', ''set_pdu_alias'', ''set_pending_reboot'', ''set_reboot_command'', ''list_profiles'', ''get_profile'',
      ''save_profile'', ''write_profile_overlay'', ''start_build'', ''list_builds'', ''get_build'', ''recent_events'']"
    (is "_ = ?names") by (simp add: tool_impls_def)
  moreover have "set tool_catalogue = set ?names" by code_simp
  ultimately show ?thesis by (simp only: dom_map_of_conv_image_fst list.set_map [symmetric])
qed

lemma pool_tools_exist: "set POOL_CLIENT_TOOLS \<subseteq> set tool_catalogue"
  by code_simp

lemma check_auth_pool: "check_auth dp authorization = Inr Pool \<Longrightarrow>
    truthy (dp_pool dp) \<and> dp_pool dp = Some (strip (drop (length ''Bearer '') (opt_str authorization)))"
  by (auto simp: check_auth_def Let_def compare_digest_def truthy_def opt_str_def split: if_splits bool.splits sum.splits option.splits)


lemma example_auth: "check_auth example_deployment (Some ''Bearer p00l'') = Inr Pool"
proof -
  have "startswith (lower ''Bearer p00l'') ''bearer ''" "strip (drop (length ''Bearer '') ''Bearer p00l'') = ''p00l''"
    "compare_digest ''p00l'' ''adm1n'' = Inr False" "compare_digest ''p00l'' ''p00l'' = Inr True"
    by code_simp+
  then show ?thesis by (simp add: check_auth_def example_deployment_def Let_def opt_str_def truthy_def)
qed


section \<open>One answer for each request\<close>

fun response_id :: "rpc_response \<Rightarrow> json" where
  "response_id (Rpc_Result i r) = i"
| "response_id (Rpc_Error i c text) = i"

definition owed_answer :: "json \<Rightarrow> json option" where
  \<comment> \<open>the id an entry must be answered under, if it must be\<close>
  "owed_answer req = (case req of
     JObj request \<Rightarrow> (if dict_get request ''method'' \<in> Some ` JStr ` {''initialized'', ''notifications/initialized''}
       then None else dict_get request ''id'')
   | _ \<Rightarrow> Some JNull)"

lemma call_tool_answers: "fst (call_tool q dp caller params w) \<noteq> No_Answer"
  by (simp add: call_tool_def Let_def split: json.split option.split prod.split sum.split tool_error.split)

lemma read_resource_answers: "read_resource q params \<noteq> No_Answer"
  by (simp add: read_resource_def Let_def split: json.split option.split)

lemma run_method_silent:
  "fst (run_method q dp caller meth params w) = No_Answer \<longleftrightarrow> meth = ''initialized'' \<or> meth = ''notifications/initialized''"
  using call_tool_answers [of q dp caller params w] read_resource_answers [of q params] by (auto simp: run_method_def)

lemma dispatch_answers: "map_option response_id (fst (dispatch dp caller q req w)) = owed_answer req"
proof (cases req)
  case (JObj request)
  show ?thesis
  proof (cases "arg_or request ''method'' JNull")
    case (JStr meth)
    then have m: "dict_get request ''method'' = Some (JStr meth)" by (auto simp: arg_or_def split: option.splits)
    obtain out w' where run: "run_method q dp caller meth (params_of request) w = (out, w')" by force
    then have silent: "out = No_Answer \<longleftrightarrow> meth = ''initialized'' \<or> meth = ''notifications/initialized''"
      using run_method_silent [of q dp caller meth "params_of request" w] by simp
    show ?thesis
      using JObj JStr run silent m
      by (cases out; cases "dict_get request ''id''") (auto simp: dispatch_def owed_answer_def arg_or_def)
  qed (use JObj in \<open>auto simp: dispatch_def owed_answer_def arg_or_def split: option.splits\<close>)
qed (simp_all add: dispatch_def owed_answer_def)

text \<open>C32: every request of a batch gets exactly one answer, in the order of the batch and under its own id;
  notifications get none and an entry that is no object gets an error without an id. When no entry is
  owed an answer the body is empty.\<close>
theorem every_request_is_answered_once:
  assumes "check_auth dp authorization = Inr caller"
  shows "\<exists>out w'. mcp_post qs dp authorization (Some (JsonText (JList entries))) w
      = (Inr (if out = [] then Accepted else Batch out), w')
    \<and> map response_id out = List.map_filter owed_answer entries"
proof -
  have ids: "map response_id (fst (dispatch_all dp caller es w)) = List.map_filter owed_answer (map snd es)" for es w
  proof (induction es arbitrary: w)
    case (Cons e es)
    obtain q req where e: "e = (q, req)" by force
    show ?case
      using Cons [of "snd (dispatch dp caller q req w)"] dispatch_answers [of dp caller q req w, symmetric] e
      by (cases "fst (dispatch dp caller q req w)") (auto simp: split_beta Let_def List.map_filter_simps)
  qed (simp add: List.map_filter_simps)
  let ?es = "map (\<lambda>(n, req). (qs n, req)) (enumerate 0 entries)"
  have "map snd ?es = entries" by (simp add: comp_def case_prod_beta)
  moreover obtain out w' where all: "dispatch_all dp caller ?es w = (out, w')" by force
  ultimately have "map response_id out = List.map_filter owed_answer entries" using ids [of ?es w] by simp
  with assms all show ?thesis by (intro exI [of _ out] exI [of _ w']) (simp add: mcp_post_def)
qed

lemma every_request_is_answered_once_witness:
  "\<exists>out w'. mcp_post example_env example_deployment (Some ''Bearer p00l'') (Some (JsonText (JList
        [JObj [(''method'', JStr ''ping''), (''id'', JInt 7)], JInt 3, JObj [(''method'', JStr ''ping'')]]))) example_world
      = (Inr (Batch out), w') \<and> map response_id out = [JInt 7, JNull]"
proof -
  let ?entries = "[JObj [(''method'', JStr ''ping''), (''id'', JInt 7)], JInt 3, JObj [(''method'', JStr ''ping'')]]"
  have ids: "List.map_filter owed_answer ?entries = [JInt 7, JNull]"
    by (simp add: owed_answer_def List.map_filter_simps image_iff)
  show ?thesis
    using every_request_is_answered_once [OF example_auth, of example_env ?entries example_world] unfolding ids
    by (auto split: if_splits)
qed

section \<open>Borrowing machines and giving them back\<close>

lemma lease_each_sessions: "boot_sessions (snd (lease_each now profile h why ttl ms d)) = boot_sessions d"
proof (induction ms arbitrary: d)
  case (Cons m ms)
  have "boot_sessions (snd (lease_one now profile h why ttl m d)) = boot_sessions d"
    by (simp add: lease_one_def insert_reservation_def release_unreleased_def upd_machine_def)
  with Cons show ?case by (auto split: prod.split sum.split)
qed simp

lemma reserve_sessions: "boot_sessions (snd (reserve now profile count h ttl why arch d)) = boot_sessions d"
  using lease_each_sessions [of now "strip profile" "strip h" why ttl "candidates now arch count d" d]
  by (auto simp: reserve_def Let_def split: prod.split sum.split)

lemma states_cong: "boot_sessions d = boot_sessions d' \<Longrightarrow> states_by_mac d = states_by_mac d'"
  by (simp add: states_by_mac_def all_sessions_def db_active_sessions_def sessions_def)

lemma liveness_total: "states_by_mac d = Inr states \<Longrightarrow> \<exists>liveness. liveness_by_mac now d = Inr liveness"
  by (simp add: liveness_by_mac_def)

lemma power_machines_total:
  "action \<in> set POWER_ACTIONS \<Longrightarrow> \<exists>results. power_machines shell timeout ms action d
     = (Inr results, snd (power_machines shell timeout ms action d))"
  using power_machines_arm [of action shell timeout ms "{}" d] by simp

definition borrow_arguments :: "string \<Rightarrow> int \<Rightarrow> string \<Rightarrow> json pydict" where
  "borrow_arguments profile n h = [(''profile'', JStr profile), (''count'', JInt n), (''holder'', JStr h)]"

lemma reserve_tool_run:
  assumes wf: "wf_db (reg w)" and sessions: "states_by_mac (reg w) = Inr states"
    and profile: "profile \<in> set (profile_names_of dp w)" "strip profile \<noteq> []"
    and n: "1 \<le> n" "n < 2 ^ 63" and h: "strip h \<noteq> []"
  shows "\<exists>(ms :: Machine list) payload d. reserve_machines_tool q dp (borrow_arguments profile n h) w = (Inr (Text_Result (JObj payload)), w\<lparr>reg := d\<rparr>)
    \<and> wf_db d
    \<and> map mac ms = take (nat n) (sorted_list_of_set (claimable (rq_now q) None (reg w)))
    \<and> (\<forall>machine \<in> set ms. profile_name machine = strip profile)
    \<and> (\<forall>k. hold (rq_now q) d k = (if k \<in> mac ` set ms then Leased (strip h) (datetime_plus (rq_now q) 3600) else hold (rq_now q) (reg w) k))
    \<and> dict_get payload ''reserved'' = Some (JInt (int (length ms)))
    \<and> dict_get payload ''short_by'' = Some (JInt (n - int (length ms)))"
proof -
  obtain ms d where r: "reserve (rq_now q) profile n (strip h) 3600 None None (reg w) = (Inr ms, d)" "wf_db d"
      "map mac ms = take (nat n) (sorted_list_of_set (claimable (rq_now q) None (reg w)))"
      "\<forall>machine \<in> set ms. profile_name machine = strip profile"
      "\<forall>k. hold (rq_now q) d k = (if k \<in> mac ` set ms then Leased (strip h) (datetime_plus (rq_now q) 3600) else hold (rq_now q) (reg w) k)"
    using reserve_effect [OF wf profile(2), of "strip h" n 3600 "rq_now q" None None] h n by auto
  obtain results where p: "power_machines (dp_shell dp) (dp_timeout dp) (map mac ms) ''on'' d = (Inr results, d)"
    using power_machines_total [of "''on''" "dp_shell dp" "dp_timeout dp" "map mac ms" d] by (auto simp: POWER_ACTIONS_def)
  have "states_by_mac d = Inr states"
    using reserve_sessions [of "rq_now q" profile n "strip h" 3600 None None "reg w"] r(1) sessions states_cong [of d "reg w"] by simp
  then obtain liveness where l: "liveness_by_mac (rq_now q) d = Inr liveness" using liveness_total by blast
  have "length (map mac ms) \<le> nat n" unfolding r(3) by simp
  then have len: "max 0 (n - int (length ms)) = n - int (length ms)" using n by simp
  have args: "require_str (borrow_arguments profile n h) ''profile'' = Inr profile" "count_argument (borrow_arguments profile n h) = Inr n"
    "holder_argument (borrow_arguments profile n h) ''agent'' = Inr h" "optional_str (borrow_arguments profile n h) ''purpose'' = Inr None"
    "optional_str (borrow_arguments profile n h) ''architecture'' = Inr None" "ttl_seconds (borrow_arguments profile n h) = Inr 3600"
    using n h by (simp_all add: borrow_arguments_def require_str_def count_argument_def require_int_def holder_argument_def arg_or_def
        optional_str_def ttl_seconds_def)
  have "\<exists>payload. reserve_machines_tool q dp (borrow_arguments profile n h) w = (Inr (Text_Result (JObj payload)), w\<lparr>reg := d\<rparr>)
    \<and> dict_get payload ''reserved'' = Some (JInt (int (length ms)))
    \<and> dict_get payload ''short_by'' = Some (JInt (n - int (length ms)))"
    using n by (simp add: reserve_machines_tool_def bind_def args profile(1) reg_result_def r(1) p reserved_payload_def l len)
  then obtain payload where tool: "reserve_machines_tool q dp (borrow_arguments profile n h) w = (Inr (Text_Result (JObj payload)), w\<lparr>reg := d\<rparr>)
    \<and> dict_get payload ''reserved'' = Some (JInt (int (length ms)))
    \<and> dict_get payload ''short_by'' = Some (JInt (n - int (length ms)))" by blast
  show ?thesis by (intro exI [of _ ms] exI [of _ payload] exI [of _ d] conjI) (use r(2-5) tool in blast)+
qed



text \<open>
  The name must be given without the white space: \<open>reserve\<close> stores the holder stripped, and the
  answer echoes it as it was given, but \<open>release\<close> compares as given.
\<close>

lemma padded_holder_frees_nothing:
  assumes "wf_db (reg w)" "h \<noteq> []" "\<forall>k e. hold (rq_now q) (reg w) k \<noteq> Leased h e"
  shows "fst (release (rq_now q) None (Some h) (reg w)) = []"
proof -
  have "set (fst (release (rq_now q) None (Some h) (reg w))) = {}"
    using release_effect [OF assms(1), of "rq_now q" None "Some h"] assms(2,3)
    by (auto simp: release_targets_def truthy_def opt_str_def)
  then show ?thesis by simp
qed

end
