(* ===== verification/Fleet_Server.thy ===== *)
theory Fleet_Server
  imports Mcp
begin

text \<open>
  The running server as a state machine. Its state is the \<open>world\<close> of \<open>Dashboard\<close> (the database file, the build
  manager in memory, the profile tree and the bug reports) and the background tasks that were promised by an
  answer and have not run yet. A step is one request of \<open>src/fleetboot/server/app.py\<close>, \<open>dashboard.py\<close> or
  \<open>mcp.py\<close>, one background task, one sweep of the reaper, one step of the build worker, or a restart; they
  interleave in any order. The registry's lock makes each registry call one step of the database; the
  model makes each request one.

  The invariant \<open>sound\<close> holds of every reachable state.
\<close>

section \<open>The database invariant\<close>

definition sound_db :: "db \<Rightarrow> bool" where
  "sound_db d \<longleftrightarrow> wf_db d \<and> good_sessions d"

named_theorems sessions_kept \<open>operations of the registry that leave the boot sessions alone\<close>
named_theorems sound_rules \<open>operations that keep the database sound\<close>

lemma soundI: "sound_db d \<Longrightarrow> wf_db d' \<Longrightarrow> boot_sessions d' = boot_sessions d \<Longrightarrow> sound_db d'"
  using good_cong [of d' d] by (simp add: sound_db_def)

lemma sound_wf: "sound_db d \<Longrightarrow> wf_db d"
  by (simp add: sound_db_def)

lemma sessions_enroll [sessions_kept]: "boot_sessions (snd (enroll now m profile arch plat serial enroller scratch d)) = boot_sessions d"
  by (auto simp: enroll_def insert_reservation_def Let_def split: option.split sum.split prod.split)

lemma sessions_insert [sessions_kept]: "boot_sessions (snd (insert_reservation now m h why k p ttl d)) = boot_sessions d"
  by (simp add: insert_reservation_def)

lemma sessions_columns [sessions_kept]:
  "boot_sessions (snd (set_profile m profile d)) = boot_sessions d"
  "boot_sessions (snd (set_power_command m action c d)) = boot_sessions d"
  "boot_sessions (snd (set_reboot_command m v d)) = boot_sessions d"
  "boot_sessions (set_pdu_alias m alias d) = boot_sessions d"
  "boot_sessions (set_setting now key v d) = boot_sessions d"
  by (simp_all add: set_profile_def set_power_command_def set_reboot_command_def set_pdu_alias_def set_setting_def Let_def
      split: option.split)

lemma sessions_rules [sessions_kept]:
  "boot_sessions (snd (add_auto_enrol_rule now a b c e f g h k d)) = boot_sessions d"
  "boot_sessions (snd (update_auto_enrol_rule i a b c e f g h k d)) = boot_sessions d"
  "boot_sessions (snd (remove_auto_enrol_rule i d)) = boot_sessions d"
  by (auto simp: add_auto_enrol_rule_def update_auto_enrol_rule_def remove_auto_enrol_rule_def Let_def split: option.split sum.split prod.split)

lemma sessions_release_unreleased [sessions_kept]: "boot_sessions (release_unreleased now m d) = boot_sessions d"
  by (simp add: release_unreleased_def)

lemma sessions_release_each [sessions_kept]: "boot_sessions (snd (release_each now ms d)) = boot_sessions d"
  by (induction ms arbitrary: d) (simp_all add: Let_def split_beta)

lemma sessions_fold_release [sessions_kept]: "boot_sessions (fold (release_unreleased now) ms d) = boot_sessions d"
  by (induction ms arbitrary: d) (simp_all add: sessions_kept)

lemma sessions_holds [sessions_kept]:
  "boot_sessions (snd (reserve now profile count h ttl why arch d)) = boot_sessions d"
  "boot_sessions (snd (renew now m ttl d)) = boot_sessions d"
  "boot_sessions (snd (release now macs g d)) = boot_sessions d"
  "boot_sessions (snd (release_to_pool now m d)) = boot_sessions d"
  "boot_sessions (snd (reap_expired now d)) = boot_sessions d"
  by (auto simp: reserve_sessions renew_def release_def release_to_pool_def reap_expired_def Let_def sessions_kept
      split: option.split sum.split prod.split)

lemma sessions_pin [sessions_kept]: "boot_sessions (snd (pin now m h p why d)) = boot_sessions d"
proof -
  have "boot_sessions e = boot_sessions d" if "insert_reservation now k h' why' kind p' ttl (release_unreleased now j d) = (r, e)"
    for k h' why' kind p' ttl j r e
    using sessions_insert [of now k h' why' kind p' ttl "release_unreleased now j d"] that by (simp add: sessions_kept)
  then show ?thesis
    by (auto simp: pin_def Let_def sessions_kept split: option.split sum.split prod.split)
qed

lemma sessions_arm [sessions_kept]: "boot_sessions (arm S d) = boot_sessions d"
  by (simp add: arm_def)

lemma good_sessions_remove: "good_sessions d \<Longrightarrow> good_sessions (snd (remove m d))"
  by (cases "boot_sessions d") (auto simp: good_sessions_def sessions_def remove_def Let_def keys_distinct_delete set_delete_where)

lemma sound_remove [sound_rules]: "sound_db d \<Longrightarrow> sound_db (snd (remove m d))"
  by (simp add: sound_db_def wf_remove good_sessions_remove)

lemma sound_registry [sound_rules]:
  assumes "sound_db d"
  shows "sound_db (snd (enroll now m profile arch plat serial enroller scratch d))"
    and "sound_db (snd (set_profile m profile d))" "sound_db (snd (set_power_command m action c d))"
    and "sound_db (snd (set_reboot_command m v d))" "sound_db (set_pdu_alias m alias d)" "sound_db (set_setting now key v d)"
    and "sound_db (set_pending_reboot m b d)"
    and "sound_db (snd (remove_auto_enrol_rule i d))"
    and "sound_db (snd (add_auto_enrol_rule now e1 e2 e3 e4 e5 e6 e7 e8 d))"
    and "sound_db (snd (update_auto_enrol_rule i e1 e2 e3 e4 e5 e6 e7 e8 d))"
    and "sound_db (snd (reserve now profile count h ttl why arch' d))" "sound_db (snd (renew now m ttl d))"
    and "sound_db (snd (pin now m h profile' why d))" "sound_db (snd (release now macs h' d))"
    and "sound_db (snd (release_to_pool now m d))" "sound_db (snd (reap_expired now d))" "sound_db (arm S d)"
  using sound_wf [OF assms] by (auto intro!: soundI [OF assms] simp: wf_intros wf_stamps wf_rule_operations sessions_kept)

lemma sound_power_machine [sound_rules]:
  assumes "sound_db d"
  shows "sound_db (snd (power_machine shell timeout m action b d))"
proof (cases b)
  case True
  then show ?thesis using power_machine_deleting [of shell timeout m action d] assms sound_remove [OF assms, of m] by auto
next
  case False
  then show ?thesis using power_machine_writes [of shell timeout m action d] assms sound_registry(17) [OF assms] by auto
qed

lemma sound_power_machines [sound_rules]: "sound_db d \<Longrightarrow> sound_db (snd (power_machines shell timeout ms action d))"
  by (cases "action \<in> set POWER_ACTIONS") (simp_all add: power_machines_state power_machines_refused sound_registry)

lemma sound_results:
  assumes "sound_db d"
  shows "enroll now m profile arch plat serial enroller scratch d = (r1, e) \<Longrightarrow> sound_db e"
    and "set_profile m profile d = (r2, e) \<Longrightarrow> sound_db e"
    and "add_auto_enrol_rule now e1 e2 e3 e4 e5 e6 e7 e8 d = (r3, e) \<Longrightarrow> sound_db e"
    and "update_auto_enrol_rule i e1 e2 e3 e4 e5 e6 e7 e8 d = (r4, e) \<Longrightarrow> sound_db e"
    and "remove_auto_enrol_rule i d = (r5, e) \<Longrightarrow> sound_db e"
    and "remove m d = (r5, e) \<Longrightarrow> sound_db e"
    and "release now macs h d = (r6, e) \<Longrightarrow> sound_db e"
    and "release_to_pool now m d = (r5, e) \<Longrightarrow> sound_db e"
    and "set_power_command m action c d = (r7, e) \<Longrightarrow> sound_db e"
  by (metis assms snd_conv sound_registry(1), metis assms snd_conv sound_registry(2), metis assms snd_conv sound_registry(9),
      metis assms snd_conv sound_registry(10), metis assms snd_conv sound_registry(8), metis assms snd_conv sound_remove,
      metis assms snd_conv sound_registry(14), metis assms snd_conv sound_registry(15), metis assms snd_conv sound_registry(3))

section \<open>The boot endpoints\<close>

lemma sound_record [sound_rules]: "sound_db d \<Longrightarrow> sound_db (snd (record_in_db now t st d))"
proof -
  assume d: "sound_db d"
  have "snd (db_step now (Report t st) d) = snd (record_in_db now t st d)" by (simp split: prod.split sum.split)
  then have good: "good_sessions (snd (record_in_db now t st d))"
    using db_store.step_good [of d now "Report t st"] d by (simp only: sound_db_def)
  obtain s where "snd (record_in_db now t st d) = boot_sessions_update (\<lambda>_. s) d" using record_in_db_other by blast
  then have "wf_db (snd (record_in_db now t st d))" using sound_wf [OF d] by (simp add: wf_db_def)
  with good show ?thesis by (simp add: sound_db_def)
qed

lemma sound_stamped: "sound_db d \<Longrightarrow> stamped m d d' \<Longrightarrow> sound_db d'"
  using good_cong [of d' d] by (auto simp: sound_db_def stamped_def)

lemma sound_session_for [sound_rules]: "sound_db d \<Longrightarrow> sound_db (snd (session_for now t state d))"
  using sound_record [of d now t] by (auto simp: session_for_def split: option.split sum.split)

lemma sound_post_status [sound_rules]: "sound_db d \<Longrightarrow> sound_db (snd (post_status now cfg report header client d))"
proof -
  assume d: "sound_db d"
  obtain r d1 where s: "session_for now (extract_bearer_token header) (sr_state report) d = (r, d1)" by force
  then have "sound_db d1" using sound_session_for [OF d] by (metis snd_conv)
  with d s show ?thesis
    by (auto simp: post_status_def Let_def intro: sound_stamped [OF _ stamped_report] split: sum.split)
qed

lemma sound_grub_event [sound_rules]: "sound_db d \<Longrightarrow> sound_db (snd (grub_event now cfg t state d))"
proof (cases "BootState_of state")
  case (Some st)
  assume "sound_db d"
  obtain r d1 where s: "record_in_db now t st d = (r, d1)" by force
  then have "sound_db d1" using sound_record [OF \<open>sound_db d\<close>] by (metis snd_conv)
  with s Some show ?thesis
    by (auto simp: grub_event_def intro: sound_stamped [OF _ stamped_log] split: sum.split)
qed (simp add: grub_event_def)

lemma sound_db_mint [sound_rules]: "sound_db d \<Longrightarrow> sound_db (snd (db_mint now t m d))"
proof (cases "\<exists>r \<in> set (sessions d). tok r = t")
  case False
  assume d: "sound_db d"
  have "db_view d t = None" using False by (simp add: db_view_def fetch_one_None)
  then have "good_sessions (snd (db_step now (Mint t m) d))"
    using db_store.step_good [of d now "Mint t m"] d by (simp add: sound_db_def)
  moreover obtain s where "snd (db_mint now t m d) = boot_sessions_update (\<lambda>_. s) d" using db_mint_other by blast
  ultimately show ?thesis using sound_wf [OF d] by (simp add: sound_db_def wf_db_def)
qed (simp add: db_mint_def Let_def)

lemma sound_mint_session [sound_rules]: "sound_db d \<Longrightarrow> sound_db (snd (mint_session now t cfg m header d))"
proof -
  assume d: "sound_db d"
  have "sound_db e" if "db_mint now t m d = (r, e)" for r e
    using sound_db_mint [OF d, of now t m] that by simp
  with d show ?thesis
    by (auto simp: mint_session_def sound_registry split: option.split sum.split prod.split)
qed

lemma sound_api: "sound_db d \<Longrightarrow> sound_db (snd (api now cfg request header d))"
  by (cases request)
    (auto simp: outcome_def sound_mint_session enroll_machine_def change_machine_profile_def delete_machine_def add_rule_def
      delete_rule_def resolve_machine_def Let_def dest: sound_results split: sum.split prod.split option.split)

section \<open>The whole state\<close>

definition sound :: "world \<Rightarrow> bool" where
  "sound w \<longleftrightarrow> sound_db (reg w) \<and> mgr_ok (builds w)"

definition ready_ids :: "(nat \<Rightarrow> string) \<Rightarrow> manager \<Rightarrow> bool" where
  \<comment> \<open>random job ids are new, unless no job can be submitted anyway\<close>
  "ready_ids ids b \<longleftrightarrow> running_lock b \<or> (inj ids \<and> range ids \<inter> fst ` set (jobs b) = {})"

definition steady :: "(nat \<Rightarrow> string) set \<Rightarrow> world \<Rightarrow> bool" where
  "steady I w \<longleftrightarrow> sound w \<and> (\<forall>ids \<in> I. ready_ids ids (builds w))"

lemma steady_sound: "steady I w \<Longrightarrow> sound w"
  by (simp add: steady_def)

lemma steady_reg: "steady I w \<Longrightarrow> sound_db d \<Longrightarrow> steady I (w\<lparr>reg := d\<rparr>)"
  by (simp add: steady_def sound_def)

lemma steady_sound_db: "steady I w \<Longrightarrow> sound_db (reg w)"
  by (simp add: steady_def sound_def)

lemma steady_other [simp]: "steady I (w\<lparr>tree := fs\<rparr>) = steady I w" "steady I (w\<lparr>bugs := b\<rparr>) = steady I w"
  by (simp_all add: steady_def sound_def)

lemma steady_start:
  assumes "steady I w" "ids \<in> I" "start_with_downstream ids dir profile arch auto (builds w) = (r, b)"
  shows "steady I (w\<lparr>builds := b\<rparr>)"
proof (cases "running_lock (builds w)")
  case True
  with assms have "b = builds w" by (simp add: start_with_downstream_def)
  with assms(1) show ?thesis by (simp add: steady_def sound_def)
next
  case False
  then have fresh: "inj ids" "range ids \<inter> fst ` set (jobs (builds w)) = {}" and ok: "mgr_ok (builds w)"
    using assms(1,2) by (auto simp: steady_def sound_def ready_ids_def)
  have "mgr_ok b" using start_cascade_ok [OF ok fresh, of dir profile arch auto] assms(3) by simp
  moreover have "running_lock b" using assms(3) False by (auto simp: start_with_downstream_def submit_def Let_def)
  ultimately show ?thesis using assms(1) by (simp add: steady_def sound_def ready_ids_def)
qed

section \<open>The MCP tools\<close>

lemma steady_bind: "steady I w \<Longrightarrow> (\<And>a. x = Inr a \<Longrightarrow> steady I (snd (f a w))) \<Longrightarrow> steady I (snd (bind x f w))"
  by (cases x) (simp_all add: bind_def)

lemma steady_reg_result:
  assumes "steady I w" "sound_db (snd (f (reg w)))" "\<And>x w'. steady I w' \<Longrightarrow> steady I (snd (go x w'))"
  shows "steady I (snd (reg_result f go w))"
proof -
  obtain r d where f: "f (reg w) = (r, d)" by force
  with assms(1,2) have "steady I (w\<lparr>reg := d\<rparr>)" by (intro steady_reg) simp_all
  with f assms(3) show ?thesis by (cases r) (simp_all add: reg_result_def)
qed

lemma steady_with_reg: "steady I w \<Longrightarrow> sound_db (f (reg w)) \<Longrightarrow> steady I (with_reg f w)"
  by (simp add: with_reg_def steady_reg)

lemma steady_power_result:
  assumes "steady I w"
  shows "steady I (snd (reg_result (power_machines shell timeout ms action) (\<lambda>x w'. (g x w', w')) w))"
    and "steady I (snd (reg_result (power_machine shell timeout m action b) (\<lambda>x w'. (h x w', w')) w))"
  by (intro steady_reg_result assms sound_rules steady_sound_db [OF assms]; simp)+

lemmas steady_intros = steady_bind steady_reg_result steady_with_reg

lemma tools_on_machines:
  assumes w: "steady I w"
  shows "steady I (snd (enrol_machine_tool q dp args w))" "steady I (snd (set_machine_profile_tool q dp args w))"
    "steady I (snd (delete_machine_tool args w))" "steady I (snd (reboot_tool dp args w))" "steady I (snd (power_tool dp args w))"
    "steady I (snd (set_power_command_tool args w))" "steady I (snd (set_pdu_alias_tool args w))"
    "steady I (snd (set_pending_reboot_tool args w))" "steady I (snd (set_reboot_command_tool args w))"
proof -
  note db = steady_sound_db [OF w]
  show "steady I (snd (enrol_machine_tool q dp args w))"
    unfolding enrol_machine_tool_def
    by (intro steady_bind w) (auto simp: Let_def w intro!: steady_reg_result sound_registry db split: option.split)
  show "steady I (snd (set_machine_profile_tool q dp args w))"
    unfolding set_machine_profile_tool_def by (intro steady_bind w) (auto simp: w intro!: steady_reg_result sound_registry db)
  show "steady I (snd (delete_machine_tool args w))"
    unfolding delete_machine_tool_def by (intro steady_bind w) (auto intro!: steady_with_reg w sound_remove db)
  show "steady I (snd (reboot_tool dp args w))"
    unfolding reboot_tool_def reboot_machine_def
    by (intro steady_bind w steady_reg_result sound_rules db) (simp_all add: w)
  show "steady I (snd (power_tool dp args w))"
    unfolding power_tool_def by (intro steady_bind w) (auto simp: w intro!: steady_reg_result sound_rules db)
  show "steady I (snd (set_power_command_tool args w))"
    unfolding set_power_command_tool_def by (intro steady_bind w) (auto simp: w intro!: steady_reg_result sound_registry db)
  show "steady I (snd (set_pdu_alias_tool args w))"
    unfolding set_pdu_alias_tool_def by (intro steady_bind w) (auto simp: w Let_def intro!: steady_with_reg sound_registry db)
  show "steady I (snd (set_pending_reboot_tool args w))"
    unfolding set_pending_reboot_tool_def by (intro steady_bind w) (auto intro!: steady_with_reg w sound_registry db)
  show "steady I (snd (set_reboot_command_tool args w))"
    unfolding set_reboot_command_tool_def by (intro steady_bind w steady_reg_result sound_registry db) simp_all
qed

lemma tools_on_the_fleet:
  assumes w: "steady I w"
  shows "steady I (snd (power_fleet_tool q dp args w))" "steady I (snd (reserve_machines_tool q dp args w))"
    "steady I (snd (release_machines_tool q dp args w))" "steady I (snd (renew_reservation_tool q args w))"
    "steady I (snd (pin_machine_tool q dp args w))" "steady I (snd (release_to_pool_tool q args w))"
proof -
  note db = steady_sound_db [OF w]
  show "steady I (snd (power_fleet_tool q dp args w))"
    unfolding power_fleet_tool_def
    by (intro steady_bind w) (auto simp: w Let_def intro!: steady_bind steady_power_result split: sum.split)
  show "steady I (snd (reserve_machines_tool q dp args w))"
    unfolding reserve_machines_tool_def
    by (intro steady_bind w) (auto simp: w intro!: steady_reg_result sound_registry db steady_power_result)
  show "steady I (snd (release_machines_tool q dp args w))"
    unfolding release_machines_tool_def
    by (intro steady_bind w) (auto simp: w Let_def intro!: steady_power_result steady_reg [OF w] dest: sound_results(7) [OF db] split: prod.split)
  show "steady I (snd (renew_reservation_tool q args w))"
    unfolding renew_reservation_tool_def by (intro steady_bind w steady_reg_result sound_registry db) simp_all
  show "steady I (snd (pin_machine_tool q dp args w))"
    unfolding pin_machine_tool_def by (intro steady_bind w steady_reg_result sound_registry db) simp_all
  show "steady I (snd (release_to_pool_tool q args w))"
    unfolding release_to_pool_tool_def
    by (intro steady_bind w) (auto simp: w intro!: steady_reg [OF w] dest: sound_results(8) [OF db] split: prod.split)
qed

lemma tools_on_files:
  assumes w: "steady I w"
  shows "steady I (snd (save_profile_tool dp args w))" "steady I (snd (write_overlay_tool dp args w))"
    "steady I (snd (report_bug_tool q caller args w))" "steady I (snd (resolve_bug_report_tool q args w))"
  unfolding save_profile_tool_def write_overlay_tool_def report_bug_tool_def resolve_bug_report_tool_def
  by (intro steady_bind w; auto simp: w Let_def intro!: steady_bind split: prod.split sum.split)+

lemma tool_start_build:
  assumes w: "steady I w" and ids: "rq_job_ids q \<in> I"
  shows "steady I (snd (start_build_tool q dp args w))"
  unfolding start_build_tool_def
  by (intro steady_bind w) (auto simp: w intro: steady_start [OF w ids] split: prod.split sum.split)

lemma tool_steady:
  assumes w: "steady I w" and ids: "rq_job_ids q \<in> I" and impl: "dict_get (tool_impls q dp caller) n = Some impl"
  shows "steady I (snd (impl args w))"
proof -
  have reading: "steady I (snd (reading f args w))" for f using w by (simp add: reading_def)
  have "(n, impl) \<in> set (tool_impls q dp caller)" using impl by (rule map_of_SomeD)
  then show ?thesis
    unfolding tool_impls_def
    using tools_on_machines [OF w] tools_on_the_fleet [OF w] tools_on_files [OF w] tool_start_build [OF w ids] reading
    by auto
qed

lemma call_steady:
  assumes w: "steady I w" and ids: "rq_job_ids q \<in> I"
  shows "steady I (snd (dispatch dp caller q req w))"
proof -
  have impl: "steady I w'" if "dict_get (tool_impls q dp c) n = Some impl" "impl args w = (r, w')" for c n impl args r w'
    using tool_steady [OF w ids that(1), of args] that(2) by simp
  have "steady I (snd (call_tool q dp caller params w))" for params
    using w by (auto simp: call_tool_def Let_def dest: impl split: json.split option.split prod.split sum.split tool_error.split)
  then have "steady I w'" if "run_method q dp caller meth params w = (r, w')" for meth params r w'
    using that w by (auto simp: run_method_def split: if_splits) (metis snd_conv)
  then show ?thesis
    using w by (auto simp: dispatch_def Let_def split: json.split prod.split outcome_of_method.split)
qed

lemma batch_steady:
  "steady I w \<Longrightarrow> \<forall>(q, req) \<in> set entries. rq_job_ids q \<in> I \<Longrightarrow> steady I (snd (dispatch_all dp caller entries w))"
proof (induction entries arbitrary: w)
  case (Cons e entries)
  obtain q req where e: "e = (q, req)" by force
  with Cons.prems have "steady I (snd (dispatch dp caller q req w))" by (intro call_steady) auto
  with Cons e show ?case by (simp add: split_beta Let_def)
qed simp

lemma mcp_steady:
  assumes w: "steady I w" and ids: "\<forall>n. rq_job_ids (qs n) \<in> I"
  shows "steady I (snd (mcp_post qs dp authorization body w))"
proof -
  have "steady I w'" if "dispatch_all dp caller (map (\<lambda>(n, req). (qs n, req)) xs) w = (out, w')" for caller xs out w'
  proof -
    have "\<forall>(q, req) \<in> set (map (\<lambda>(n, req). (qs n, req)) xs). rq_job_ids q \<in> I" using ids by auto
    from batch_steady [OF w this, of dp caller] that show ?thesis by simp
  qed
  moreover have "steady I w'" if "dispatch dp caller (qs 0) req w = (out, w')" for caller req out w'
    using call_steady [OF w, of "qs 0" dp caller req] ids that by auto
  ultimately show ?thesis
    using w by (auto simp: mcp_post_def Let_def split: sum.split option.split json_text.split json.split prod.split)
qed

section \<open>The forms and their background tasks\<close>

lemma steady_reg_call: "steady I w \<Longrightarrow> sound_db (snd (f (reg w))) \<Longrightarrow> steady I (snd (reg_call f answer w))"
  by (auto simp: reg_call_def intro: steady_reg split: prod.split sum.split)

lemma steady_power_settings:
  assumes w: "steady I w"
  shows "steady I (snd (set_power_settings m alias on off w))"
proof -
  have "sound_db d" if "set_power_command m ''on'' (Some on) (set_pdu_alias m (Some alias) (reg w)) = (r, d)" for r d
    using sound_results(9) [OF sound_registry(5) [OF steady_sound_db [OF w]] that] .
  then show ?thesis
    by (auto simp: set_power_settings_def intro!: steady_reg [OF w] steady_reg_call sound_registry split: prod.split sum.split)
qed

lemma steady_build_form:
  assumes w: "steady I w" and ids: "ids \<in> I"
  shows "steady I (snd (trigger_build ids dp profile arch auto w))"
  by (auto simp: trigger_build_def w intro: steady_start [OF w ids] split: prod.split sum.split list.split)

lemma form_steady:
  assumes w: "steady I w" and ids: "ids \<in> I"
  shows "steady I (snd (form_handler ids now dp form w))"
proof -
  note db = steady_sound_db [OF w]
  have in_tree: "steady I (snd (in_tree f w))" for f using w by (simp add: in_tree_def split: prod.split sum.split)
  show ?thesis
  proof (cases form)
    case (Update_Rule_Form i f)
    then show ?thesis
      using w by (auto simp: update_rule_form_def intro!: steady_reg dest: sound_results(4) [OF db] split: prod.split sum.split option.split)
  next
    case (Release_Lease_Form m)
    then show ?thesis
      using w by (auto simp: release_lease_route_def Let_def intro!: steady_reg dest: sound_results(7) [OF db] split: prod.split)
  qed (auto simp: enrol_machine_form_def delete_machine_form_def update_settings_def delete_rule_form_def add_rule_form_def
      set_reboot_command_form_def delete_and_reboot_def reboot_machine_route_def set_machine_profile_form_def
      power_machine_route_def release_to_pool_route_def pin_machine_route_def steady_power_settings [OF w] steady_build_form [OF w ids] in_tree w
      intro!: steady_reg_call steady_with_reg steady_reg sound_registry sound_remove db dest: sound_results(3) [OF db] split: prod.split sum.split)
qed

lemma background_steady: "steady I w \<Longrightarrow> steady I (run_background dp task w)"
  by (cases task) (auto intro!: steady_with_reg sound_rules dest: steady_sound_db)

section \<open>The server's steps\<close>

record server_setup =
  sv_dp :: deployment
  sv_cfg :: app_config

type_synonym server_state = "world \<times> background list"

definition finish_build :: "timestamp \<Rightarrow> make_run \<Rightarrow> worker \<Rightarrow> string \<Rightarrow> string list \<Rightarrow> BuildJob \<Rightarrow> world \<Rightarrow> world" where
  \<comment> \<open>the worker ends the job \<open>j\<close>, whose success arms the reboot of its machines\<close>
  "finish_build now run k i rest j w =
     (let (j', d) = finish_execute (Some fleet_wide_reboot_on_success) now run j (reg w) in
      w\<lparr>builds := set_job i (\<lambda>_. j') ((builds w)\<lparr>worker := Some (k\<lparr>todo := rest, executing := False,
          root_result := (if root_result k = None then Some (succeeds run) else root_result k)\<rparr>)\<rparr>), reg := d\<rparr>)"

inductive server_step :: "server_setup \<Rightarrow> server_state \<Rightarrow> server_state \<Rightarrow> bool" for sv where
  Status: "post_status now (sv_cfg sv) report header client (reg w) = (res, d) \<Longrightarrow> server_step sv (w, ts) (w\<lparr>reg := d\<rparr>, ts)"
| Grub_Event: "grub_event now (sv_cfg sv) t state (reg w) = (res, d) \<Longrightarrow> server_step sv (w, ts) (w\<lparr>reg := d\<rparr>, ts)"
| Api: "api now (sv_cfg sv) request header (reg w) = (res, d) \<Longrightarrow> server_step sv (w, ts) (w\<lparr>reg := d\<rparr>, ts)"
| Form: "ready_ids ids (builds w) \<Longrightarrow> guarded (sv_dp sv) password (form_handler ids now (sv_dp sv) form) w = (res, w') \<Longrightarrow>
    server_step sv (w, ts) (w', ts @ (case res of Inl e \<Rightarrow> [] | Inr (url, new) \<Rightarrow> new))"
| Background: "server_step sv (w, ts @ t # us) (run_background (sv_dp sv) t w, ts @ us)"
| Mcp: "\<forall>n. ready_ids (rq_job_ids (qs n)) (builds w) \<Longrightarrow> mcp_post qs (sv_dp sv) authorization body w = (res, w') \<Longrightarrow>
    server_step sv (w, ts) (w', ts)"
| Sweep: "reap_once (\<lambda>m. power_machine (dp_shell (sv_dp sv)) (dp_timeout (sv_dp sv)) m ''off'' False) now (reg w) = (freed, d) \<Longrightarrow>
    server_step sv (w, ts) (w\<lparr>reg := d\<rparr>, ts)"
| Begin_Build: "worker (builds w) = Some k \<Longrightarrow> \<not> executing k \<Longrightarrow> todo k = i # rest \<Longrightarrow> root_result k \<noteq> Some False \<Longrightarrow>
    server_step sv (w, ts) (w\<lparr>builds := set_job i (begin_execute now) ((builds w)\<lparr>worker := Some (k\<lparr>executing := True\<rparr>)\<rparr>)\<rparr>, ts)"
| Build_Line: "worker (builds w) = Some k \<Longrightarrow> executing k \<Longrightarrow> todo k = i # rest \<Longrightarrow>
    server_step sv (w, ts) (w\<lparr>builds := set_job i (append_line l) (builds w)\<rparr>, ts)"
| Finish_Build: "worker (builds w) = Some k \<Longrightarrow> executing k \<Longrightarrow> todo k = i # rest \<Longrightarrow> map_of (jobs (builds w)) i = Some j \<Longrightarrow>
    server_step sv (w, ts) (finish_build now run k i rest j w, ts)"
| Skip_Build: "worker (builds w) = Some k \<Longrightarrow> \<not> executing k \<Longrightarrow> todo k = i # rest \<Longrightarrow> root_result k = Some False \<Longrightarrow>
    server_step sv (w, ts) (w\<lparr>builds := set_job i (skip_job now (root_profile k)) ((builds w)\<lparr>worker := Some (k\<lparr>todo := rest\<rparr>)\<rparr>)\<rparr>, ts)"
| Release_Build: "worker (builds w) = Some k \<Longrightarrow> \<not> executing k \<Longrightarrow> todo k = [] \<Longrightarrow>
    server_step sv (w, ts) (w\<lparr>builds := (builds w)\<lparr>running_lock := False, worker := None\<rparr>\<rparr>, ts)"
| Restart: "server_step sv (w, ts) (w\<lparr>reg := open_session_store (reg w), builds := empty_manager\<rparr>, [])"

lemma sound_opened: "sound_db d \<Longrightarrow> sound_db (open_session_store d)"
proof -
  assume d: "sound_db d"
  then have "good_sessions (open_session_store d)"
    using restart_keeps_sessions [of d] by (auto simp: sound_db_def good_sessions_def)
  moreover have "wf_db (open_session_store d)"
    using sound_wf [OF d] by (simp add: wf_db_def open_session_store_def)
  ultimately show ?thesis by (simp add: sound_db_def)
qed

lemma sound_swept:
  assumes "sound_db d"
  shows "sound_db (snd (reap_once (\<lambda>m. power_machine shell timeout m action False) now d))"
proof -
  have "sound_db e \<Longrightarrow> sound_db (fold (\<lambda>m d. snd (power_machine shell timeout m action False d)) ms e)" for ms e
    by (induction ms arbitrary: e) (simp_all add: sound_power_machine)
  with sound_registry(16) [OF assms, of now] show ?thesis by (simp add: reap_once_def split_beta Let_def)
qed

lemma sound_finished:
  assumes "sound w" "worker (builds w) = Some k" "executing k" "todo k = i # rest" "map_of (jobs (builds w)) i = Some j"
  shows "sound (finish_build now run k i rest j w)"
proof -
  obtain j' d where f: "finish_execute (Some fleet_wide_reboot_on_success) now run j (reg w) = (j', d)" by force
  let ?b = "(builds w)\<lparr>worker := Some (k\<lparr>todo := rest, executing := False,
      root_result := (if root_result k = None then Some (succeeds run) else root_result k)\<rparr>)\<rparr>"
  have "set_job i (\<lambda>_. j') ?b = set_job i (\<lambda>j. fst (finish_execute (Some fleet_wide_reboot_on_success) now run j (reg w))) ?b"
    using assms(5) f by (simp add: set_job_def)
  then have "mgr_step (builds w) (set_job i (\<lambda>_. j') ?b)"
    using mgr_step.Finish [OF assms(2-4), of "Some fleet_wide_reboot_on_success" now run "reg w"] by simp
  then have "mgr_ok (set_job i (\<lambda>_. j') ?b)" using assms(1) step_ok by (auto simp: sound_def)
  moreover have "sound_db d"
  proof -
    have "sound_db (snd (fleet_wide_reboot_on_success job (reg w)))" for job
      using fleet_reboot_effect [of "reg w" job] assms(1) sound_registry(17) [of "reg w"] by (auto simp: sound_def sound_db_def)
    moreover have "d = reg w \<or> (\<exists>job. d = snd (fleet_wide_reboot_on_success job (reg w)))"
      using f by (auto simp: finish_execute_def Let_def split: make_run.splits prod.splits sum.splits if_splits) (metis snd_conv)+
    ultimately show ?thesis using assms(1) by (auto simp: sound_def)
  qed
  ultimately show ?thesis using f by (simp add: finish_build_def sound_def)
qed

lemma server_step_sound: "server_step sv s s' \<Longrightarrow> sound (fst s) \<Longrightarrow> sound (fst s')"
proof (induction rule: server_step.induct)
  case (Status now report header client w res d ts)
  then show ?case using sound_post_status [of "reg w" now "sv_cfg sv" report header client] by (simp add: sound_def)
next
  case (Grub_Event now t state w res d ts)
  then show ?case using sound_grub_event [of "reg w" now "sv_cfg sv" t state] by (simp add: sound_def)
next
  case (Api now request header w res d ts)
  then show ?case using sound_api [of "reg w" now "sv_cfg sv" request header] by (simp add: sound_def)
next
  case (Form ids w password now form res w' ts)
  then have w: "steady {ids} w" by (simp add: steady_def)
  have "steady {ids} w'"
    using Form(2) w form_steady [OF w, of ids now "sv_dp sv" form] by (auto simp: guarded_def split: sum.splits)
  then show ?case by (simp add: steady_sound)
next
  case (Background w ts t us)
  then have "steady {} w" by (simp add: steady_def)
  then show ?case using background_steady steady_sound by fastforce
next
  case (Mcp qs w authorization body res w' ts)
  let ?I = "range (\<lambda>n. rq_job_ids (qs n))"
  from Mcp have "steady ?I w" by (auto simp: steady_def)
  then have "steady ?I (snd (mcp_post qs (sv_dp sv) authorization body w))" by (rule mcp_steady) simp
  with Mcp(2) show ?case by (simp add: steady_sound)
next
  case (Sweep now w freed d ts)
  then show ?case using sound_swept [of "reg w" "dp_shell (sv_dp sv)" "dp_timeout (sv_dp sv)" "''off''" now] by (simp add: sound_def)
next
  case (Begin_Build w k i rest now ts)
  then show ?case using step_ok [OF mgr_step.Begin] by (simp add: sound_def)
next
  case (Build_Line w k i rest l ts)
  then show ?case using step_ok [OF mgr_step.Line] by (simp add: sound_def)
next
  case (Finish_Build w k i rest j now run ts)
  then show ?case by (simp add: sound_finished)
next
  case (Skip_Build w k i rest now ts)
  then show ?case using step_ok [OF mgr_step.Skip] by (simp add: sound_def)
next
  case (Release_Build w k ts)
  then show ?case using step_ok [OF mgr_step.Release] by (simp add: sound_def)
next
  case (Restart w ts)
  have "mgr_ok empty_manager" by (simp add: mgr_ok_def empty_manager_def state_of_def)
  with Restart show ?case by (simp add: sound_def sound_opened)
qed

section \<open>Every reachable state\<close>

definition fresh_world :: "file_tree \<Rightarrow> bug_store option \<Rightarrow> world" where
  "fresh_world fs filed = \<lparr>reg = open_session_store empty_db, builds = empty_manager, tree = fs, bugs = filed\<rparr>"

lemma fresh_sound: "sound (fresh_world fs filed)"
proof -
  have "sound_db empty_db" using wf_empty_db by (simp add: sound_db_def good_sessions_def sessions_def empty_db_def keys_distinct_def)
  moreover have "mgr_ok empty_manager" by (simp add: mgr_ok_def empty_manager_def state_of_def)
  ultimately show ?thesis by (simp add: sound_def fresh_world_def sound_opened)
qed

lemma reachable_sound: "(server_step sv)\<^sup>*\<^sup>* s s' \<Longrightarrow> sound (fst s) \<Longrightarrow> sound (fst s')"
  by (induction rule: rtranclp_induct) (simp_all add: server_step_sound)

lemma states_total: "good_sessions d \<Longrightarrow> \<exists>states. states_by_mac d = Inr states"
proof -
  assume d: "good_sessions d"
  have "stored_state (latest_state r) \<noteq> Inl e" if "r \<in> set (sessions d)" for r e
    using d that by (auto simp: good_sessions_def stored_state_def split: option.splits)
  then have "\<not> (\<exists>s \<in> set (db_active_sessions d). case s of Inl e \<Rightarrow> True | Inr x \<Rightarrow> False)"
    by (auto simp: db_active_sessions_def split: sum.splits)
  then show ?thesis by (simp add: states_by_mac_def all_sessions_def)
qed

lemma report_never_crashes: "good_sessions d \<Longrightarrow> fst (post_status now cfg report header client d) \<noteq> Inl Server_Error"
proof (cases "valid_report report")
  case True
  assume d: "good_sessions d"
  show ?thesis
  proof (cases "db_view d (extract_bearer_token header)")
    case None
    then show ?thesis
      using session_for_correct(1) [OF d, of "extract_bearer_token header" now "sr_state report"] True
      by (simp add: post_status_def session_failure_def unauthorised_def)
  next
    case (Some ml)
    then obtain m l where "db_view d (extract_bearer_token header) = Some (m, l)" by (cases ml) simp
    then show ?thesis using status_accepted [OF d True refl, of header m l now cfg client] by force
  qed
qed (simp add: post_status_def)

text \<open>C6: whatever requests, background tasks, sweeps, build steps and restarts follow one another from an empty data directory, in
  any order and from any caller, the server stays sound: the registry is well-formed, so no machine has
  two un-released holds; every stored boot state is readable, so the fleet page and the MCP tools can always be
  computed and a status report never ends in a 500; at most one build runs, and the build lock is
  held while a job is queued or running.\<close>
theorem server_stays_sound:
  assumes "(server_step sv)\<^sup>*\<^sup>* (fresh_world fs filed, []) (w, ts)"
  shows "wf_db (reg w)
    \<and> (\<forall>r \<in> set (reservations (reg w)). \<forall>s \<in> set (reservations (reg w)).
         res_mac r = res_mac s \<and> unreleased r \<and> unreleased s \<longrightarrow> r = s)
    \<and> (\<exists>states. states_by_mac (reg w) = Inr states)
    \<and> (\<forall>report header. fst (post_status now cfg report header client (reg w)) \<noteq> Inl Server_Error)
    \<and> (\<forall>i k. state_of (builds w) i = Some RUNNING \<and> state_of (builds w) k = Some RUNNING \<longrightarrow> i = k)
    \<and> (\<forall>i. state_of (builds w) i \<in> {Some QUEUED, Some RUNNING} \<longrightarrow> running_lock (builds w))"
proof -
  have "sound w" using reachable_sound [OF assms] fresh_sound by simp
  then have db: "wf_db (reg w)" "good_sessions (reg w)" and jobs_ok: "mgr_ok (builds w)" by (simp_all add: sound_def sound_db_def)
  have "\<forall>i k. state_of (builds w) i = Some RUNNING \<and> state_of (builds w) k = Some RUNNING \<longrightarrow> i = k"
    and "\<forall>i. state_of (builds w) i \<in> {Some QUEUED, Some RUNNING} \<longrightarrow> running_lock (builds w)"
    using jobs_ok by (auto simp: mgr_ok_def split: option.splits)
  with db one_unreleasedD [OF wf_one_unreleased [OF db(1)]] states_total [OF db(2)] report_never_crashes [OF db(2)] show ?thesis
    by blast
qed

definition example_setup :: server_setup where
  "example_setup = \<lparr>sv_dp = example_deployment, sv_cfg = gate_example\<rparr>"

lemma server_stays_sound_witness:
  "\<exists>w. (server_step example_setup)\<^sup>*\<^sup>* (fresh_world (tree example_world) None, []) (w, [])
     \<and> lookup ''aa'' (reg w) \<noteq> None \<and> wf_db (reg w) \<and> (\<exists>states. states_by_mac (reg w) = Inr states)"
proof -
  let ?start = "fresh_world (tree example_world) None"
  let ?body = "\<lparr>enr_mac = ''aa'', enr_profile_name = ''desktop'', enr_architecture = ''x86_64'', enr_platform = ''efi'',
     enr_serial_console = False, enr_scratch_mode = ''volatile''\<rparr>"
  obtain res d where run: "api 5 gate_example (Enroll ?body) (Some ''Bearer adm1n'') (reg ?start) = (res, d)" by force
  let ?w = "?start\<lparr>reg := d\<rparr>"
  have "server_step example_setup (?start, []) (?w, [])"
    using server_step.Api [of 5 example_setup "Enroll ?body" "Some ''Bearer adm1n''" ?start res d "[]"] run by (simp add: example_setup_def)
  then have reach: "(server_step example_setup)\<^sup>*\<^sup>* (?start, []) (?w, [])" ..
  have admin: "require_admin gate_example (Some ''Bearer adm1n'') = Inr ()" by code_simp
  have profile: "require_known_profile gate_example ''desktop'' = Inr ()" by code_simp
  have nm: "normalise_mac ''aa'' = ''aa''" by code_simp
  have reg0: "reg ?start = open_session_store empty_db" by (simp add: fresh_world_def)
  have "machine_at ''aa'' (open_session_store empty_db) = None" by (simp add: machine_at_def open_session_store_def empty_db_def)
  moreover have "wf_db (open_session_store empty_db)" using fresh_sound [of "tree example_world" None] by (simp add: sound_def sound_db_def fresh_world_def)
  ultimately obtain e where e: "enroll 5 ''aa'' ''desktop'' ''x86_64'' ''efi'' False ''manual'' ''volatile'' (open_session_store empty_db)
      = (Inr (row_to_machine (new_machine_row 5 ''aa'' ''desktop'' ''x86_64'' ''efi'' False ''manual'' ''volatile'')), e)"
    "machine_at ''aa'' e \<noteq> None"
    using enroll_new [of "open_session_store empty_db" "''volatile''" "''aa''", OF _ _ _ refl, of 5 "''desktop''" "''x86_64''" "''efi''" False "''manual''"] nm
    by (auto simp: SCRATCH_MODES_def)
  have "d = e" using run e(1) admin profile unfolding reg0 by (simp add: outcome_def enroll_machine_def SCRATCH_MODES_def)
  then have "lookup ''aa'' (reg ?w) \<noteq> None" using e(2) nm by (simp add: lookup_def)
  with reach server_stays_sound [OF reach] show ?thesis by blast
qed

end
