(* ===== verification/Migrations.thy ===== *)
theory Migrations
  imports Registry
begin

text \<open>
  Opening a database file: the schema, the column migrations, the hardware backfill, the one-time pinning of
  machines enrolled before reservations existed, and the renamed boot states
  (\<open>MachineRegistry.__init__\<close> and the \<open>_add_*_if_missing\<close> functions of \<open>src/fleetboot/server/registry.py\<close>).

  A \<open>db_file\<close> is what an older version may have left: the columns that the two migrated tables have, with the
  values of their rows, and the other tables, which exist or not. The two tables have at least the columns of the first
  schema. The journal mode and the indexes have no effect on the contents; the unique index of
  \<open>reservations\<close> holds in every file that has the table.
\<close>

section \<open>Files\<close>

datatype sql_value = Null | Text string | Number int | Json json_text

type_synonym sql_row = "string \<Rightarrow> sql_value"

record sql_table =
  columns :: "string list"
  rows :: "sql_row list"

record db_file =
  f_machines :: "sql_table option"
  f_rules :: "sql_table option"
  f_events :: "boot_event table option"
  f_settings :: "setting_row table option"
  f_reservations :: "reservation table option"
  f_res_seq :: nat

definition MACHINE_COLUMNS :: "string list" where
  "MACHINE_COLUMNS = [''mac'', ''profile_name'', ''architecture'', ''platform'', ''serial_console'', ''enrolled_by'',
     ''hostname'', ''hostname_seen_at'', ''boot_version'', ''boot_version_seen_at'', ''scratch_mode'',
     ''last_diagnostics'', ''last_diagnostics_at'', ''last_hardware'', ''last_hardware_at'', ''hardware_spec'',
     ''last_ip'', ''last_ip_at'', ''reboot_command'', ''power_on_command'', ''power_off_command'', ''pdu_alias'',
     ''pending_reboot'', ''created_at'']"

definition RULE_COLUMNS :: "string list" where
  "RULE_COLUMNS = [''id'', ''name'', ''match_kind'', ''match_value'', ''profile_name'', ''architecture'', ''platform'',
     ''serial_console'', ''scratch_mode'', ''created_at'']"

definition table_or :: "'a \<Rightarrow> 'a option \<Rightarrow> 'a" where
  "table_or e t = (case t of None \<Rightarrow> e | Some x \<Rightarrow> x)"

lemma table_or_Some [simp]: "table_or e (Some x) = x"
  by (simp add: table_or_def)

definition or_create :: "'a \<Rightarrow> 'a option \<Rightarrow> 'a option" where
  \<comment> \<open>\<open>CREATE TABLE IF NOT EXISTS\<close>\<close>
  "or_create e t = Some (table_or e t)"

definition create_schema :: "db_file \<Rightarrow> db_file" where
  "create_schema f = f\<lparr>
     f_machines := or_create \<lparr>columns = MACHINE_COLUMNS, rows = []\<rparr> (f_machines f),
     f_rules := or_create \<lparr>columns = RULE_COLUMNS, rows = []\<rparr> (f_rules f),
     f_events := or_create [] (f_events f), f_settings := or_create [] (f_settings f),
     f_reservations := or_create [] (f_reservations f)\<rparr>"

section \<open>Columns\<close>

definition add_column :: "string \<Rightarrow> sql_value \<Rightarrow> sql_table \<Rightarrow> sql_table" where
  \<comment> \<open>\<open>ALTER TABLE ... ADD COLUMN\<close>, whose error on a column that exists is caught\<close>
  "add_column c dflt t = (if c \<in> set (columns t) then t
     else \<lparr>columns = columns t @ [c], rows = map (\<lambda>r. r(c := dflt)) (rows t)\<rparr>)"

definition machine_migrations :: "(string \<times> sql_value) list" where
  \<comment> \<open>the columns of \<open>machines\<close>, in the order the functions add them, up to the power columns\<close>
  "machine_migrations =
     [(''serial_console'', Number 0), (''enrolled_by'', Text ''manual''), (''hostname'', Null), (''hostname_seen_at'', Null),
      (''boot_version'', Null), (''boot_version_seen_at'', Null), (''scratch_mode'', Text ''volatile''),
      (''last_diagnostics'', Null), (''last_diagnostics_at'', Null), (''last_hardware'', Null), (''last_hardware_at'', Null),
      (''last_ip'', Null), (''last_ip_at'', Null), (''reboot_command'', Null), (''pending_reboot'', Number 0),
      (''power_on_command'', Null), (''power_off_command'', Null), (''pdu_alias'', Null)]"

definition add_columns :: "(string \<times> sql_value) list \<Rightarrow> sql_table \<Rightarrow> sql_table" where
  "add_columns cs t = fold (\<lambda>(c, dflt). add_column c dflt) cs t"

definition backfilled :: "sql_row \<Rightarrow> sql_row" where
  \<comment> \<open>\<open>spec_from_inventory\<close> of the stored inventory, if it has one\<close>
  "backfilled r = (case r ''last_hardware'' of
     Json text \<Rightarrow>
       (let spec = spec_from_inventory (map_option JObj (parse_json_object (Some text))) in
        if spec = [] then r else r(''hardware_spec'' := Json (JsonText (JObj spec))))
   | _ \<Rightarrow> r)"

definition add_hardware_spec_column_if_missing :: "sql_table \<Rightarrow> sql_table" where
  "add_hardware_spec_column_if_missing t = (if ''hardware_spec'' \<in> set (columns t) then t
     else let t' = add_column ''hardware_spec'' Null t in t'\<lparr>rows := map backfilled (rows t')\<rparr>)"

section \<open>Pinning the machines that were there before\<close>

definition PINNED_FLAG :: string where "PINNED_FLAG = ''reservations_pinned_existing''"

definition text_of_value :: "sql_value \<Rightarrow> string" where
  "text_of_value v = (case v of Text s \<Rightarrow> s | _ \<Rightarrow> [])"

definition migrated_hold :: "timestamp \<Rightarrow> sql_row \<Rightarrow> nat \<Rightarrow> reservation" where
  "migrated_hold now r i = \<lparr>res_id = i, res_mac = text_of_value (r ''mac''), holder = text_of_value (r ''enrolled_by''),
     lease_kind = Permanent, acquired_at = now, purpose = Some ''migrated: pre-reservation fleet machine'',
     res_profile = Some (text_of_value (r ''profile_name'')), expires_at = None, released_at = None\<rparr>"

definition free_rows :: "reservation table \<Rightarrow> sql_row list \<Rightarrow> sql_row list" where
  \<comment> \<open>the machines without an un-released reservation\<close>
  "free_rows held rs = filter (\<lambda>r. \<not> (\<exists>h \<in> set held. res_mac h = text_of_value (r ''mac'') \<and> released_at h = None)) rs"

definition pin_existing_machines_once :: "timestamp \<Rightarrow> string \<Rightarrow> sql_row list \<Rightarrow> db_file \<Rightarrow> db_file" where
  \<comment> \<open>\<open>stamp\<close> is the text of the time, the flag's value\<close>
  "pin_existing_machines_once now stamp rs f =
     (case (f_settings f, f_reservations f) of
        (Some keys, Some held) \<Rightarrow>
          (if fetch_one (\<lambda>s. set_key s = PINNED_FLAG) keys \<noteq> None then f
           else let free = free_rows held rs in
             f\<lparr>f_reservations := Some (held @ map (\<lambda>(i, r). migrated_hold now r i) (enumerate (Suc (f_res_seq f)) free)),
               f_res_seq := f_res_seq f + length free,
               f_settings := Some (keys @ [\<lparr>set_key = PINNED_FLAG, set_value = stamp, updated_at = now\<rparr>])\<rparr>)
      | _ \<Rightarrow> f)"

section \<open>Opening\<close>

definition rename_events :: "boot_event table \<Rightarrow> boot_event table" where
  "rename_events es = delete_where (\<lambda>e. ev_state e = ''user_logged_in'')
     (update_where (\<lambda>e. ev_state e = ''login_ready'') (\<lambda>e. e\<lparr>ev_state := ''login_console''\<rparr>) es)"

definition migrate_machines :: "sql_table \<Rightarrow> sql_table" where
  "migrate_machines t = add_hardware_spec_column_if_missing (add_columns machine_migrations t)"

definition open_registry :: "timestamp \<Rightarrow> string \<Rightarrow> db_file \<Rightarrow> db_file" where
  "open_registry now stamp f0 =
     (let f = create_schema f0;
          f = f\<lparr>f_machines := map_option migrate_machines (f_machines f),
                f_rules := map_option (add_column ''scratch_mode'' (Text ''volatile'')) (f_rules f)\<rparr>;
          f = pin_existing_machines_once now stamp (case f_machines f of None \<Rightarrow> [] | Some t \<Rightarrow> rows t) f
      in f\<lparr>f_events := map_option rename_events (f_events f)\<rparr>)"

section \<open>What opening does\<close>

lemma add_column_columns: "set (columns (add_column c v t)) = insert c (set (columns t))"
  by (auto simp: add_column_def)

lemma add_columns_columns: "set (columns (add_columns cs t)) = set (columns t) \<union> fst ` set cs"
  by (induction cs arbitrary: t) (auto simp: add_columns_def add_column_columns)

lemma add_column_keeps: "list_all2 (\<lambda>r r'. \<forall>c \<in> set (columns t). r' c = r c) (rows t) (rows (add_column k v t))"
  by (auto simp: add_column_def list_all2_conv_all_nth)

lemma add_columns_keeps: "list_all2 (\<lambda>r r'. \<forall>c \<in> set (columns t). r' c = r c) (rows t) (rows (add_columns cs t))"
proof (induction cs arbitrary: t)
  case (Cons e cs)
  obtain k v where e: "e = (k, v)" by force
  have "list_all2 (\<lambda>r r'. \<forall>c \<in> set (columns t). r' c = r c) (rows (add_column k v t)) (rows (add_columns cs (add_column k v t)))"
    using Cons.IH [of "add_column k v t"] by (rule list_all2_mono) (simp add: add_column_columns)
  from list_all2_trans [OF _ add_column_keeps this] show ?case by (simp add: add_columns_def e)
qed (simp add: add_columns_def list_all2_conv_all_nth)

lemma add_column_present: "c \<in> set (columns t) \<Longrightarrow> add_column c v t = t"
  by (simp add: add_column_def)

lemma add_columns_present: "fst ` set cs \<subseteq> set (columns t) \<Longrightarrow> add_columns cs t = t"
  by (induction cs) (auto simp: add_columns_def add_column_present)

lemma backfilled_keeps: "c \<noteq> ''hardware_spec'' \<Longrightarrow> backfilled r c = r c"
  by (simp add: backfilled_def Let_def split: sql_value.split)

lemma migrate_machines_columns: "set (columns (migrate_machines t)) = set (columns t) \<union> insert ''hardware_spec'' (fst ` set machine_migrations)"
  by (auto simp: migrate_machines_def add_hardware_spec_column_if_missing_def add_columns_columns add_column_columns Let_def)

lemma migrate_machines_keeps:
  "list_all2 (\<lambda>r r'. \<forall>c \<in> set (columns t). r' c = r c) (rows t) (rows (migrate_machines t))"
proof (cases "''hardware_spec'' \<in> set (columns (add_columns machine_migrations t))")
  case True
  then show ?thesis using add_columns_keeps [of t machine_migrations] by (simp add: migrate_machines_def add_hardware_spec_column_if_missing_def)
next
  case False
  let ?t = "add_columns machine_migrations t"
  from False have new: "''hardware_spec'' \<notin> set (columns t)" by (simp add: add_columns_columns)
  have "rows (migrate_machines t) = map (\<lambda>r. backfilled (r(''hardware_spec'' := Null))) (rows ?t)"
    using False by (simp add: migrate_machines_def add_hardware_spec_column_if_missing_def add_column_def Let_def)
  moreover have "backfilled (r(''hardware_spec'' := Null)) c = r c" if "c \<in> set (columns t)" for r c
  proof -
    have "c \<noteq> ''hardware_spec''" using that new by blast
    then show ?thesis by (simp add: backfilled_keeps)
  qed
  ultimately show ?thesis
    using add_columns_keeps [of t machine_migrations] by (simp add: list_all2_conv_all_nth)
qed

lemma migrate_machines_idem: "migrate_machines (migrate_machines t) = migrate_machines t"
proof -
  have "add_columns machine_migrations (migrate_machines t) = migrate_machines t"
    by (rule add_columns_present) (auto simp: migrate_machines_columns)
  then show ?thesis
    using migrate_machines_columns [of t] by (simp add: migrate_machines_def [of "migrate_machines t"] add_hardware_spec_column_if_missing_def)
qed

lemma rename_events_idem: "rename_events (rename_events es) = rename_events es"
  by (induction es) (auto simp: rename_events_def update_where_def delete_where_def)

definition machines0 :: "db_file \<Rightarrow> sql_table" where
  "machines0 f = table_or \<lparr>columns = MACHINE_COLUMNS, rows = []\<rparr> (f_machines f)"

definition held0 :: "db_file \<Rightarrow> reservation table" where
  "held0 f = table_or [] (f_reservations f)"

definition flagged :: "db_file \<Rightarrow> bool" where
  "flagged f \<longleftrightarrow> fetch_one (\<lambda>s. set_key s = PINNED_FLAG) (table_or [] (f_settings f)) \<noteq> None"

definition pins :: "timestamp \<Rightarrow> db_file \<Rightarrow> reservation table" where
  "pins now f = map (\<lambda>(i, r). migrated_hold now r i)
     (enumerate (Suc (f_res_seq f)) (free_rows (held0 f) (rows (migrate_machines (machines0 f)))))"

lemma opened:
  "open_registry now stamp f = f\<lparr>
     f_machines := Some (migrate_machines (machines0 f)),
     f_rules := Some (add_column ''scratch_mode'' (Text ''volatile'') (table_or \<lparr>columns = RULE_COLUMNS, rows = []\<rparr> (f_rules f))),
     f_events := Some (rename_events (table_or [] (f_events f))),
     f_settings := Some (table_or [] (f_settings f)
       @ (if flagged f then [] else [\<lparr>set_key = PINNED_FLAG, set_value = stamp, updated_at = now\<rparr>])),
     f_reservations := Some (held0 f @ (if flagged f then [] else pins now f)),
     f_res_seq := f_res_seq f + (if flagged f then 0 else length (pins now f))\<rparr>"
  by (cases "flagged f")
    (simp_all add: open_registry_def create_schema_def or_create_def pin_existing_machines_once_def machines0_def held0_def
      flagged_def pins_def Let_def)

lemma fetch_appended: "fetch_one P (t @ [x]) = None \<longleftrightarrow> fetch_one P t = None \<and> \<not> P x"
  by (induction t) (auto simp: fetch_one_def)

lemma opened_flagged: "flagged (open_registry now stamp f)"
proof -
  have "f_settings (open_registry now stamp f) = Some (table_or [] (f_settings f)
      @ (if flagged f then [] else [\<lparr>set_key = PINNED_FLAG, set_value = stamp, updated_at = now\<rparr>]))"
    by (simp add: opened)
  then show ?thesis by (cases "flagged f") (simp_all add: flagged_def fetch_appended)
qed

lemma opening_twice: "open_registry now' stamp' (open_registry now stamp f) = open_registry now stamp f"
proof -
  define g where "g = open_registry now stamp f"
  have g: "f_machines g = Some (migrate_machines (machines0 f))" "f_events g = Some (rename_events (table_or [] (f_events f)))"
    "f_rules g = Some (add_column ''scratch_mode'' (Text ''volatile'') (table_or \<lparr>columns = RULE_COLUMNS, rows = []\<rparr> (f_rules f)))"
    "\<exists>keys held. f_settings g = Some keys \<and> f_reservations g = Some held"
    unfolding g_def opened by simp_all
  have flag: "flagged g" unfolding g_def by (rule opened_flagged)
  from g have "open_registry now' stamp' g = g"
    by (auto simp: opened [of now' stamp' g] flag machines0_def [of g] held0_def [of g] migrate_machines_idem rename_events_idem
        add_column_present add_column_columns)
  then show ?thesis unfolding g_def .
qed

section \<open>Who is pinned\<close>

definition mac_of :: "sql_row \<Rightarrow> string" where
  "mac_of r = text_of_value (r ''mac'')"

definition good_file :: "db_file \<Rightarrow> bool" where
  \<comment> \<open>the columns of the first schema, one row for a MAC, and the unique index of the reservations\<close>
  "good_file f \<longleftrightarrow> {''mac'', ''profile_name'', ''architecture'', ''platform'', ''created_at''} \<subseteq> set (columns (machines0 f))
     \<and> distinct (map mac_of (rows (machines0 f))) \<and> one_unreleased (held0 f)"

lemma migrated_macs:
  assumes "''mac'' \<in> set (columns t)"
  shows "map mac_of (rows (migrate_machines t)) = map mac_of (rows t)"
  using migrate_machines_keeps [of t] assms by (auto simp: list_all2_conv_all_nth mac_of_def intro!: nth_equalityI)

lemma pins_facts:
  "map res_mac (pins now f) = map mac_of (free_rows (held0 f) (rows (migrate_machines (machines0 f))))"
  "\<forall>h \<in> set (pins now f). unreleased h \<and> lease_kind h = Permanent \<and> (\<exists>r \<in> set (rows (migrate_machines (machines0 f))).
     res_mac h = mac_of r \<and> holder h = text_of_value (r ''enrolled_by'') \<and> res_profile h = Some (text_of_value (r ''profile_name'')))"
proof -
  have "map res_mac (map (\<lambda>(i, r). migrated_hold now r i) (enumerate n rs)) = map mac_of rs" for n rs
    by (induction rs arbitrary: n) (simp_all add: migrated_hold_def mac_of_def)
  then show "map res_mac (pins now f) = map mac_of (free_rows (held0 f) (rows (migrate_machines (machines0 f))))"
    by (simp add: pins_def)
  show "\<forall>h \<in> set (pins now f). unreleased h \<and> lease_kind h = Permanent \<and> (\<exists>r \<in> set (rows (migrate_machines (machines0 f))).
     res_mac h = mac_of r \<and> holder h = text_of_value (r ''enrolled_by'') \<and> res_profile h = Some (text_of_value (r ''profile_name'')))"
  proof -
    have "r \<in> set (rows (migrate_machines (machines0 f)))" if "(i, r) \<in> set (enumerate n (free_rows (held0 f) (rows (migrate_machines (machines0 f)))))" for i r n
      using that by (auto simp: free_rows_def enumerate_eq_zip dest!: set_zip_rightD)
    then show ?thesis by (auto simp: pins_def migrated_hold_def mac_of_def unreleased_def)
  qed
qed

lemma pinned_one_unreleased:
  assumes "good_file f"
  shows "one_unreleased (held0 f @ pins now f)"
proof -
  let ?free = "free_rows (held0 f) (rows (migrate_machines (machines0 f)))"
  have "distinct (map mac_of (rows (migrate_machines (machines0 f))))"
    using assms migrated_macs [of "machines0 f"] by (simp add: good_file_def)
  then have "distinct (map mac_of ?free)" unfolding free_rows_def by (rule distinct_map_filter)
  moreover have "filter unreleased (pins now f) = pins now f"
    using pins_facts(2) [of now f] by (simp add: filter_id_conv)
  moreover have "res_mac ` set (filter unreleased (held0 f)) \<inter> mac_of ` set ?free = {}"
    by (auto simp: free_rows_def unreleased_def mac_of_def)
  ultimately show ?thesis
    using assms by (simp add: one_unreleased_def good_file_def pins_facts(1) del: set_filter)
qed


definition old_file :: db_file where
  \<comment> \<open>from before serial consoles, reservations and settings: one machine\<close>
  "old_file = \<lparr>f_machines = Some \<lparr>columns = [''mac'', ''profile_name'', ''architecture'', ''platform'', ''created_at''],
       rows = [\<lambda>c. if c = ''mac'' then Text ''aa'' else if c = ''profile_name'' then Text ''desktop'' else Null]\<rparr>,
     f_rules = None, f_events = None, f_settings = None, f_reservations = None, f_res_seq = 0\<rparr>"


end
