(* ===== verification/Tool_Schemas.thy ===== *)
theory Tool_Schemas
  imports Mcp
begin

text \<open>
  The argument schemas that \<open>tools/list\<close> advertises (\<open>inputSchema\<close> of \<open>_tool_catalogue\<close> in
  \<open>src/fleetboot/server/mcp.py\<close>), and how they agree with the checks the tools make. Every schema is an object of
  typed properties with \<open>additionalProperties: false\<close>; \<open>conforms\<close> is what such a schema says of an
  arguments object. The prose (\<open>description\<close>) is left out. An integer is a number that is written as one, as
  \<open>json.loads\<close> tells them apart.
\<close>

section \<open>Schemas\<close>

datatype json_type = J_String | J_Integer | J_Number | J_Boolean | J_Strings   \<comment> \<open>the last: an array of strings\<close>

record param_schema =
  pm_type :: json_type
  pm_enum :: "string list option"
  pm_minimum :: "int option"
  pm_maximum :: "int option"
  pm_default :: "json option"

record tool_schema =
  sc_properties :: "(string \<times> param_schema) list"
  sc_required :: "string list"

definition typed :: "json_type \<Rightarrow> param_schema" where
  "typed t = \<lparr>pm_type = t, pm_enum = None, pm_minimum = None, pm_maximum = None, pm_default = None\<rparr>"

definition one_of :: "string list \<Rightarrow> param_schema" where
  "one_of xs = (typed J_String)\<lparr>pm_enum := Some xs\<rparr>"

definition strings_schema :: "string list \<Rightarrow> tool_schema" where
  \<comment> \<open>all strings, all required\<close>
  "strings_schema ks = \<lparr>sc_properties = map (\<lambda>k. (k, typed J_String)) ks, sc_required = ks\<rparr>"

definition describe_fleetboot_schema :: tool_schema where
  "describe_fleetboot_schema = \<lparr>sc_properties = [(''topic'', (one_of topic_names)\<lparr>pm_default := Some (JStr DEFAULT_TOPIC)\<rparr>)],
     sc_required = []\<rparr>"

definition enrol_machine_schema :: tool_schema where
  "enrol_machine_schema = \<lparr>sc_properties =
     [(''mac'', typed J_String), (''profile_name'', typed J_String),
      (''architecture'', (typed J_String)\<lparr>pm_default := Some (JStr ''x86_64'')\<rparr>),
      (''platform'', (one_of [''efi'', ''pc''])\<lparr>pm_default := Some (JStr ''efi'')\<rparr>),
      (''serial_console'', (typed J_Boolean)\<lparr>pm_default := Some (JBool False)\<rparr>),
      (''scratch_mode'', (one_of [''volatile'', ''persistent'', ''off''])\<lparr>pm_default := Some (JStr ''volatile'')\<rparr>)],
     sc_required = [''mac'', ''profile_name'']\<rparr>"

definition reboot_machine_schema :: tool_schema where
  "reboot_machine_schema = \<lparr>sc_properties = [(''mac'', typed J_String),
     (''delete_after'', (typed J_Boolean)\<lparr>pm_default := Some (JBool False)\<rparr>)], sc_required = [''mac'']\<rparr>"

definition power_machine_schema :: tool_schema where
  "power_machine_schema = \<lparr>sc_properties = [(''mac'', typed J_String), (''action'', one_of POWER_ACTIONS)],
     sc_required = [''mac'', ''action'']\<rparr>"

definition power_fleet_schema :: tool_schema where
  "power_fleet_schema = \<lparr>sc_properties =
     [(''action'', one_of POWER_ACTIONS), (''profile'', typed J_String), (''architecture'', typed J_String),
      (''count'', (typed J_Integer)\<lparr>pm_minimum := Some 1\<rparr>)],
     sc_required = [''action'', ''profile'']\<rparr>"

definition reserve_machines_schema :: tool_schema where
  "reserve_machines_schema = \<lparr>sc_properties =
     [(''profile'', typed J_String), (''count'', (typed J_Integer)\<lparr>pm_minimum := Some 1\<rparr>), (''holder'', typed J_String),
      (''purpose'', typed J_String), (''architecture'', typed J_String), (''ttl_minutes'', typed J_Number)],
     sc_required = [''profile'', ''count'']\<rparr>"

definition release_machines_schema :: tool_schema where
  "release_machines_schema = \<lparr>sc_properties = [(''macs'', typed J_Strings), (''holder'', typed J_String)], sc_required = []\<rparr>"

definition renew_reservation_schema :: tool_schema where
  "renew_reservation_schema = \<lparr>sc_properties = [(''mac'', typed J_String), (''ttl_minutes'', typed J_Number)],
     sc_required = [''mac'']\<rparr>"

definition pin_machine_schema :: tool_schema where
  "pin_machine_schema = \<lparr>sc_properties = [(''mac'', typed J_String), (''holder'', typed J_String), (''profile'', typed J_String),
     (''purpose'', typed J_String)], sc_required = [''mac'']\<rparr>"

definition set_power_command_schema :: tool_schema where
  "set_power_command_schema = \<lparr>sc_properties = [(''mac'', typed J_String), (''action'', one_of POWER_ACTIONS),
     (''command'', typed J_String)], sc_required = [''mac'', ''action'', ''command'']\<rparr>"

definition set_pending_reboot_schema :: tool_schema where
  "set_pending_reboot_schema = \<lparr>sc_properties = [(''mac'', typed J_String), (''armed'', typed J_Boolean)],
     sc_required = [''mac'', ''armed'']\<rparr>"

definition save_profile_schema :: tool_schema where
  "save_profile_schema = \<lparr>sc_properties = [(''name'', typed J_String), (''extra_packages'', typed J_String),
     (''setup_chroot'', typed J_String), (''readme'', typed J_String), (''parents'', typed J_Strings), (''suite'', typed J_String)],
     sc_required = [''name'']\<rparr>"

definition start_build_schema :: tool_schema where
  "start_build_schema = \<lparr>sc_properties = [(''profile'', typed J_String),
     (''architecture'', (typed J_String)\<lparr>pm_default := Some (JStr ''amd64'')\<rparr>),
     (''auto_reboot'', (typed J_Boolean)\<lparr>pm_default := Some (JBool False)\<rparr>)], sc_required = [''profile'']\<rparr>"

definition get_build_schema :: tool_schema where
  "get_build_schema = \<lparr>sc_properties = [(''job_id'', typed J_String),
     (''log_tail'', (typed J_Integer)\<lparr>pm_minimum := Some 0, pm_default := Some (JInt 200)\<rparr>)], sc_required = [''job_id'']\<rparr>"

definition recent_events_schema :: tool_schema where
  "recent_events_schema = \<lparr>sc_properties = [(''mac'', typed J_String),
     (''limit'', (typed J_Integer)\<lparr>pm_minimum := Some 1, pm_maximum := Some 1000, pm_default := Some (JInt 200)\<rparr>)],
     sc_required = []\<rparr>"

definition report_bug_schema :: tool_schema where
  "report_bug_schema = \<lparr>sc_properties = [(''title'', typed J_String), (''description'', typed J_String),
     (''severity'', (one_of SEVERITIES)\<lparr>pm_default := Some (JStr DEFAULT_SEVERITY)\<rparr>), (''component'', typed J_String),
     (''reporter'', typed J_String)], sc_required = [''title'', ''description'']\<rparr>"

definition list_bug_reports_schema :: tool_schema where
  "list_bug_reports_schema = \<lparr>sc_properties = [(''status'', (one_of [''open'', ''resolved''])\<lparr>pm_default := Some (JStr ''open'')\<rparr>)],
     sc_required = []\<rparr>"

definition list_machines_schema :: tool_schema where
  [simp]: "list_machines_schema = strings_schema []"

definition get_machine_schema :: tool_schema where
  [simp]: "get_machine_schema = strings_schema [''mac'']"

definition set_machine_profile_schema :: tool_schema where
  [simp]: "set_machine_profile_schema = strings_schema [''mac'', ''profile_name'']"

definition delete_machine_schema :: tool_schema where
  [simp]: "delete_machine_schema = strings_schema [''mac'']"

definition release_to_pool_schema :: tool_schema where
  [simp]: "release_to_pool_schema = strings_schema [''mac'']"

definition set_pdu_alias_schema :: tool_schema where
  [simp]: "set_pdu_alias_schema = strings_schema [''mac'', ''alias'']"

definition set_reboot_command_schema :: tool_schema where
  [simp]: "set_reboot_command_schema = strings_schema [''mac'', ''command'']"

definition list_profiles_schema :: tool_schema where
  [simp]: "list_profiles_schema = strings_schema []"

definition get_profile_schema :: tool_schema where
  [simp]: "get_profile_schema = strings_schema [''name'']"

definition write_profile_overlay_schema :: tool_schema where
  [simp]: "write_profile_overlay_schema = strings_schema [''name'', ''relpath'', ''content'']"

definition list_builds_schema :: tool_schema where
  [simp]: "list_builds_schema = strings_schema []"

definition get_bug_report_schema :: tool_schema where
  [simp]: "get_bug_report_schema = strings_schema [''id'']"

definition resolve_bug_report_schema :: tool_schema where
  [simp]: "resolve_bug_report_schema = strings_schema [''id'', ''resolution'']"

definition tool_schemas :: "(string \<times> tool_schema) list" where
  "tool_schemas =
     [(''describe_fleetboot'', describe_fleetboot_schema), (''list_machines'', list_machines_schema),
      (''get_machine'', get_machine_schema), (''enrol_machine'', enrol_machine_schema),
      (''set_machine_profile'', set_machine_profile_schema), (''delete_machine'', delete_machine_schema),
      (''reboot_machine'', reboot_machine_schema), (''power_machine'', power_machine_schema),
      (''power_fleet'', power_fleet_schema), (''reserve_machines'', reserve_machines_schema),
      (''release_machines'', release_machines_schema), (''renew_reservation'', renew_reservation_schema),
      (''pin_machine'', pin_machine_schema), (''release_to_pool'', release_to_pool_schema),
      (''set_power_command'', set_power_command_schema), (''set_pdu_alias'', set_pdu_alias_schema),
      (''set_pending_reboot'', set_pending_reboot_schema), (''set_reboot_command'', set_reboot_command_schema),
      (''list_profiles'', list_profiles_schema), (''get_profile'', get_profile_schema), (''save_profile'', save_profile_schema),
      (''write_profile_overlay'', write_profile_overlay_schema), (''start_build'', start_build_schema),
      (''list_builds'', list_builds_schema), (''get_build'', get_build_schema), (''recent_events'', recent_events_schema),
      (''report_bug'', report_bug_schema), (''list_bug_reports'', list_bug_reports_schema),
      (''get_bug_report'', get_bug_report_schema), (''resolve_bug_report'', resolve_bug_report_schema)]"

section \<open>What a schema says of arguments\<close>

definition has_type :: "json_type \<Rightarrow> json \<Rightarrow> bool" where
  "has_type t v = (case t of
     J_String \<Rightarrow> (case v of JStr s \<Rightarrow> True | _ \<Rightarrow> False)
   | J_Integer \<Rightarrow> (case v of JInt i \<Rightarrow> True | _ \<Rightarrow> False)
   | J_Number \<Rightarrow> (case v of JInt i \<Rightarrow> True | JFloat r \<Rightarrow> True | _ \<Rightarrow> False)
   | J_Boolean \<Rightarrow> (case v of JBool b \<Rightarrow> True | _ \<Rightarrow> False)
   | J_Strings \<Rightarrow> (case v of JList xs \<Rightarrow> List.list_all (\<lambda>x. case x of JStr s \<Rightarrow> True | _ \<Rightarrow> False) xs | _ \<Rightarrow> False))"

definition fits :: "param_schema \<Rightarrow> json \<Rightarrow> bool" where
  "fits p v \<longleftrightarrow> has_type (pm_type p) v
     \<and> (case pm_enum p of None \<Rightarrow> True | Some xs \<Rightarrow> v \<in> set (map JStr xs))
     \<and> (case (pm_minimum p, v) of (Some n, JInt i) \<Rightarrow> n \<le> i | _ \<Rightarrow> True)
     \<and> (case (pm_maximum p, v) of (Some n, JInt i) \<Rightarrow> i \<le> n | _ \<Rightarrow> True)"

definition given_as :: "tool_schema \<Rightarrow> json pydict \<Rightarrow> string \<Rightarrow> bool" where
  \<comment> \<open>the argument is there and fits its property\<close>
  "given_as s args k = (case (dict_get args k, dict_get (sc_properties s) k) of (Some v, Some p) \<Rightarrow> fits p v | _ \<Rightarrow> False)"

definition conforms :: "tool_schema \<Rightarrow> json pydict \<Rightarrow> bool" where
  "conforms s args \<longleftrightarrow> List.list_all (\<lambda>(k, v). given_as s args k) args \<and> List.list_all (given_as s args) (sc_required s)"

section \<open>What the tools say of arguments\<close>

definition complains :: "string \<Rightarrow> tool_error \<Rightarrow> bool" where
  \<comment> \<open>the error is about this argument missing or being of the wrong kind\<close>
  "complains k e = (case e of
     ToolError text \<Rightarrow> text = ''missing argument: '' @ k \<or> startswith text (''argument '' @ k @ '' must be '')
       \<or> startswith text (k @ '' must be '')
   | Uncaught \<Rightarrow> False)"

definition ARGUMENTS :: "string list" where
  "ARGUMENTS = concat (map (\<lambda>(n, s). map fst (sc_properties s)) tool_schemas)"

definition refuses :: "string list \<Rightarrow> world \<Rightarrow> (tool_error + 'a) \<times> world \<Rightarrow> bool" where
  \<comment> \<open>one of the arguments is complained about, and nothing has happened\<close>
  "refuses ks w r \<longleftrightarrow> (\<exists>e. fst r = Inl e \<and> (\<exists>k \<in> set ks. complains k e)) \<and> snd r = w"

definition blameless :: "tool_error \<Rightarrow> bool" where
  "blameless e \<longleftrightarrow> (\<forall>k \<in> set ARGUMENTS. \<not> complains k e)"

definition kind_problem :: "string \<Rightarrow> json pydict \<Rightarrow> string \<Rightarrow> tool_error" where
  "kind_problem kind args k = (if dict_get args k = None then missing_argument k else wrong_kind k kind)"

definition str_given :: "json pydict \<Rightarrow> string \<Rightarrow> bool" where
  "str_given args k \<longleftrightarrow> (\<exists>s. dict_get args k = Some (JStr s))"

lemma require_str_split:
  "P (require_str args k) \<longleftrightarrow> (\<forall>s. dict_get args k = Some (JStr s) \<longrightarrow> P (Inr s)) \<and> (\<not> str_given args k \<longrightarrow> P (Inl (kind_problem ''str'' args k)))"
  by (auto simp: require_str_def kind_problem_def str_given_def split: option.split json.split)

lemma require_bool_split:
  "P (require_bool args k) \<longleftrightarrow> (\<forall>b. dict_get args k = Some (JBool b) \<longrightarrow> P (Inr b))
     \<and> ((\<nexists>b. dict_get args k = Some (JBool b)) \<longrightarrow> P (Inl (kind_problem ''bool'' args k)))"
  by (auto simp: require_bool_def kind_problem_def split: option.split json.split)

lemma bad_action_complaint [simp]: "complains ''action'' bad_action"
  by (simp add: complains_def bad_action_def startswith_def)

lemma startswith_self [simp]: "startswith (p @ s) p"
  by (simp add: startswith_def)

lemma complaints [simp, intro]:
  "complains k (kind_problem kind args k)" "complains k (missing_argument k)" "complains k (wrong_kind k kind)"
  by (auto simp: complains_def kind_problem_def missing_argument_def wrong_kind_def startswith_def)

lemmas schema_defs = strings_schema_def describe_fleetboot_schema_def enrol_machine_schema_def reboot_machine_schema_def power_machine_schema_def
  power_fleet_schema_def reserve_machines_schema_def release_machines_schema_def renew_reservation_schema_def
  pin_machine_schema_def set_power_command_schema_def set_pending_reboot_schema_def save_profile_schema_def
  start_build_schema_def get_build_schema_def recent_events_schema_def report_bug_schema_def
  list_bug_reports_schema_def

lemma ARGUMENTS_names: "set ARGUMENTS =
    {''topic'', ''mac'', ''profile_name'', ''architecture'', ''platform'', ''serial_console'', ''scratch_mode'',
     ''delete_after'', ''action'', ''profile'', ''count'', ''holder'', ''purpose'', ''ttl_minutes'', ''macs'',
     ''command'', ''armed'', ''name'', ''extra_packages'', ''setup_chroot'', ''readme'', ''parents'', ''suite'',
     ''auto_reboot'', ''job_id'', ''log_tail'', ''limit'', ''title'', ''description'', ''severity'', ''component'',
     ''reporter'', ''status'', ''alias'', ''relpath'', ''content'', ''id'', ''resolution''}"
  by (simp add: ARGUMENTS_def tool_schemas_def schema_defs insert_commute)


section \<open>Required arguments\<close>

lemma fits_default [simp]: "fits (p\<lparr>pm_default := d\<rparr>) v = fits p v"
  by (simp add: fits_def)

lemma fits_typed [simp]:
  "fits (typed J_String) v \<longleftrightarrow> (\<exists>s. v = JStr s)"
  "fits (typed J_Boolean) v \<longleftrightarrow> (\<exists>b. v = JBool b)"
  "fits (typed J_Number) v \<longleftrightarrow> (\<exists>i. v = JInt i) \<or> (\<exists>r. v = JFloat r)"
  "fits (one_of xs) v \<longleftrightarrow> (\<exists>x \<in> set xs. v = JStr x)"
  "fits ((typed J_Integer)\<lparr>pm_minimum := Some n\<rparr>) v \<longleftrightarrow> (\<exists>i \<ge> n. v = JInt i)"
  "fits ((typed J_Integer)\<lparr>pm_minimum := Some n, pm_maximum := Some n'\<rparr>) v \<longleftrightarrow> (\<exists>i \<ge> n. i \<le> n' \<and> v = JInt i)"
  by (auto simp: fits_def typed_def one_of_def has_type_def split: json.split)

lemma fits_strings: "fits (typed J_Strings) v \<longleftrightarrow> (\<exists>ss. v = JList (map JStr ss))"
proof
  assume "fits (typed J_Strings) v"
  then obtain xs where v: "v = JList xs" and "List.list_all (\<lambda>x. case x of JStr s \<Rightarrow> True | _ \<Rightarrow> False) xs"
    by (auto simp: fits_def typed_def has_type_def split: json.splits)
  moreover have "\<exists>s. x = JStr s" if "case x of JStr s \<Rightarrow> True | _ \<Rightarrow> False" for x
    using that by (cases x) simp_all
  ultimately have "\<forall>x \<in> set xs. \<exists>s. x = JStr s" by (auto simp: list_all_iff)
  then have "xs = map JStr (map (\<lambda>x. case x of JStr s \<Rightarrow> s | _ \<Rightarrow> []) xs)"
    by (induction xs) auto
  with v show "\<exists>ss. v = JList (map JStr ss)" by blast
qed (auto simp: fits_def typed_def has_type_def list_all_iff)

lemma given_as_iff: "given_as s args k \<longleftrightarrow> (\<exists>v p. dict_get args k = Some v \<and> dict_get (sc_properties s) k = Some p \<and> fits p v)"
  by (simp add: given_as_def split: option.split)

lemma strings_given: "k \<in> set ks \<Longrightarrow> given_as (strings_schema ks) args k \<longleftrightarrow> str_given args k"
  by (auto simp: given_as_iff strings_schema_def map_of_map_restrict o_def str_given_def)

definition unmet :: "tool_schema \<Rightarrow> json pydict \<Rightarrow> bool" where
  "unmet s args \<longleftrightarrow> \<not> List.list_all (given_as s args) (sc_required s)"

lemma unmet_strings: "unmet (strings_schema ks) args \<longleftrightarrow> (\<exists>k \<in> set ks. \<not> str_given args k)"
proof -
  have "sc_required (strings_schema ks) = ks" by (simp add: strings_schema_def)
  then show ?thesis by (auto simp: unmet_def list_all_iff strings_given simp del: not_all)
qed

named_theorems refusals \<open>a tool without one of its required arguments\<close>

lemma strings_refusals [refusals]:
  "unmet (strings_schema [''mac'']) args \<Longrightarrow> refuses [''mac''] w (reading (get_machine_tool q) args w)"
  "unmet (strings_schema [''mac'', ''profile_name'']) args \<Longrightarrow> refuses [''mac'', ''profile_name''] w (set_machine_profile_tool q dp args w)"
  "unmet (strings_schema [''mac'']) args \<Longrightarrow> refuses [''mac''] w (delete_machine_tool args w)"
  "unmet (strings_schema [''mac'']) args \<Longrightarrow> refuses [''mac''] w (release_to_pool_tool q args w)"
  "unmet (strings_schema [''mac'', ''alias'']) args \<Longrightarrow> refuses [''mac'', ''alias''] w (set_pdu_alias_tool args w)"
  "unmet (strings_schema [''mac'', ''command'']) args \<Longrightarrow> refuses [''mac'', ''command''] w (set_reboot_command_tool args w)"
  "unmet (strings_schema [''name'']) args \<Longrightarrow> refuses [''name''] w (reading (get_profile_tool dp) args w)"
  "unmet (strings_schema [''name'', ''relpath'', ''content'']) args \<Longrightarrow> refuses [''name'', ''relpath'', ''content''] w (write_overlay_tool dp args w)"
  "unmet (strings_schema [''id'']) args \<Longrightarrow> refuses [''id''] w (reading get_bug_report_tool args w)"
  "unmet (strings_schema [''id'', ''resolution'']) args \<Longrightarrow> refuses [''id'', ''resolution''] w (resolve_bug_report_tool q args w)"
  by (auto simp: unmet_strings str_given_def refuses_def reading_def bind_def get_machine_tool_def set_machine_profile_tool_def
      delete_machine_tool_def release_to_pool_tool_def set_pdu_alias_tool_def set_reboot_command_tool_def get_profile_tool_def
      write_overlay_tool_def get_bug_report_tool_def resolve_bug_report_tool_def split: require_str_split)

lemma machine_refusals [refusals]:
  "unmet enrol_machine_schema args \<Longrightarrow> refuses [''mac'', ''profile_name''] w (enrol_machine_tool q dp args w)"
  "unmet reboot_machine_schema args \<Longrightarrow> refuses [''mac''] w (reboot_tool dp args w)"
  "unmet power_machine_schema args \<Longrightarrow> refuses [''mac'', ''action''] w (power_tool dp args w)"
  "unmet power_fleet_schema args \<Longrightarrow> refuses [''action'', ''profile''] w (power_fleet_tool q dp args w)"
  "unmet set_power_command_schema args \<Longrightarrow> refuses [''mac'', ''action'', ''command''] w (set_power_command_tool args w)"
  "unmet set_pending_reboot_schema args \<Longrightarrow> refuses [''mac'', ''armed''] w (set_pending_reboot_tool args w)"
  by (auto simp: unmet_def schema_defs given_as_iff str_given_def refuses_def bind_def enrol_machine_tool_def reboot_tool_def
      power_tool_def power_fleet_tool_def set_power_command_tool_def set_pending_reboot_tool_def bad_action_complaint split: require_str_split require_bool_split)

lemma count_argument_cases:
  obtains i where "dict_get args ''count'' = Some (JInt i)" "1 \<le> i" "count_argument args = Inr i"
  | e where "\<nexists>i. dict_get args ''count'' = Some (JInt i) \<and> 1 \<le> i" "count_argument args = Inl e" "complains ''count'' e"
proof (cases "\<exists>i. dict_get args ''count'' = Some (JInt i) \<and> 1 \<le> i")
  case True
  then obtain i where "dict_get args ''count'' = Some (JInt i)" "1 \<le> i" by blast
  then show ?thesis using that(1) by (simp add: count_argument_def require_int_def)
next
  case False
  then have "\<exists>e. count_argument args = Inl e \<and> complains ''count'' e"
    by (auto simp: count_argument_def require_int_def complains_def missing_argument_def wrong_kind_def startswith_def
        split: option.split json.split)
  with False that(2) show ?thesis by blast
qed

lemma pool_refusals [refusals]:
  "unmet reserve_machines_schema args \<Longrightarrow> refuses [''profile'', ''count''] w (reserve_machines_tool q dp args w)"
  "unmet renew_reservation_schema args \<Longrightarrow> refuses [''mac''] w (renew_reservation_tool q args w)"
  "unmet pin_machine_schema args \<Longrightarrow> refuses [''mac''] w (pin_machine_tool q dp args w)"
  subgoal by (cases args rule: count_argument_cases)
    (auto simp: unmet_def schema_defs given_as_iff str_given_def refuses_def bind_def reserve_machines_tool_def split: require_str_split)
  by (auto simp: unmet_def schema_defs given_as_iff str_given_def refuses_def bind_def renew_reservation_tool_def pin_machine_tool_def
      split: require_str_split)

lemma file_refusals [refusals]:
  "unmet save_profile_schema args \<Longrightarrow> refuses [''name''] w (save_profile_tool dp args w)"
  "unmet start_build_schema args \<Longrightarrow> refuses [''profile''] w (start_build_tool q dp args w)"
  "unmet get_build_schema args \<Longrightarrow> refuses [''job_id''] w (reading get_build_tool args w)"
  "unmet report_bug_schema args \<Longrightarrow> refuses [''title'', ''description''] w (report_bug_tool q caller args w)"
  by (auto simp: unmet_def schema_defs given_as_iff str_given_def refuses_def bind_def reading_def save_profile_tool_def start_build_tool_def
      get_build_tool_def report_bug_tool_def split: require_str_split)

lemma required_arguments [simp]:
  "sc_required (strings_schema ks) = ks"
  "sc_required enrol_machine_schema = [''mac'', ''profile_name'']"
  "sc_required reboot_machine_schema = [''mac'']"
  "sc_required power_machine_schema = [''mac'', ''action'']"
  "sc_required power_fleet_schema = [''action'', ''profile'']"
  "sc_required reserve_machines_schema = [''profile'', ''count'']"
  "sc_required renew_reservation_schema = [''mac'']"
  "sc_required pin_machine_schema = [''mac'']"
  "sc_required set_power_command_schema = [''mac'', ''action'', ''command'']"
  "sc_required set_pending_reboot_schema = [''mac'', ''armed'']"
  "sc_required save_profile_schema = [''name'']"
  "sc_required start_build_schema = [''profile'']"
  "sc_required get_build_schema = [''job_id'']"
  "sc_required report_bug_schema = [''title'', ''description'']"
  by (simp_all add: schema_defs)

lemma no_required_arguments [simp]:
  "\<not> unmet describe_fleetboot_schema args"
  "\<not> unmet release_machines_schema args"
  "\<not> unmet recent_events_schema args"
  "\<not> unmet list_bug_reports_schema args"
  "\<not> unmet (strings_schema []) args"
  by (simp_all add: unmet_def schema_defs)

lemma unmet_schemas_refused:
  "List.list_all (\<lambda>(n, s). unmet s args \<longrightarrow> (\<exists>impl. dict_get (tool_impls q dp caller) n = Some impl \<and> refuses (sc_required s) w (impl args w)))
     tool_schemas"
  by (simp add: tool_schemas_def tool_impls_def refusals)

lemma unmet_argument_is_refused:
  assumes "dict_get tool_schemas n = Some s" "dict_get (tool_impls q dp caller) n = Some impl" "unmet s args"
  shows "refuses (sc_required s) w (impl args w)"
  using unmet_schemas_refused [of args q dp caller w] assms map_of_SomeD [OF assms(1)] by (auto simp: list_all_iff)

section \<open>Conforming arguments\<close>

definition sensible :: "json pydict \<Rightarrow> bool" where
  \<comment> \<open>two things the schemas do not say: a holder is not blank, a lease is not of zero or negative length\<close>
  "sensible args \<longleftrightarrow> (case dict_get args ''holder'' of Some (JStr h) \<Rightarrow> strip h \<noteq> [] | _ \<Rightarrow> True)
     \<and> (case dict_get args ''ttl_minutes'' of Some (JInt i) \<Rightarrow> 0 < i | Some (JFloat r) \<Rightarrow> 0 < r | _ \<Rightarrow> True)"

definition fair :: "(tool_error + 'a) \<times> world \<Rightarrow> bool" where
  \<comment> \<open>no complaint about an argument\<close>
  "fair r \<longleftrightarrow> (\<forall>e. fst r = Inl e \<longrightarrow> blameless e)"

lemma conforms_given: "conforms s args \<Longrightarrow> dict_get args k = Some v \<Longrightarrow> \<exists>p. dict_get (sc_properties s) k = Some p \<and> fits p v"
proof -
  assume "conforms s args" and v: "dict_get args k = Some v"
  then have "given_as s args k" using map_of_SomeD [OF v] by (auto simp: conforms_def list_all_iff)
  with v show ?thesis by (auto simp: given_as_iff)
qed

lemma conforms_required: "conforms s args \<Longrightarrow> k \<in> set (sc_required s) \<Longrightarrow> \<exists>v. dict_get args k = Some v"
  by (auto simp: conforms_def list_all_iff given_as_iff)

lemma conforms_str:
  assumes "conforms s args" "k \<in> set (sc_required s)" "dict_get (sc_properties s) k = Some p" "\<And>v. fits p v \<Longrightarrow> \<exists>t. v = JStr t"
  shows "str_given args k"
  using conforms_required [OF assms(1,2)] conforms_given [OF assms(1)] assms(3,4) by (fastforce simp: str_given_def)

lemma blameless_Uncaught [simp]: "blameless Uncaught"
  by (simp add: blameless_def complains_def)

lemma blameless_text: "blameless (ToolError text) \<longleftrightarrow> (\<forall>k \<in> set ARGUMENTS. text \<noteq> ''missing argument: '' @ k
    \<and> \<not> startswith text (''argument '' @ k @ '' must be '') \<and> \<not> startswith text (k @ '' must be ''))"
  by (auto simp: blameless_def complains_def)

lemma blameless_errors [simp]:
  "blameless (unknown_profile profile known)"
  "blameless (no_machine m)"
  "blameless (profile_not_found name)"
  "blameless (ToolError (''unknown topic: '' @ s))"
  "blameless (ToolError (''no build with job_id '' @ s))"
  "blameless (ToolError ''bug reports are not enabled on this deployment'')"
  "blameless (ToolError ''pass either macs or holder'')"
  "blameless (ToolError (''no active lease on '' @ s))"
  "blameless (ToolError ''another build is already running'')"
  "blameless (ToolError ''a build is already running'')"
  "blameless (of_http invalid_profile_name)"
  "blameless (of_http invalid_overlay_path)"
  "blameless (of_http Server_Error)"
  by (simp_all add: blameless_text ARGUMENTS_names startswith_def unknown_profile_def no_machine_def profile_not_found_def of_http_def
      invalid_profile_name_def invalid_overlay_path_def)

lemma blameless_bugs [simp]:
  "blameless (ToolError ''title must not be empty'')"
  "blameless (ToolError (''title is limited to '' @ s))"
  "blameless (ToolError ''description must not be empty'')"
  "blameless (ToolError (''description is limited to '' @ s))"
  "blameless (ToolError (''component is limited to '' @ s))"
  "blameless (ToolError (''reporter is limited to '' @ s))"
  "blameless (ToolError ''resolution must not be empty'')"
  "blameless (ToolError (''resolution is limited to '' @ s))"
  "blameless (ToolError (''there are already '' @ s))"
  "blameless (ToolError (''no bug report with id '' @ s))"
  "blameless (ToolError (''bug report '' @ s))"
  by (simp_all add: blameless_text ARGUMENTS_names startswith_def)

lemmas blameless_texts [simp] = blameless_errors [unfolded append.simps] blameless_bugs [unfolded append.simps]

lemma fair_simps [simp]:
  "fair (Inr x, w)" "fair (Inl e, w) \<longleftrightarrow> blameless e"
  by (simp_all add: fair_def)

lemma fair_bind: "(\<And>e. x = Inl e \<Longrightarrow> blameless e) \<Longrightarrow> (\<And>a. x = Inr a \<Longrightarrow> fair (f a w)) \<Longrightarrow> fair (bind x f w)"
  by (cases x) (simp_all add: bind_def)

lemma fair_reg_result: "(\<And>x w. fair (go x w)) \<Longrightarrow> fair (reg_result f go w)"
  by (simp add: reg_result_def split: prod.split sum.split)

lemma fair_one_machine [simp]: "fair (one_machine q b m w, w')"
  by (simp add: one_machine_def fair_def split: option.split sum.split)

lemma require_str_ok [simp]: "str_given args k \<Longrightarrow> require_str args k \<noteq> Inl e"
  by (auto simp: str_given_def require_str_def)

lemma conforms_strings: "conforms (strings_schema ks) args \<Longrightarrow> k \<in> set ks \<Longrightarrow> str_given args k"
  by (rule conforms_str) (auto simp: strings_schema_def map_of_map_restrict o_def)

lemma conforms_fits:
  "conforms s args \<Longrightarrow> dict_get (sc_properties s) k = Some p \<Longrightarrow> dict_get args k = Some v \<Longrightarrow> fits p v"
  using conforms_given [of s args k v] by simp

lemma optional_str_ok:
  "conforms s args \<Longrightarrow> dict_get (sc_properties s) k = Some (typed J_String) \<Longrightarrow> optional_str args k \<noteq> Inl e"
  using conforms_fits [of s args k "typed J_String"] by (auto simp: optional_str_def arg_or_def split: option.split)

lemma holder_ok:
  "conforms s args \<Longrightarrow> sensible args \<Longrightarrow> dict_get (sc_properties s) ''holder'' = Some (typed J_String) \<Longrightarrow> strip dflt \<noteq> []
   \<Longrightarrow> holder_argument args dflt \<noteq> Inl e"
  using conforms_fits [of s args "''holder''" "typed J_String"] by (auto simp: holder_argument_def arg_or_def sensible_def split: option.splits)

lemma ttl_ok:
  "conforms s args \<Longrightarrow> sensible args \<Longrightarrow> dict_get (sc_properties s) ''ttl_minutes'' = Some (typed J_Number) \<Longrightarrow> ttl_seconds args \<noteq> Inl e"
  using conforms_fits [of s args "''ttl_minutes''" "typed J_Number"]
  by (cases "dict_get args ''ttl_minutes''") (auto simp: ttl_seconds_def arg_or_def sensible_def split: option.splits if_splits)

lemma count_ok:
  "conforms s args \<Longrightarrow> dict_get (sc_properties s) ''count'' = Some ((typed J_Integer)\<lparr>pm_minimum := Some 1\<rparr>) \<Longrightarrow> optional_count args \<noteq> Inl e"
  using conforms_fits [of s args "''count''" "(typed J_Integer)\<lparr>pm_minimum := Some 1\<rparr>"]
  by (auto simp: optional_count_def arg_or_def split: option.splits)

lemma macs_ok:
  assumes "conforms release_machines_schema args"
  shows "macs_argument args \<noteq> Inl e"
proof (cases "dict_get args ''macs''")
  case (Some v)
  with conforms_given [OF assms Some] obtain ss where "v = JList (map JStr ss)"
    by (auto simp: release_machines_schema_def fits_strings)
  with Some show ?thesis by (simp add: macs_argument_def arg_or_def list_all_iff)
qed (simp add: macs_argument_def arg_or_def)

lemma severity_ok:
  assumes "conforms report_bug_schema args"
  obtains s where "severity_argument args = Inr s" "s \<in> set SEVERITIES"
proof (cases "dict_get args ''severity''")
  case None
  then show ?thesis using that [of DEFAULT_SEVERITY]
    by (simp add: severity_argument_def arg_or_def DEFAULT_SEVERITY_def SEVERITIES_def)
next
  case (Some v)
  with conforms_given [OF assms Some] obtain s where "v = JStr s" "s \<in> set SEVERITIES"
    by (auto simp: report_bug_schema_def)
  with Some that show ?thesis by (simp add: severity_argument_def arg_or_def)
qed

lemma label_ok:
  "conforms s args \<Longrightarrow> dict_get (sc_properties s) k = Some (typed J_String) \<Longrightarrow> label_argument args k \<noteq> Not_A_String"
  using conforms_fits [of s args k "typed J_String"] by (auto simp: label_argument_def arg_or_def split: option.splits)

lemma strings_fair:
  "conforms (strings_schema [''mac'']) args \<Longrightarrow> fair (reading (get_machine_tool q) args w)"
  "conforms (strings_schema [''mac'', ''profile_name'']) args \<Longrightarrow> fair (set_machine_profile_tool q dp args w)"
  "conforms (strings_schema [''mac'']) args \<Longrightarrow> fair (delete_machine_tool args w)"
  "conforms (strings_schema [''mac'']) args \<Longrightarrow> fair (release_to_pool_tool q args w)"
  "conforms (strings_schema [''mac'', ''alias'']) args \<Longrightarrow> fair (set_pdu_alias_tool args w)"
  "conforms (strings_schema [''mac'', ''command'']) args \<Longrightarrow> fair (set_reboot_command_tool args w)"
  subgoal by (auto simp: reading_def get_machine_tool_def dest: conforms_strings split: sum.split require_str_split)
  subgoal unfolding set_machine_profile_tool_def by (intro fair_bind) (auto intro!: fair_reg_result dest: conforms_strings)
  subgoal unfolding delete_machine_tool_def by (intro fair_bind) (auto dest: conforms_strings)
  subgoal unfolding release_to_pool_tool_def by (intro fair_bind) (auto dest: conforms_strings split: prod.split)
  subgoal unfolding set_pdu_alias_tool_def by (intro fair_bind) (auto simp: Let_def dest: conforms_strings split: option.split)
  subgoal unfolding set_reboot_command_tool_def by (intro fair_bind fair_reg_result) (auto dest: conforms_strings)
  done

lemma enrol_fair:
  assumes "conforms enrol_machine_schema args"
  shows "fair (enrol_machine_tool q dp args w)"
proof -
  have "str_given args ''mac''" "str_given args ''profile_name''"
    using assms by (auto intro!: conforms_str [OF assms] simp: enrol_machine_schema_def)
  moreover have "arg_or args ''platform'' (JStr ''efi'') = JStr ''efi'' \<or> arg_or args ''platform'' (JStr ''efi'') = JStr ''pc''"
    using conforms_given [OF assms, of "''platform''"] by (auto simp: arg_or_def enrol_machine_schema_def split: option.split)
  moreover have "arg_or args ''scratch_mode'' (JStr ''volatile'') \<in> JStr ` {''volatile'', ''persistent'', ''off''}"
    using conforms_given [OF assms, of "''scratch_mode''"] by (auto simp: arg_or_def enrol_machine_schema_def split: option.split)
  ultimately show ?thesis
    unfolding enrol_machine_tool_def by (intro fair_bind) (auto simp: Let_def intro!: fair_reg_result split: option.split)
qed

lemma action_given:
  assumes "conforms s args" "''action'' \<in> set (sc_required s)" "dict_get (sc_properties s) ''action'' = Some (one_of POWER_ACTIONS)"
  shows "str_given args ''action''" "require_str args ''action'' = Inr a \<Longrightarrow> a \<in> set POWER_ACTIONS"
proof -
  obtain v where v: "dict_get args ''action'' = Some v" using conforms_required [OF assms(1,2)] by blast
  with conforms_fits [OF assms(1,3)] obtain a where "v = JStr a" "a \<in> set POWER_ACTIONS" by auto
  with v show "str_given args ''action''" "require_str args ''action'' = Inr a \<Longrightarrow> a \<in> set POWER_ACTIONS" for a
    by (auto simp: str_given_def require_str_def)
qed

lemma power_fair:
  "conforms reboot_machine_schema args \<Longrightarrow> fair (reboot_tool dp args w)"
  "conforms power_machine_schema args \<Longrightarrow> fair (power_tool dp args w)"
  "conforms set_power_command_schema args \<Longrightarrow> fair (set_power_command_tool args w)"
  "conforms set_pending_reboot_schema args \<Longrightarrow> fair (set_pending_reboot_tool args w)"
proof -
  assume c: "conforms reboot_machine_schema args"
  have "str_given args ''mac''" by (rule conforms_str [OF c]) (auto simp: reboot_machine_schema_def)
  then show "fair (reboot_tool dp args w)" unfolding reboot_tool_def by (intro fair_bind fair_reg_result) auto
next
  assume c: "conforms power_machine_schema args"
  have "str_given args ''mac''" by (rule conforms_str [OF c]) (auto simp: power_machine_schema_def)
  with action_given [OF c] show "fair (power_tool dp args w)"
    unfolding power_tool_def by (intro fair_bind) (auto simp: power_machine_schema_def intro!: fair_reg_result)
next
  assume c: "conforms set_power_command_schema args"
  have "str_given args ''mac''" "str_given args ''command''"
    by (auto intro!: conforms_str [OF c] simp: set_power_command_schema_def)
  with action_given [OF c] show "fair (set_power_command_tool args w)"
    unfolding set_power_command_tool_def
    by (intro fair_bind) (auto simp: set_power_command_schema_def intro!: fair_reg_result split: option.split)
next
  assume c: "conforms set_pending_reboot_schema args"
  have "str_given args ''mac''" by (rule conforms_str [OF c]) (auto simp: set_pending_reboot_schema_def)
  moreover have "\<exists>b. dict_get args ''armed'' = Some (JBool b)"
    using conforms_required [OF c, of "''armed''"] conforms_given [OF c, of "''armed''"] by (auto simp: set_pending_reboot_schema_def)
  ultimately show "fair (set_pending_reboot_tool args w)"
    unfolding set_pending_reboot_tool_def by (intro fair_bind) (auto simp: require_bool_def)
qed

lemma power_fleet_fair:
  assumes c: "conforms power_fleet_schema args"
  shows "fair (power_fleet_tool q dp args w)"
proof -
  have "str_given args ''profile''" by (rule conforms_str [OF c]) (auto simp: power_fleet_schema_def)
  moreover have "optional_str args ''architecture'' \<noteq> Inl e" "optional_count args \<noteq> Inl e" for e
    using optional_str_ok [OF c] count_ok [OF c] by (simp_all add: power_fleet_schema_def)
  ultimately show ?thesis
    using action_given [OF c] unfolding power_fleet_tool_def
    by (intro fair_bind) (auto simp: power_fleet_schema_def Let_def intro!: fair_reg_result fair_bind split: sum.split)
qed

lemma count_argument_ok:
  assumes c: "conforms reserve_machines_schema args"
  shows "count_argument args \<noteq> Inl e"
proof -
  obtain v where "dict_get args ''count'' = Some v"
    using conforms_required [OF c, of "''count''"] by (auto simp: reserve_machines_schema_def)
  with conforms_given [OF c this] show ?thesis by (auto simp: reserve_machines_schema_def count_argument_def require_int_def)
qed

lemma agent_named [simp]: "strip ''agent'' \<noteq> []" "strip ''admin'' \<noteq> []"
  by code_simp+

lemma reserve_fair:
  assumes c: "conforms reserve_machines_schema args" "sensible args"
  shows "fair (reserve_machines_tool q dp args w)"
proof -
  have "str_given args ''profile''" by (rule conforms_str [OF c(1)]) (auto simp: reserve_machines_schema_def)
  moreover have "holder_argument args ''agent'' \<noteq> Inl e" "ttl_seconds args \<noteq> Inl e" "optional_str args ''purpose'' \<noteq> Inl e"
    "optional_str args ''architecture'' \<noteq> Inl e" for e
    by (rule holder_ok [OF c] ttl_ok [OF c] optional_str_ok [OF c(1)]; simp add: reserve_machines_schema_def)+
  moreover obtain i where "count_argument args = Inr i"
    using count_argument_ok [OF c(1)] by (cases "count_argument args") auto
  ultimately show ?thesis
    unfolding reserve_machines_tool_def
    by (intro fair_bind) (auto intro!: fair_reg_result simp: reserved_payload_def split: sum.split)
qed

lemma lease_fair:
  "conforms release_machines_schema args \<Longrightarrow> fair (release_machines_tool q dp args w)"
  "conforms renew_reservation_schema args \<Longrightarrow> sensible args \<Longrightarrow> fair (renew_reservation_tool q args w)"
  "conforms pin_machine_schema args \<Longrightarrow> sensible args \<Longrightarrow> fair (pin_machine_tool q dp args w)"
proof -
  assume c: "conforms release_machines_schema args"
  have "optional_str args ''holder'' \<noteq> Inl e" for e by (rule optional_str_ok [OF c]) (simp add: release_machines_schema_def)
  moreover have "macs_argument args \<noteq> Inl e" for e by (rule macs_ok [OF c])
  ultimately show "fair (release_machines_tool q dp args w)"
    unfolding release_machines_tool_def
    by (intro fair_bind) (auto simp: Let_def intro!: fair_reg_result split: prod.split)
next
  assume c: "conforms renew_reservation_schema args" "sensible args"
  have "str_given args ''mac''" by (rule conforms_str [OF c(1)]) (auto simp: renew_reservation_schema_def)
  moreover have "ttl_seconds args \<noteq> Inl e" for e by (rule ttl_ok [OF c]) (simp add: renew_reservation_schema_def)
  ultimately show "fair (renew_reservation_tool q args w)"
    unfolding renew_reservation_tool_def by (intro fair_bind fair_reg_result) auto
next
  assume c: "conforms pin_machine_schema args" "sensible args"
  have "str_given args ''mac''" by (rule conforms_str [OF c(1)]) (auto simp: pin_machine_schema_def)
  moreover have "holder_argument args ''admin'' \<noteq> Inl e" "optional_str args ''profile'' \<noteq> Inl e" "optional_str args ''purpose'' \<noteq> Inl e" for e
    by (rule holder_ok [OF c] optional_str_ok [OF c(1)]; simp add: pin_machine_schema_def)+
  ultimately show "fair (pin_machine_tool q dp args w)"
    unfolding pin_machine_tool_def
    by (intro fair_bind) (auto simp: pin_profile_def intro!: fair_reg_result split: sum.splits option.splits if_splits)
qed

lemma profile_dir_error: "profile_dir_tool dp name = Inl e \<Longrightarrow> blameless e"
  by (auto simp: profile_dir_tool_def safe_profile_dir_def Let_def split: if_splits)

lemma overlay_path_error: "map_sum of_http id (safe_overlay_path R pdir relpath) = Inl e \<Longrightarrow> blameless e"
proof -
  assume "map_sum of_http id (safe_overlay_path R pdir relpath) = Inl e"
  then obtain e' where e: "safe_overlay_path R pdir relpath = Inl e'" "e = of_http e'"
    by (cases "safe_overlay_path R pdir relpath") auto
  then have "e' = invalid_overlay_path \<or> e' = Server_Error"
    unfolding safe_overlay_path_def Let_def by (simp only: split: if_split_asm) simp_all
  with e(2) show ?thesis by auto
qed

lemma build_refused: "start_with_downstream ids dir profile arch reboot m = (Inl e, m') \<Longrightarrow> e = RuntimeError ''another build is already running''"
  by (auto simp: start_with_downstream_def build_already_running_def Let_def split: if_splits)

lemma five_texts:
  "(case xs of [Inr a, Inr b, Inr c, Inr d, Inr f] \<Rightarrow> Inr (g a b c d f) | _ \<Rightarrow> Inl Uncaught) = Inl e \<Longrightarrow> e = Uncaught"
  by (auto split: list.split_asm sum.split_asm)

lemma get_profile_error:
  assumes "str_given args ''name''" "get_profile_tool dp args w = Inl e"
  shows "blameless e"
proof -
  obtain name where name: "require_str args ''name'' = Inr name" using assms(1) by (auto simp: str_given_def require_str_def)
  show ?thesis
  proof (cases "profile_dir_tool dp name")
    case (Inl e')
    with name assms(2) profile_dir_error [OF Inl] show ?thesis by (simp add: get_profile_tool_def)
  next
    case (Inr pdir)
    define contents where "contents = map (\<lambda>f. read_or_empty (tree w) (pdir @ [f]))
      [''extra-packages.list'', ''setup-chroot'', ''README.md'', ''parent'', ''suite'']"
    from name Inr assms(2) have "e = profile_not_found name \<or> e = Uncaught"
      unfolding get_profile_tool_def contents_def [symmetric]
      by (cases "is_dir (tree w) pdir") (auto simp only: sum.case if_True if_False not_True_eq_False not_False_eq_True sum.inject dest: five_texts)
    then show ?thesis by auto
  qed
qed

lemma file_fair:
  "conforms (strings_schema [''name'']) args \<Longrightarrow> fair (reading (get_profile_tool dp) args w)"
  "conforms (strings_schema [''name'', ''relpath'', ''content'']) args \<Longrightarrow> fair (write_overlay_tool dp args w)"
  "conforms start_build_schema args \<Longrightarrow> fair (start_build_tool q dp args w)"
  "conforms get_build_schema args \<Longrightarrow> fair (reading get_build_tool args w)"
proof -
  assume c: "conforms (strings_schema [''name'']) args"
  show "fair (reading (get_profile_tool dp) args w)"
    using conforms_strings [OF c] get_profile_error by (simp add: reading_def fair_def)
next
  assume c: "conforms (strings_schema [''name'', ''relpath'', ''content'']) args"
  show "fair (write_overlay_tool dp args w)"
    using conforms_strings [OF c] unfolding write_overlay_tool_def
    apply (intro fair_bind)
        apply simp_all
     apply (erule profile_dir_error)
    apply (intro conjI impI fair_bind)
     apply (erule overlay_path_error)
    apply (simp split: prod.split sum.split)
    done
next
  assume c: "conforms start_build_schema args"
  have "str_given args ''profile''" by (rule conforms_str [OF c]) (auto simp: start_build_schema_def)
  then show "fair (start_build_tool q dp args w)"
    unfolding start_build_tool_def
    apply (intro fair_bind)
      apply simp
     apply (erule profile_dir_error)
    subgoal for profile pdir
      by (cases "start_with_downstream (rq_job_ids q) (profiles_of (dp_profiles_root dp) (tree w)) profile
         (arch_text q (arg_or args ''architecture'' (JStr ''amd64''))) (py_true (arg_or args ''auto_reboot'' (JBool False))) (builds w)")
        (auto simp: str_or_def dest: build_refused split: sum.split)
    done
next
  assume c: "conforms get_build_schema args"
  have "str_given args ''job_id''" by (rule conforms_str [OF c]) (auto simp: get_build_schema_def)
  then show "fair (reading get_build_tool args w)"
    by (auto simp: reading_def get_build_tool_def fair_def split: sum.splits option.splits)
qed

definition calm :: "unit file_step \<Rightarrow> bool" where
  \<comment> \<open>the only exception of the step is one nobody catches\<close>
  "calm step \<longleftrightarrow> (\<forall>fs e. fst (step fs) = Inl e \<longrightarrow> e = Server_Error)"

lemma calm_steps: "\<forall>step \<in> set steps. calm step \<Longrightarrow> fst (run_steps steps fs) = Inl e \<Longrightarrow> e = Server_Error"
proof (induction steps arbitrary: fs)
  case (Cons step steps)
  obtain r fs' where step: "step fs = (r, fs')" by force
  show ?case
  proof (cases r)
    case (Inl e')
    with Cons.prems(1) step have "e' = Server_Error" unfolding calm_def by (metis fst_conv list.set_intros(1))
    with Cons.prems(2) step Inl show ?thesis by simp
  next
    case (Inr u)
    with Cons.prems step show ?thesis by (intro Cons.IH [of fs']) auto
  qed
qed simp

lemma calm_writes [simp]:
  "calm (mkdir_parents p)" "calm (write_text p t)" "calm (write_or_unlink filled p t)" "calm (write_setup_chroot p t)" "calm (write_suite p t)"
  by (auto simp: calm_def mkdir_parents_def write_text_def write_or_unlink_def write_setup_chroot_def write_suite_def Let_def split: if_splits)

lemma text_or_empty_error: "text_or_empty v = Inl e \<Longrightarrow> e = Server_Error"
  by (cases v) (simp_all add: text_or_empty_def split: if_split_asm)

lemma calm_with_text [simp]: "(\<And>t. calm (f t)) \<Longrightarrow> calm (with_text v f)"
  by (cases "text_or_empty v") (simp_all add: calm_def with_text_def text_or_empty_error)

lemma calm_write_or_create [simp]: "calm (write_or_create args k existed p)"
proof (cases "dict_get args k")
  case None
  then show ?thesis using calm_writes(2) [of p "[]"] by (simp add: calm_def write_or_create_def)
next
  case (Some v)
  then show ?thesis using calm_with_text [OF calm_writes(2) [of p], of v] by (simp add: calm_def write_or_create_def)
qed

lemma calm_if_given [simp]: "(\<And>v. dict_get args k = Some v \<Longrightarrow> calm (f v)) \<Longrightarrow> calm (if_given args k f)"
  by (auto simp: calm_def if_given_def split: option.splits)

lemma calm_parents:
  assumes "conforms save_profile_schema args" "dict_get args ''parents'' = Some v"
  shows "calm (write_parent_names profiles_root pdir name v)"
proof -
  obtain ss where "v = JList (map JStr ss)"
    using conforms_given [OF assms] by (auto simp: save_profile_schema_def fits_strings)
  then have "parents_argument known v \<noteq> Inl e" for known e by (auto simp: parents_argument_def)
  then show ?thesis
    by (auto simp: calm_def write_parent_names_def write_or_unlink_def write_text_def split: sum.splits if_splits)
qed

lemma save_profile_fair:
  assumes c: "conforms save_profile_schema args"
  shows "fair (save_profile_tool dp args w)"
proof -
  have "str_given args ''name''" by (rule conforms_str [OF c]) (auto simp: save_profile_schema_def)
  moreover have steps: "e = Server_Error" if "run_steps (save_profile_steps dp args name pdir existed) fs = (Inl e, fs')" for name pdir existed fs fs' e
    using that calm_steps [of "save_profile_steps dp args name pdir existed" fs e] calm_parents [OF c] by (simp add: save_profile_steps_def)
  ultimately show ?thesis
    unfolding save_profile_tool_def by (intro fair_bind) (auto simp: Let_def dest: profile_dir_error steps split: prod.split sum.split)
qed

lemma reading_fair:
  "fair (reading (list_machines_tool q) args w)"
  "fair (reading (list_profiles_tool dp) args w)"
  "fair (reading list_builds_tool args w)"
  "fair (reading recent_events_tool args w)"
  "conforms describe_fleetboot_schema args \<Longrightarrow> fair (reading (describe_fleetboot q) args w)"
proof -
  show "fair (reading (list_machines_tool q) args w)" "fair (reading (list_profiles_tool dp) args w)"
    "fair (reading list_builds_tool args w)" "fair (reading recent_events_tool args w)"
    by (auto simp: fair_def reading_def list_machines_tool_def list_profiles_tool_def list_builds_tool_def recent_events_tool_def
        Let_def split: sum.splits option.splits json.splits)
next
  assume c: "conforms describe_fleetboot_schema args"
  have "\<exists>s. arg_or args ''topic'' (JStr DEFAULT_TOPIC) = JStr s"
    using conforms_given [OF c, of "''topic''"] by (auto simp: arg_or_def describe_fleetboot_schema_def split: option.split)
  then show "fair (reading (describe_fleetboot q) args w)"
    by (auto simp: fair_def reading_def describe_fleetboot_def split: option.splits)
qed

lemma parse_error: "parse p t = Inl e \<Longrightarrow> e = IndexError"
  by (simp add: parse_def Let_def split: prod.split_asm list.split_asm option.split_asm if_split_asm)

lemma find_report_error: "find_report i store = Inl e \<Longrightarrow> e = no_report i"
  by (simp add: find_report_def split: if_split_asm list.split_asm)

lemma blameless_reports [simp]: "blameless (bug_failure IndexError)" "blameless (bug_failure (no_report i))"
  by (simp_all add: bug_failure_def no_report_def)

lemma read_report_error: "read_report status name store = Inl e \<Longrightarrow> blameless (bug_failure e)"
  by (auto simp: read_report_def dest: parse_error)

lemma get_report_error: "get_report i store = Inl e \<Longrightarrow> blameless (bug_failure e)"
  by (auto simp: get_report_def dest: find_report_error read_report_error split: sum.split_asm prod.split_asm)

lemma list_reports_error:
  assumes "status \<in> set STATUSES" "list_reports status store = Inl e"
  shows "blameless (bug_failure e)"
proof -
  have "Inl e \<in> set xs" if "sequence xs = Inl e" for xs :: "(bug_error + BugReport) list"
    using that by (induction xs) (auto split: sum.splits)
  then have "\<exists>name. read_report status name store = Inl e" using assms by (fastforce simp: list_reports_def)
  then show ?thesis by (auto dest: read_report_error)
qed

lemma resolve_report_error:
  assumes "resolve_report stamp i t store = (Inl e, store')"
  shows "blameless (bug_failure e)"
proof -
  consider "strip t = []" | "strip t \<noteq> []" "MAXIMUM_RESOLUTION_CHARACTERS < length (strip t)"
    | "strip t \<noteq> []" "\<not> MAXIMUM_RESOLUTION_CHARACTERS < length (strip t)" by blast
  then show ?thesis
  proof cases
    case 3
    with assms show ?thesis
      by (cases "find_report i store") (auto simp: resolve_report_def Let_def bug_failure_def [of "BugReportError _"] blameless_bugs
        dest: find_report_error read_report_error split: sum.split_asm prod.split_asm if_split_asm)
  qed (use assms in \<open>auto simp: resolve_report_def Let_def bug_failure_def\<close>)
qed

lemma bug_tools_fair:
  "conforms report_bug_schema args \<Longrightarrow> fair (report_bug_tool q caller args w)"
  "conforms list_bug_reports_schema args \<Longrightarrow> fair (reading list_bug_reports_tool args w)"
  "conforms (strings_schema [''id'']) args \<Longrightarrow> fair (reading get_bug_report_tool args w)"
  "conforms (strings_schema [''id'', ''resolution'']) args \<Longrightarrow> fair (resolve_bug_report_tool q args w)"
proof -
  have store: "bug_report_store w = Inl e \<Longrightarrow> blameless e" for w e
    by (auto simp: bug_report_store_def split: option.splits)
  {
    assume c: "conforms report_bug_schema args"
    have "str_given args ''title''" "str_given args ''description''"
      by (auto intro!: conforms_str [OF c] simp: report_bug_schema_def)
    moreover obtain s where "severity_argument args = Inr s" "s \<in> set SEVERITIES" using severity_ok [OF c] by blast
    moreover have "label_argument args ''component'' \<noteq> Not_A_String" "label_argument args ''reporter'' \<noteq> Not_A_String"
      by (rule label_ok [OF c]; simp add: report_bug_schema_def)+
    then have "blameless (bug_failure e)"
      if "file_report i t title description s (label_argument args ''component'') (label_argument args ''reporter'') r st = (Inl e, st')"
        "s \<in> set SEVERITIES" for i t title description s r st st' e
      using that by (cases "label_argument args ''component''"; cases "label_argument args ''reporter''")
        (auto simp: file_report_def optional_label_def Let_def bug_failure_def split: if_split_asm)
    ultimately show "fair (report_bug_tool q caller args w)"
      unfolding report_bug_tool_def by (intro fair_bind) (auto dest: store split: prod.split sum.split)
  next
    assume c: "conforms list_bug_reports_schema args"
    obtain status where "arg_or args ''status'' (JStr ''open'') = JStr status" "status \<in> set STATUSES"
      using conforms_given [OF c, of "''status''"]
      by (cases "dict_get args ''status''") (auto simp: arg_or_def list_bug_reports_schema_def STATUSES_def)
    then show "fair (reading list_bug_reports_tool args w)"
      by (auto simp: fair_def reading_def list_bug_reports_tool_def Let_def dest: store list_reports_error split: sum.splits)
  next
    assume c: "conforms (strings_schema [''id'']) args"
    then show "fair (reading get_bug_report_tool args w)"
      using conforms_strings [OF c]
      by (auto simp: fair_def reading_def get_bug_report_tool_def dest: store get_report_error split: sum.splits)
  next
    assume c: "conforms (strings_schema [''id'', ''resolution'']) args"
    then show "fair (resolve_bug_report_tool q args w)"
      using conforms_strings [OF c] unfolding resolve_bug_report_tool_def
      by (intro fair_bind) (auto dest: store resolve_report_error split: prod.split sum.split)
  }
qed

lemmas fair_tools = strings_fair enrol_fair power_fair power_fleet_fair reserve_fair lease_fair file_fair save_profile_fair
  reading_fair bug_tools_fair

lemma conforming_schemas_fair:
  assumes "sensible args"
  shows "List.list_all (\<lambda>(n, s). conforms s args \<longrightarrow> (\<exists>impl. dict_get (tool_impls q dp caller) n = Some impl \<and> fair (impl args w)))
     tool_schemas"
  using assms by (simp add: tool_schemas_def tool_impls_def fair_tools)



section \<open>The page about the endpoint\<close>

definition mcp_docs_page :: "(string \<Rightarrow> string) \<Rightarrow> string \<Rightarrow> string \<times> (string \<times> tool_schema) list \<times> DocTopic list" where
  \<comment> \<open>\<open>/dashboard/mcp\<close>: the address, the tools and the topics it shows, beside two constants\<close>
  "mcp_docs_page page base_url = (rstrip_char (CHR ''/'') base_url @ ''/mcp'', tool_schemas, TOPICS page)"

end
