(* ===== verification/Power_Timeout.thy ===== *)
theory Power_Timeout
  imports Py_Float Fleet_Prelude
begin

text \<open>
  \<open>power_command_timeout_seconds\<close> of \<open>src/fleetboot/server/dashboard.py\<close>: how long a power command may run, from the
  environment variable \<open>FLEETBOOT_POWER_TIMEOUT\<close>, and the text of it in the message of a timeout.
\<close>

definition DEFAULT_POWER_COMMAND_TIMEOUT_SECONDS :: py_float where
  "DEFAULT_POWER_COMMAND_TIMEOUT_SECONDS = Finite 60"

definition not_positive :: "py_float \<Rightarrow> bool" where
  \<comment> \<open>\<open>seconds <= 0\<close>, false of a NaN\<close>
  "not_positive v = (case v of Finite x \<Rightarrow> x \<le> 0 | Infinite negative \<Rightarrow> negative | Not_A_Number \<Rightarrow> False)"

definition power_command_timeout_seconds :: "string option \<Rightarrow> py_float" where
  "power_command_timeout_seconds variable =
     (let raw = strip (opt_str variable) in
      case float_of_str raw of
        None \<Rightarrow> DEFAULT_POWER_COMMAND_TIMEOUT_SECONDS
      | Some seconds \<Rightarrow> if not_positive seconds then DEFAULT_POWER_COMMAND_TIMEOUT_SECONDS else seconds)"

definition timeout_text :: "string option \<Rightarrow> string" where
  \<comment> \<open>\<open>{timeout_seconds:g}\<close>\<close>
  "timeout_text variable = format_g (power_command_timeout_seconds variable)"

lemma timeout_is_positive: "\<not> not_positive (power_command_timeout_seconds variable)"
  by (auto simp: power_command_timeout_seconds_def DEFAULT_POWER_COMMAND_TIMEOUT_SECONDS_def not_positive_def Let_def
      split: option.split)

lemma timeout_of_whole_seconds:
  assumes "0 < n" "n < 10 ^ 6"
  shows "power_command_timeout_seconds (Some (str_of_nat n)) = Finite (of_nat n)"
    "timeout_text (Some (str_of_nat n)) = str_of_nat n"
proof -
  have "float_of_str (str_of_nat n) = Some (Finite (of_nat n))" using assms by (intro float_of_whole) auto
  then show "power_command_timeout_seconds (Some (str_of_nat n)) = Finite (of_nat n)"
    using assms digits_plain(1) [of "str_of_nat n"] str_of_nat_reads [of n]
    by (simp add: power_command_timeout_seconds_def not_positive_def opt_str_def)
  then show "timeout_text (Some (str_of_nat n)) = str_of_nat n" using format_whole [OF assms] by (simp add: timeout_text_def)
qed

lemma default_timeout: "power_command_timeout_seconds None = Finite 60 \<and> timeout_text None = ''60''"
proof -
  have "float_of_str [] = None" by code_simp
  then have "power_command_timeout_seconds None = Finite 60"
    by (simp add: power_command_timeout_seconds_def DEFAULT_POWER_COMMAND_TIMEOUT_SECONDS_def opt_str_def)
  moreover have "str_of_nat 60 = ''60''" by code_simp
  ultimately show ?thesis using format_whole [of 60] by (simp add: timeout_text_def)
qed

text \<open>The variable can switch the limit off: \<open>subprocess.run\<close> never gives up on a timeout that is infinite or no number.\<close>

lemma timeout_may_be_unbounded:
  "power_command_timeout_seconds (Some ''inf'') = Infinite False"
  "power_command_timeout_seconds (Some ''nan'') = Not_A_Number"
proof -
  have strips: "strip ''inf'' = ''inf''" "strip ''nan'' = ''nan''" by code_simp+
  have "float_of_str ''inf'' = Some (Infinite False)" "float_of_str ''nan'' = Some Not_A_Number" by code_simp+
  then show "power_command_timeout_seconds (Some ''inf'') = Infinite False" "power_command_timeout_seconds (Some ''nan'') = Not_A_Number"
    by (simp_all add: power_command_timeout_seconds_def not_positive_def opt_str_def strips)
qed

end
