(* ===== verification/Server_Main.thy ===== *)
theory Server_Main
  imports Tftp_Glue Mcp Power_Timeout
begin

text \<open>
  The entry point of the control plane, \<open>src/fleetboot/server/__main__.py\<close>, and the wiring of \<open>create_app\<close> in
  \<open>src/fleetboot/server/app.py\<close>: what the environment variables make of a process, and when it does not start. The
  operating system is an argument (\<open>host\<close>): which files there are and what a command does. Creating the
  directory of the database, opening the files of the stores (\<open>Migrations\<close>) and uvicorn are left out; a
  \<open>Crash\<close> is an exception that ends the process.
\<close>

section \<open>The application\<close>

record host =
  ho_is_file :: "string \<Rightarrow> bool"
  ho_subdirs :: "string \<Rightarrow> string list option"   \<comment> \<open>the directories under a directory, if it is one\<close>
  ho_boot_files :: "string \<Rightarrow> (string \<times> boot_file) list option"
  ho_resolve :: "path \<Rightarrow> path"
  ho_shell :: shell

definition in_dir :: "string \<Rightarrow> string \<Rightarrow> string" where
  \<comment> \<open>\<open>Path(d) / f\<close>; \<open>Path("")\<close> is the current directory\<close>
  "in_dir d f = (if d = [] then f else rstrip_char (CHR ''/'') d @ ''/'' @ f)"

record app_arguments =
  aa_mint_secret :: "string option"
  aa_admin_secret :: "string option"
  aa_pool_secret :: "string option"
  aa_registry :: bool
  aa_boot_dir :: "string option"
  aa_repo_root :: "string option"
  aa_keytabs_dir :: "string option"
  aa_authorized_keys_path :: "string option"

definition profiles_root_of :: "string \<Rightarrow> string" where
  "profiles_root_of repo_root = in_dir (in_dir repo_root ''image'') ''profiles''"

definition app_settings :: "host \<Rightarrow> app_arguments \<Rightarrow> app_config" where
  \<comment> \<open>what the routes of \<open>create_app\<close> close over\<close>
  "app_settings h a = \<lparr>mint_secret = aa_mint_secret a, admin_secret = aa_admin_secret a, has_registry = aa_registry a,
     boot_dir = map_option (\<lambda>d f. ho_is_file h (in_dir d f)) (aa_boot_dir a),
     keytabs_dir = map_option (\<lambda>d f. ho_is_file h (in_dir d f)) (aa_keytabs_dir a),
     authorized_keys_path = map_option (ho_is_file h) (aa_authorized_keys_path a),
     profile_dirs = Option.bind (aa_repo_root a) (\<lambda>r. ho_subdirs h (profiles_root_of r))\<rparr>"

definition mounted_routers :: "host \<Rightarrow> environ \<Rightarrow> app_arguments \<Rightarrow> deployment option" where
  \<comment> \<open>the dashboard and the MCP endpoint, with the reaper, where the caller gave what they need\<close>
  "mounted_routers h env a = (case (aa_repo_root a, aa_registry a, aa_admin_secret a) of
     (Some r, True, Some admin) \<Rightarrow>
       Some \<lparr>dp_admin = admin, dp_pool = aa_pool_secret a, dp_profiles_root = path_parts (profiles_root_of r),
          dp_resolve = ho_resolve h, dp_boot_dir = Option.bind (aa_boot_dir a) (ho_boot_files h), dp_shell = ho_shell h,
          dp_timeout = timeout_text (env ''FLEETBOOT_POWER_TIMEOUT'')\<rparr>
   | _ \<Rightarrow> None)"

definition create_app :: "host \<Rightarrow> environ \<Rightarrow> app_arguments \<Rightarrow> app_config \<times> deployment option" where
  "create_app h env a = (app_settings h a, mounted_routers h env a)"

section \<open>The process\<close>

record server_process =
  sp_db_path :: string
  sp_config :: app_config
  sp_deployment :: "deployment option"
  sp_reaper :: "reaper option"
  sp_host :: string
  sp_port :: int
  sp_tls :: "(string \<times> string) option"

definition LOG_LEVELS :: "string list" where
  \<comment> \<open>the names \<open>logging\<close> knows\<close>
  "LOG_LEVELS = [''CRITICAL'', ''FATAL'', ''ERROR'', ''WARN'', ''WARNING'', ''INFO'', ''DEBUG'', ''NOTSET'']"

definition upper :: "string \<Rightarrow> string" where
  \<comment> \<open>of the ASCII letters, all that the names of the levels have\<close>
  "upper s = map (\<lambda>c. if CHR ''a'' \<le> c \<and> c \<le> CHR ''z'' then char_of (of_char c - 32 :: nat) else c) s"

definition main_arguments :: "environ \<Rightarrow> string \<Rightarrow> string \<Rightarrow> app_arguments" where
  "main_arguments env admin mint = \<lparr>aa_mint_secret = Some mint, aa_admin_secret = Some admin,
     aa_pool_secret = (if truthy (env ''FLEETBOOT_POOL_SECRET'') then env ''FLEETBOOT_POOL_SECRET'' else None),
     aa_registry = True, aa_boot_dir = Some (env_or env ''FLEETBOOT_BOOT_DIR'' ''/build''),
     aa_repo_root = Some (env_or env ''FLEETBOOT_REPO_ROOT'' ''/app''), aa_keytabs_dir = None,
     aa_authorized_keys_path = (if truthy (env ''FLEETBOOT_AUTHORIZED_KEYS'') then env ''FLEETBOOT_AUTHORIZED_KEYS'' else None)\<rparr>"

definition tls_files :: "host \<Rightarrow> environ \<Rightarrow> start_failure + (string \<times> string) option" where
  "tls_files h env =
     (let cert = env ''FLEETBOOT_TLS_CERT''; key = env ''FLEETBOOT_TLS_KEY'' in
      if \<not> truthy cert \<and> \<not> truthy key then Inr None
      else if \<not> (truthy cert \<and> truthy key)
      then Inl (Exit 2 ''fleetboot.server: FLEETBOOT_TLS_CERT and FLEETBOOT_TLS_KEY must be set together'')
      else if \<not> ho_is_file h (opt_str cert) \<or> \<not> ho_is_file h (opt_str key)
      then Inl (Exit 2 (''fleetboot.server: FLEETBOOT_TLS_CERT / _KEY point at files that don'' @ [CHR 0x27] @ ''t exist''))
      else Inr (Some (opt_str cert, opt_str key)))"

definition server_main :: "host \<Rightarrow> environ \<Rightarrow> start_failure + server_process" where
  "server_main h env =
     (if upper (env_or env ''FLEETBOOT_LOG_LEVEL'' ''INFO'') \<notin> set LOG_LEVELS then Inl Crash
      else case require_env ''fleetboot.server'' env ''FLEETBOOT_ADMIN_SECRET'' of Inl e \<Rightarrow> Inl e
      | Inr admin \<Rightarrow> (case require_env ''fleetboot.server'' env ''FLEETBOOT_MINT_SECRET'' of Inl e \<Rightarrow> Inl e
      | Inr mint \<Rightarrow>
          (let (config, routers) = create_app h env (main_arguments env admin mint);
               reaping = map_option (\<lambda>_. snd (reaper_start new_reaper)) routers
           in case int_of_str (env_or env ''FLEETBOOT_PORT'' ''8080'') of None \<Rightarrow> Inl Crash
            | Some port \<Rightarrow> (case tls_files h env of Inl e \<Rightarrow> Inl e
            | Inr tls \<Rightarrow> Inr \<lparr>sp_db_path = env_or env ''FLEETBOOT_DB'' ''/data/machines.sqlite'', sp_config = config,
                sp_deployment = routers, sp_reaper = reaping, sp_host = env_or env ''FLEETBOOT_HOST'' ''0.0.0.0'',
                sp_port = port, sp_tls = tls\<rparr>))))"

section \<open>When it starts, and what it lets in\<close>

lemma require_env_Inr [simp]: "require_env prog env name = Inr v \<longleftrightarrow> truthy (env name) \<and> v = opt_str (env name)"
  by (auto simp: require_env_def)

lemma opt_str_Some [simp]: "opt_str (Some s) = s"
  by (simp add: opt_str_def)

lemma truthy_opt_str [simp]: "truthy x \<Longrightarrow> opt_str x \<noteq> []"
  by (auto simp: truthy_def opt_str_def)

lemma tls_files_Inr:
  "tls_files h env = Inr tls \<longleftrightarrow>
     (case tls of
        None \<Rightarrow> \<not> truthy (env ''FLEETBOOT_TLS_CERT'') \<and> \<not> truthy (env ''FLEETBOOT_TLS_KEY'')
      | Some (cert, key) \<Rightarrow> env ''FLEETBOOT_TLS_CERT'' = Some cert \<and> env ''FLEETBOOT_TLS_KEY'' = Some key \<and> cert \<noteq> [] \<and> key \<noteq> []
          \<and> ho_is_file h cert \<and> ho_is_file h key)"
  by (auto simp: tls_files_def Let_def truthy_def opt_str_def split: option.split)

lemma server_main_Inr:
  "server_main h env = Inr p \<longleftrightarrow>
     upper (env_or env ''FLEETBOOT_LOG_LEVEL'' ''INFO'') \<in> set LOG_LEVELS
     \<and> truthy (env ''FLEETBOOT_ADMIN_SECRET'') \<and> truthy (env ''FLEETBOOT_MINT_SECRET'')
     \<and> int_of_str (env_or env ''FLEETBOOT_PORT'' ''8080'') = Some (sp_port p) \<and> tls_files h env = Inr (sp_tls p)
     \<and> sp_db_path p = env_or env ''FLEETBOOT_DB'' ''/data/machines.sqlite'' \<and> sp_host p = env_or env ''FLEETBOOT_HOST'' ''0.0.0.0''
     \<and> (sp_config p, sp_deployment p)
       = create_app h env (main_arguments env (opt_str (env ''FLEETBOOT_ADMIN_SECRET'')) (opt_str (env ''FLEETBOOT_MINT_SECRET'')))
     \<and> sp_reaper p = map_option (\<lambda>_. snd (reaper_start new_reaper)) (sp_deployment p)"
proof -
  have "server_main h env = Inr p \<longleftrightarrow> (\<exists>port tls.
      upper (env_or env ''FLEETBOOT_LOG_LEVEL'' ''INFO'') \<in> set LOG_LEVELS
      \<and> truthy (env ''FLEETBOOT_ADMIN_SECRET'') \<and> truthy (env ''FLEETBOOT_MINT_SECRET'')
      \<and> int_of_str (env_or env ''FLEETBOOT_PORT'' ''8080'') = Some port \<and> tls_files h env = Inr tls
      \<and> p = (let (config, routers) = create_app h env (main_arguments env (opt_str (env ''FLEETBOOT_ADMIN_SECRET''))
               (opt_str (env ''FLEETBOOT_MINT_SECRET''))) in
             \<lparr>sp_db_path = env_or env ''FLEETBOOT_DB'' ''/data/machines.sqlite'', sp_config = config,
                sp_deployment = routers, sp_reaper = map_option (\<lambda>_. snd (reaper_start new_reaper)) routers,
                sp_host = env_or env ''FLEETBOOT_HOST'' ''0.0.0.0'', sp_port = port, sp_tls = tls\<rparr>))"
    by (auto simp: server_main_def require_env_def Let_def split_beta split: sum.splits option.splits)
  moreover obtain config routers where "create_app h env (main_arguments env (opt_str (env ''FLEETBOOT_ADMIN_SECRET''))
      (opt_str (env ''FLEETBOOT_MINT_SECRET''))) = (config, routers)" by force
  ultimately show ?thesis by (cases p) auto
qed

lemma compare_digest_Inr: "compare_digest a b = Inr r \<Longrightarrow> r \<longleftrightarrow> a = b"
  by (auto simp: compare_digest_def split: if_splits)

lemma role_from_secret:
  "check_auth dp authorization = Inr Admin \<Longrightarrow> strip (drop 7 (opt_str authorization)) = dp_admin dp"
  "check_auth dp authorization = Inr Pool \<Longrightarrow> dp_pool dp = Some (strip (drop 7 (opt_str authorization))) \<and> truthy (dp_pool dp)"
  by (auto simp: check_auth_def Let_def truthy_def numeral_eq_Suc dest!: compare_digest_Inr split: if_split_asm sum.split_asm bool.split_asm)


definition lab_environ :: environ where
  "lab_environ = [''FLEETBOOT_ADMIN_SECRET'' \<mapsto> ''s3cret'', ''FLEETBOOT_MINT_SECRET'' \<mapsto> ''m1nt'', ''FLEETBOOT_POOL_SECRET'' \<mapsto> []]"

definition lab_host :: host where
  "lab_host = \<lparr>ho_is_file = (\<lambda>f. False), ho_subdirs = (\<lambda>d. Some [''desktop'']), ho_boot_files = (\<lambda>d. None), ho_resolve = id,
     ho_shell = (\<lambda>command. Exited_With 0)\<rparr>"


section \<open>A variable that does nothing\<close>

lemma env_or_other: "name \<noteq> k \<Longrightarrow> env_or (env(k := v)) name d = env_or env name d"
  by (simp add: env_or_def)

lemma profiles_root_variable_is_ignored: "server_main h (env(''FLEETBOOT_PROFILES_ROOT'' := v)) = server_main h env"
proof -
  let ?env = "env(''FLEETBOOT_PROFILES_ROOT'' := v)"
  have "main_arguments ?env a m = main_arguments env a m" "mounted_routers h ?env x = mounted_routers h env x"
    "tls_files h ?env = tls_files h env" for a m x
    by (simp_all add: main_arguments_def mounted_routers_def env_or_other tls_files_def split: option.split bool.split)
  moreover have "require_env prog ?env name = require_env prog env name" if "name \<noteq> ''FLEETBOOT_PROFILES_ROOT''" for prog name
    using that by (simp add: require_env_def)
  ultimately show ?thesis by (simp add: server_main_def create_app_def env_or_other Let_def cong: sum.case_cong option.case_cong)
qed

end
