(* ===== verification/Trail_Camera.thy ===== *)
theory Trail_Camera
  imports Hardware_Spec "HOL-Library.Word"
begin

text \<open>
  \<open>src/image/profiles/trailcam-test/overlay/opt/tcam/wake.py\<close>: the test bench's tool that wakes a trail
  camera over Bluetooth LE and collects the WiFi credentials it answers with.

  Bytes are \<open>8 word\<close>s; the numbers \<open>struct.unpack_from\<close> reads are Python integers, here \<open>nat\<close>. The
  Bluetooth stack (\<open>bleak\<close>) is a library: what it discovers and the notifications it delivers are arguments,
  cut into packets as it likes, and an exception that leaves the notification callback stays in the event
  loop, which logs it. \<open>loads\<close> is \<open>json.loads(payload.decode("utf-8", "replace"))\<close>, \<open>None\<close> its
  \<open>JSONDecodeError\<close>. What \<open>wake\<close> prints is a value of \<open>wake_outcome\<close>; a failing connection is left out.
\<close>

section \<open>Frames\<close>

type_synonym byte = "8 word"
type_synonym bytes = "byte list"
type_synonym frame = "nat \<times> bytes"

definition SERVICE_UUID :: string where
  "SERVICE_UUID = ''00008801-0000-1000-8000-00805f9b34fb''"

definition WRITE_UUID :: string where
  "WRITE_UUID = ''00000002-0000-1000-8000-00805f9b34fb''"

definition NOTIFY_UUID :: string where
  "NOTIFY_UUID = ''00000003-0000-1000-8000-00805f9b34fb''"

definition MSG_ID_NETWORK_START :: nat where
  "MSG_ID_NETWORK_START = 1"

definition WAKE_CMD :: bytes where
  "WAKE_CMD = [0x13, 0x57, 0x01, 0, 0, 0, 0, 0]"

definition unpack_H :: "bytes \<Rightarrow> nat \<Rightarrow> nat" where
  \<comment> \<open>\<open>struct.unpack_from("<H", buf, i)[0]\<close>\<close>
  "unpack_H buf i = unat (buf ! i) + 256 * unat (buf ! (i + 1))"

definition unpack_I :: "bytes \<Rightarrow> nat \<Rightarrow> nat" where
  \<comment> \<open>\<open>struct.unpack_from("<I", buf, i)[0]\<close>\<close>
  "unpack_I buf i = unpack_H buf i + 65536 * unpack_H buf (i + 2)"

function parse_from :: "bytes \<Rightarrow> nat \<Rightarrow> nat \<Rightarrow> frame list \<times> nat" where
  "parse_from buf i consumed =
     (if length buf - i < 8 then ([], consumed)
      else if buf ! i \<noteq> 0x13 \<or> buf ! (i + 1) \<noteq> 0x57 then parse_from buf (i + 1) (i + 1)
      else let msg_id = unpack_H buf (i + 2); len = unpack_I buf (i + 4) in
        if 8 + len > length buf - i then ([], consumed)
        else let (frames, n) = parse_from buf (i + 8 + len) (i + 8 + len)
             in ((msg_id, take len (drop (i + 8) buf)) # frames, n))"
  by pat_completeness auto
termination by (relation "measure (\<lambda>(buf, i, _). length buf - i)") auto

declare parse_from.simps [simp del]

definition parse_frames :: "bytes \<Rightarrow> frame list \<times> nat" where
  \<comment> \<open>the frames the generator yields, in order, and what it returns\<close>
  "parse_frames buf = parse_from buf 0 0"

function retrim_from :: "bytes \<Rightarrow> nat \<Rightarrow> nat" where
  "retrim_from buf i =
     (if 8 \<le> length buf - i \<and> buf ! i = 0x13 \<and> buf ! (i + 1) = 0x57 then
        (let len = unpack_I buf (i + 4) in
         if 8 + len > length buf - i then i else retrim_from buf (i + 8 + len))
      else i)"
  by pat_completeness auto
termination by (relation "measure (\<lambda>(buf, i). length buf - i)") auto

declare retrim_from.simps [simp del]

definition retrim :: "bytes \<Rightarrow> bytes" where
  \<comment> \<open>\<open>_retrim\<close>\<close>
  "retrim buf = drop (retrim_from buf 0) buf"

section \<open>The answer of the camera\<close>

type_synonym answer = "(json \<times> json) list"

record wake_state =
  ws_result :: answer
  ws_buf :: bytes
  ws_got :: bool

definition new_wake_state :: wake_state where
  "new_wake_state = \<lparr>ws_result = [], ws_buf = [], ws_got = False\<rparr>"

primrec number_of :: "json \<Rightarrow> rat option" where
  \<comment> \<open>Python compares and hashes booleans, integers and floats by their value\<close>
  "number_of JNull = None"
| "number_of (JBool b) = Some (of_bool b)"
| "number_of (JInt i) = Some (of_int i)"
| "number_of (JFloat r) = Some r"
| "number_of (JStr s) = None"
| "number_of (JList xs) = None"
| "number_of (JObj d) = None"

definition same_key :: "json \<Rightarrow> json \<Rightarrow> bool" where
  "same_key a b \<longleftrightarrow> a = b \<or> number_of a \<noteq> None \<and> number_of a = number_of b"

fun hashable :: "json \<Rightarrow> bool" where
  "hashable (JList xs) = False"
| "hashable (JObj d) = False"
| "hashable v = True"

fun answer_get :: "answer \<Rightarrow> json \<Rightarrow> json option" where
  "answer_get [] k = None"
| "answer_get ((j, v) # a) k = (if same_key j k then Some v else answer_get a k)"

fun answer_set :: "json \<Rightarrow> json \<Rightarrow> answer \<Rightarrow> answer" where
  "answer_set k v [] = [(k, v)]"
| "answer_set k v ((j, w) # a) = (if same_key j k then (j, v) # a else (j, w) # answer_set k v a)"

fun pair_of :: "json \<Rightarrow> (json \<times> json) option" where
  \<comment> \<open>an element of a list given to \<open>dict.update\<close>: anything with two elements\<close>
  "pair_of (JList [k, v]) = Some (k, v)"
| "pair_of (JStr [c, d]) = Some (JStr [c], JStr [d])"
| "pair_of (JObj [(k, _), (l, _)]) = Some (JStr k, JStr l)"
| "pair_of v = None"

fun update_pairs :: "json list \<Rightarrow> answer \<Rightarrow> answer \<times> bool" where
  "update_pairs [] a = (a, False)"
| "update_pairs (x # xs) a = (case pair_of x of
     Some (k, v) \<Rightarrow> (if hashable k then update_pairs xs (answer_set k v a) else (a, True))
   | None \<Rightarrow> (a, True))"

fun update_fields :: "json pydict \<Rightarrow> answer \<Rightarrow> answer" where
  "update_fields [] a = a"
| "update_fields ((k, v) # d) a = update_fields d (answer_set (JStr k) v a)"

definition update_result :: "json \<Rightarrow> answer \<Rightarrow> answer \<times> bool" where
  \<comment> \<open>\<open>result.update(v)\<close>; the second component: it raises (\<open>TypeError\<close> or \<open>ValueError\<close>)\<close>
  "update_result v a = (case v of
     JObj d \<Rightarrow> (update_fields d a, False)
   | JList xs \<Rightarrow> update_pairs xs a
   | JStr s \<Rightarrow> (a, s \<noteq> [])
   | _ \<Rightarrow> (a, True))"

definition bytes_hex :: "bytes \<Rightarrow> string" where
  "bytes_hex p = concat (map (\<lambda>b. [hex_digit (unat b div 16), hex_digit (unat b mod 16)]) p)"

definition handle_frame :: "(bytes \<Rightarrow> json option) \<Rightarrow> frame \<Rightarrow> wake_state \<Rightarrow> wake_state \<times> bool" where
  \<comment> \<open>the body of the loop in \<open>on_notify\<close>\<close>
  "handle_frame loads f s = (case f of (msg_id, payload) \<Rightarrow>
     if msg_id = MSG_ID_NETWORK_START then
       (case loads payload of
          Some v \<Rightarrow> (case update_result v (ws_result s) of (a, raised) \<Rightarrow>
            (s\<lparr>ws_result := a, ws_got := ws_got s \<or> \<not> raised\<rparr>, raised))
        | None \<Rightarrow> (s\<lparr>ws_result := answer_set (JStr ''_raw'') (JStr (bytes_hex payload)) (ws_result s),
                     ws_got := True\<rparr>, False))
     else (s, False))"

fun handle_frames :: "(bytes \<Rightarrow> json option) \<Rightarrow> frame list \<Rightarrow> wake_state \<Rightarrow> wake_state \<times> bool" where
  "handle_frames loads [] s = (s, False)"
| "handle_frames loads (f # fs) s = (case handle_frame loads f s of
     (s', raised) \<Rightarrow> if raised then (s', True) else handle_frames loads fs s')"

definition on_notify :: "(bytes \<Rightarrow> json option) \<Rightarrow> bytes \<Rightarrow> wake_state \<Rightarrow> wake_state \<times> bool" where
  "on_notify loads packet s =
     (let buf = ws_buf s @ packet in
      case handle_frames loads (fst (parse_frames buf)) (s\<lparr>ws_buf := buf\<rparr>) of
        (s', raised) \<Rightarrow> if raised then (s', True) else (s'\<lparr>ws_buf := retrim buf\<rparr>, False))"

definition notified :: "(bytes \<Rightarrow> json option) \<Rightarrow> bytes list \<Rightarrow> wake_state \<Rightarrow> wake_state" where
  \<comment> \<open>the event loop delivers one packet after the other\<close>
  "notified loads packets s = fold (\<lambda>p s. fst (on_notify loads p s)) packets s"

section \<open>Finding and waking the camera\<close>

record ble_device =
  dev_address :: string
  dev_name :: "string option"
  dev_services :: "string list option"

definition is_cam :: "ble_device \<Rightarrow> bool" where
  "is_cam d \<longleftrightarrow> lower SERVICE_UUID \<in> set (map lower (case dev_services d of None \<Rightarrow> [] | Some us \<Rightarrow> us))"

definition named_cam :: "ble_device \<Rightarrow> bool" where
  "named_cam d \<longleftrightarrow> truthy (dev_name d) \<and> contains_str ''cam'' (lower (opt_str (dev_name d)))"

fun scan_devices :: "string option \<Rightarrow> ble_device list \<Rightarrow> (ble_device \<times> bool) list \<Rightarrow> ble_device + (ble_device \<times> bool) list" where
  "scan_devices wanted [] hits = Inr hits"
| "scan_devices wanted (d # ds) hits =
     (if truthy wanted \<and> lower (dev_address d) = lower (opt_str wanted) then Inl d
      else scan_devices wanted ds (if is_cam d \<or> named_cam d then hits @ [(d, is_cam d)] else hits))"

definition find_camera :: "string option \<Rightarrow> ble_device list \<Rightarrow> ble_device option \<times> (ble_device \<times> bool) list" where
  \<comment> \<open>the device, and the candidates it lists on the way\<close>
  "find_camera wanted devices = (case scan_devices wanted devices [] of
     Inl d \<Rightarrow> (Some d, [])
   | Inr hits \<Rightarrow> (let hits = sort_key (\<lambda>h. \<not> snd h) hits in
       (case hits of [] \<Rightarrow> None | h # _ \<Rightarrow> Some (fst h), hits)))"

datatype gatt_request = Start_Notify string | Write_Char string bytes bool | Stop_Notify string

datatype report = Credentials json "json option" "json option" | Full_Payload answer

datatype wake_outcome = Listed | No_Camera | No_Answer | Responded json string report | Unhashable_Ret

definition RET_MEANING :: "(int \<times> string) list" where
  "RET_MEANING = [(0, ''success''), (-1, ''battery low''), (-2, ''wifi failed''),
                  (-4, ''powered off''), (-100, ''unknown error'')]"

definition ret_meaning :: "json \<Rightarrow> string" where
  \<comment> \<open>\<open>RET_MEANING.get(ret, '?')\<close> for a hashable \<open>ret\<close>\<close>
  "ret_meaning ret = (case number_of ret of None \<Rightarrow> ''?''
     | Some x \<Rightarrow> (case map_of (map (\<lambda>(i, s). (of_int i, s)) RET_MEANING) x of None \<Rightarrow> ''?'' | Some s \<Rightarrow> s))"

definition report_result :: "answer \<Rightarrow> wake_outcome" where
  "report_result a =
     (let ret = (case answer_get a (JStr ''ret'') of None \<Rightarrow> JInt 0 | Some v \<Rightarrow> v) in
      if \<not> hashable ret then Unhashable_Ret
      else Responded ret (ret_meaning ret)
        (case answer_get a (JStr ''ssid'') of
           Some ssid \<Rightarrow> if number_of ret = Some 0 \<and> py_true ssid
             then Credentials ssid (answer_get a (JStr ''pwd'')) (answer_get a (JStr ''bssid''))
             else Full_Payload a
         | None \<Rightarrow> Full_Payload a))"

definition wake :: "(bytes \<Rightarrow> json option) \<Rightarrow> string option \<Rightarrow> bool \<Rightarrow> ble_device list \<Rightarrow> bytes list \<Rightarrow> bytes list \<Rightarrow>
    gatt_request list \<times> wake_outcome" where
  \<comment> \<open>\<open>waiting\<close> are the packets of the 45 seconds or until the answer is there, \<open>stopping\<close> those that still
      arrive before \<open>stop_notify\<close> has taken effect\<close>
  "wake loads wanted scan_only devices waiting stopping =
     (case fst (find_camera wanted devices) of
        None \<Rightarrow> ([], if scan_only then Listed else No_Camera)
      | Some d \<Rightarrow>
          if scan_only then ([], Listed)
          else let asked = [Start_Notify NOTIFY_UUID, Write_Char WRITE_UUID WAKE_CMD True];
                   s = notified loads waiting new_wake_state in
            if \<not> ws_got s then (asked, No_Answer)
            else (asked @ [Stop_Notify NOTIFY_UUID], report_result (ws_result (notified loads stopping s))))"

section \<open>Encoding\<close>

text \<open>The frames as the camera writes them: magic, identifier, length, payload.\<close>

definition pack_H :: "nat \<Rightarrow> bytes" where
  "pack_H n = [word_of_nat n, word_of_nat (n div 256)]"

definition pack_I :: "nat \<Rightarrow> bytes" where
  "pack_I n = pack_H n @ pack_H (n div 65536)"

definition encode :: "frame \<Rightarrow> bytes" where
  "encode f = [0x13, 0x57] @ pack_H (fst f) @ pack_I (length (snd f)) @ snd f"

definition encode_all :: "frame list \<Rightarrow> bytes" where
  "encode_all fs = concat (map encode fs)"

definition sendable :: "frame \<Rightarrow> bool" where
  "sendable f \<longleftrightarrow> fst f < 2 ^ 16 \<and> length (snd f) < 2 ^ 32"

definition unfinished :: "bytes \<Rightarrow> bool" where
  \<comment> \<open>the start of a frame that is not complete\<close>
  "unfinished b \<longleftrightarrow> length b < 8 \<or> b ! 0 = 0x13 \<and> b ! 1 = 0x57 \<and> length b < 8 + unpack_I b 4"

lemma encode_all_simps [simp]:
  "encode_all [] = []" "encode_all (f # fs) = encode f @ encode_all fs"
  "encode_all (fs @ gs) = encode_all fs @ encode_all gs"
  by (simp_all add: encode_all_def)

lemma length_pack [simp]: "length (pack_H n) = 2" "length (pack_I n) = 4"
  by (simp_all add: pack_H_def pack_I_def)

lemma length_encode: "length (encode f) = 8 + length (snd f)"
  by (simp add: encode_def)

lemma unpack_H_pack: "n < 65536 \<Longrightarrow> unpack_H (a @ pack_H n @ r) (length a) = n"
  by (simp add: unpack_H_def pack_H_def nth_append unat_of_nat)

lemma unpack_I_pack: "n < 2 ^ 32 \<Longrightarrow> unpack_I (a @ pack_I n @ r) (length a) = n"
proof -
  assume "n < 2 ^ 32"
  then have high: "n div 65536 < 65536" by simp
  have low: "unpack_H (a @ pack_H n @ s) (length a) = n mod 65536" for s
    by (simp add: unpack_H_def pack_H_def nth_append unat_of_nat) (simp add: mod_mult2_eq [of n 256 256, simplified])
  from unpack_H_pack [OF high, of "a @ pack_H n" r] low [of "pack_H (n div 65536) @ r"] show ?thesis
    by (simp add: unpack_I_def pack_I_def)
qed

lemma encode_fields:
  assumes "sendable f"
  shows "(a @ encode f @ r) ! length a = 0x13" "(a @ encode f @ r) ! (length a + 1) = 0x57"
    "unpack_H (a @ encode f @ r) (length a + 2) = fst f"
    "unpack_I (a @ encode f @ r) (length a + 4) = length (snd f)"
    "take (length (snd f)) (drop (length a + 8) (a @ encode f @ r)) = snd f"
proof -
  show "(a @ encode f @ r) ! length a = 0x13" "(a @ encode f @ r) ! (length a + 1) = 0x57"
    by (simp_all add: encode_def nth_append)
  show "unpack_H (a @ encode f @ r) (length a + 2) = fst f"
    using unpack_H_pack [of "fst f" "a @ [0x13, 0x57]" "pack_I (length (snd f)) @ snd f @ r"] assms
    by (simp add: encode_def sendable_def)
  show "unpack_I (a @ encode f @ r) (length a + 4) = length (snd f)"
    using unpack_I_pack [of "length (snd f)" "a @ [0x13, 0x57] @ pack_H (fst f)" "snd f @ r"] assms
    by (simp add: encode_def sendable_def)
  show "take (length (snd f)) (drop (length a + 8) (a @ encode f @ r)) = snd f"
    by (simp add: encode_def)
qed

lemma parse_frame:
  assumes "sendable f"
  shows "parse_from (a @ encode f @ r) (length a) c =
    (case parse_from (a @ encode f @ r) (length (a @ encode f)) (length (a @ encode f)) of (fs, n) \<Rightarrow> (f # fs, n))"
  using encode_fields [OF assms, of a r]
  by (subst parse_from.simps) (simp add: length_encode add.assoc split: prod.splits)

lemma retrim_frame:
  assumes "sendable f"
  shows "retrim_from (a @ encode f @ r) (length a) = retrim_from (a @ encode f @ r) (length (a @ encode f))"
  using encode_fields [OF assms, of a r]
  by (subst retrim_from.simps) (simp add: length_encode add.assoc)

lemma shifted_reads:
  "unpack_I (a @ b) (length a + i) = unpack_I b i" "(a @ b) ! (length a + i) = b ! i"
proof -
  have read: "(a @ b) ! (length a + k) = b ! k" for k by (simp add: nth_append)
  then show "(a @ b) ! (length a + i) = b ! i" .
  show "unpack_I (a @ b) (length a + i) = unpack_I b i"
    unfolding unpack_I_def unpack_H_def by (simp only: read add.assoc)
qed

lemma parse_unfinished:
  assumes "unfinished b"
  shows "parse_from (a @ b) (length a) (length a) = ([], length a)" "retrim_from (a @ b) (length a) = length a"
  using assms shifted_reads [of a b 0] shifted_reads [of a b 1] shifted_reads [of a b 4]
  by (subst parse_from.simps retrim_from.simps, auto simp: unfinished_def)+

lemma parse_stream:
  assumes "list_all sendable fs" "unfinished b"
  shows "parse_from (a @ encode_all fs @ b) (length a) (length a) = (fs, length (a @ encode_all fs)) \<and>
         retrim_from (a @ encode_all fs @ b) (length a) = length (a @ encode_all fs)"
  using assms(1)
proof (induction fs arbitrary: a)
  case Nil
  with parse_unfinished [OF assms(2)] show ?case by simp
next
  case (Cons f fs)
  then have f: "sendable f" and IH: "list_all sendable fs" by auto
  from parse_frame [OF f, of a "encode_all fs @ b" "length a"] retrim_frame [OF f, of a "encode_all fs @ b"]
    Cons.IH [OF IH, of "a @ encode f"]
  show ?case by simp
qed

lemma stream_is_parsed:
  assumes "list_all sendable fs" "unfinished b"
  shows "fst (parse_frames (encode_all fs @ b)) = fs" "snd (parse_frames (encode_all fs @ b)) = length (encode_all fs)"
    "retrim (encode_all fs @ b) = b"
  using parse_stream [OF assms, of "[]"] by (simp_all add: parse_frames_def retrim_def)

section \<open>Packets\<close>

text \<open>However a stream of frames is cut, what has arrived is whole frames and the start of one more.\<close>

lemma unfinished_Nil: "unfinished []"
  by (simp add: unfinished_def)

lemma unfinished_prefix:
  assumes "unfinished (b @ c)"
  shows "unfinished b"
proof (cases "length b < 8")
  case False
  then have "unpack_I (b @ c) 4 = unpack_I b 4" by (simp add: unpack_I_def unpack_H_def nth_append)
  with False assms show ?thesis by (auto simp: unfinished_def nth_append split: if_splits)
qed (simp add: unfinished_def)

lemma cut_frame_unfinished:
  assumes "sendable f" "encode f = b @ c" "c \<noteq> []"
  shows "unfinished b"
proof (cases "length b < 8")
  case False
  note fields = encode_fields [OF assms(1), of "[]" "[]"]
  from False have "unpack_I (b @ c) 4 = unpack_I b 4" by (simp add: unpack_I_def unpack_H_def nth_append)
  moreover have "length b < 8 + length (snd f)" using assms(2,3) length_encode [of f] by (cases c) auto
  moreover have "b ! 0 = 0x13" "b ! 1 = 0x57" using False fields assms(2) by (auto simp: nth_append split: if_splits)
  ultimately show ?thesis using fields assms(2) by (simp add: unfinished_def)
qed (simp add: unfinished_def)

lemma whole_frame_not_unfinished:
  assumes "sendable f" "unfinished b"
  shows "b \<noteq> encode f @ r"
  using encode_fields [OF assms(1), of "[]" r] assms(2) by (auto simp: unfinished_def length_encode)

lemma stream_prefix:
  assumes "list_all sendable fs" "unfinished t" "b @ c = encode_all fs @ t"
  shows "\<exists>gs hs u. fs = gs @ hs \<and> b = encode_all gs @ u \<and> unfinished u \<and> u @ c = encode_all hs @ t"
  using assms(1,3)
proof (induction fs arbitrary: b)
  case Nil
  then have "b = encode_all [] @ b" "unfinished b" "b @ c = encode_all [] @ t"
    using assms(2) unfinished_prefix [of b c] by auto
  then show ?case by blast
next
  case (Cons f fs)
  then have f: "sendable f" and fs: "list_all sendable fs" by auto
  from Cons.prems(2) have "b @ c = encode f @ (encode_all fs @ t)" by simp
  then consider (later) b' where "b = encode f @ b'" "b' @ c = encode_all fs @ t"
    | (cut) c' where "encode f = b @ c'" "c' \<noteq> []"
    using append_eq_append_conv2 [of b c "encode f" "encode_all fs @ t"]
    by (metis append_Nil2 append_self_conv2)
  then show ?case
  proof cases
    case later
    from Cons.IH [OF fs later(2)] obtain gs hs u where "fs = gs @ hs" "b' = encode_all gs @ u" "unfinished u"
      "u @ c = encode_all hs @ t" by blast
    with later(1) have "f # fs = (f # gs) @ hs" "b = encode_all (f # gs) @ u" by auto
    with \<open>unfinished u\<close> \<open>u @ c = encode_all hs @ t\<close> show ?thesis by blast
  next
    case cut
    from cut_frame_unfinished [OF f cut] have "unfinished b" .
    with Cons.prems(2) have "f # fs = [] @ (f # fs)" "b = encode_all [] @ b" "b @ c = encode_all (f # fs) @ t" by auto
    with \<open>unfinished b\<close> show ?thesis by blast
  qed
qed

fun delivered :: "bytes \<Rightarrow> bytes list \<Rightarrow> frame list" where
  \<comment> \<open>the frames that are yielded, over all packets\<close>
  "delivered buf [] = []"
| "delivered buf (p # ps) = fst (parse_frames (buf @ p)) @ delivered (retrim (buf @ p)) ps"

fun left_over :: "bytes \<Rightarrow> bytes list \<Rightarrow> bytes" where
  "left_over buf [] = buf"
| "left_over buf (p # ps) = left_over (retrim (buf @ p)) ps"

lemma packets_reassembled:
  assumes "list_all sendable fs" "unfinished t" "unfinished buf" "buf @ concat packets = encode_all fs @ t"
  shows "delivered buf packets = fs \<and> left_over buf packets = t"
  using assms(1,3,4)
proof (induction packets arbitrary: buf fs)
  case Nil
  then show ?case using whole_frame_not_unfinished [of _ buf] by (cases fs) auto
next
  case (Cons p ps)
  from Cons.prems(3) have "(buf @ p) @ concat ps = encode_all fs @ t" by simp
  from stream_prefix [OF Cons.prems(1) assms(2) this] obtain gs hs u where parts: "fs = gs @ hs"
    "buf @ p = encode_all gs @ u" "unfinished u" "u @ concat ps = encode_all hs @ t" by blast
  with Cons.prems(1) have gs: "list_all sendable gs" and hs: "list_all sendable hs" by auto
  from Cons.IH [OF hs parts(3,4)] stream_is_parsed [OF gs parts(3)] parts(1,2) show ?case by simp
qed

lemma handle_frame_buf: "handle_frame loads f (s\<lparr>ws_buf := b\<rparr>) =
   (case handle_frame loads f s of (s', r) \<Rightarrow> (s'\<lparr>ws_buf := b\<rparr>, r))"
  by (simp add: handle_frame_def split: prod.splits option.splits)

lemma handle_frames_buf: "handle_frames loads fs (s\<lparr>ws_buf := b\<rparr>) =
   (case handle_frames loads fs s of (s', r) \<Rightarrow> (s'\<lparr>ws_buf := b\<rparr>, r))"
  by (induction fs arbitrary: s) (auto simp: handle_frame_buf split: prod.splits)

definition acceptable :: "(bytes \<Rightarrow> json option) \<Rightarrow> frame \<Rightarrow> bool" where
  \<comment> \<open>an answer is an object, or no JSON at all\<close>
  "acceptable loads f \<longleftrightarrow> fst f \<noteq> MSG_ID_NETWORK_START \<or>
     (case loads (snd f) of None \<Rightarrow> True | Some (JObj d) \<Rightarrow> True | Some _ \<Rightarrow> False)"

lemma acceptable_handled: "acceptable loads f \<Longrightarrow> \<not> snd (handle_frame loads f s)"
  by (auto simp: acceptable_def handle_frame_def update_result_def split: prod.splits option.splits json.splits)

definition collect_frames :: "(bytes \<Rightarrow> json option) \<Rightarrow> frame list \<Rightarrow> wake_state \<Rightarrow> wake_state" where
  "collect_frames loads fs s = fold (\<lambda>f s. fst (handle_frame loads f s)) fs s"

lemma collect_handled: "list_all (acceptable loads) fs \<Longrightarrow> handle_frames loads fs s = (collect_frames loads fs s, False)"
proof (induction fs arbitrary: s)
  case (Cons f fs)
  then have "\<not> snd (handle_frame loads f s)" using acceptable_handled by simp
  with Cons show ?case by (cases "handle_frame loads f s") (auto simp: collect_frames_def)
qed (simp add: collect_frames_def)

lemma collect_frames_simps [simp]:
  "collect_frames loads [] s = s" "collect_frames loads (f # fs) s = collect_frames loads fs (fst (handle_frame loads f s))"
  "collect_frames loads (fs @ gs) s = collect_frames loads gs (collect_frames loads fs s)"
  by (simp_all add: collect_frames_def)

lemma collect_buf: "collect_frames loads fs (s\<lparr>ws_buf := b\<rparr>) = (collect_frames loads fs s)\<lparr>ws_buf := b\<rparr>"
  by (induction fs arbitrary: s) (simp_all add: handle_frame_buf split: prod.splits)

lemma notified_collects:
  "list_all (acceptable loads) (delivered (ws_buf s) packets) \<Longrightarrow>
   notified loads packets s = (collect_frames loads (delivered (ws_buf s) packets) s)\<lparr>ws_buf := left_over (ws_buf s) packets\<rparr>"
proof (induction packets arbitrary: s)
  case Nil
  then show ?case by (simp add: notified_def)
next
  case (Cons p ps)
  let ?fs = "fst (parse_frames (ws_buf s @ p))"
  let ?s = "(collect_frames loads ?fs s)\<lparr>ws_buf := retrim (ws_buf s @ p)\<rparr>"
  from Cons.prems have "list_all (acceptable loads) ?fs" by simp
  from collect_handled [OF this] have step: "fst (on_notify loads p s) = ?s"
    by (simp add: on_notify_def handle_frames_buf Let_def)
  with Cons.IH [of ?s] Cons.prems collect_buf show ?case by (simp add: notified_def)
qed

lemma collect_got: "list_all (acceptable loads) fs \<Longrightarrow>
   ws_got (collect_frames loads fs s) \<longleftrightarrow> ws_got s \<or> (\<exists>f \<in> set fs. fst f = MSG_ID_NETWORK_START)"
proof (induction fs arbitrary: s)
  case (Cons f fs)
  then have "\<not> snd (handle_frame loads f s)" using acceptable_handled by simp
  then have "ws_got (fst (handle_frame loads f s)) \<longleftrightarrow> ws_got s \<or> fst f = MSG_ID_NETWORK_START"
    by (auto simp: handle_frame_def split: prod.splits option.splits)
  with Cons show ?case by auto
qed simp

section \<open>What goes wrong\<close>

text \<open>An answer that is JSON but nothing \<open>dict.update\<close> takes stays in the buffer and hides every later one.\<close>

definition refused :: "(bytes \<Rightarrow> json option) \<Rightarrow> frame \<Rightarrow> bool" where
  "refused loads f \<longleftrightarrow> fst f = MSG_ID_NETWORK_START \<and>
     (case loads (snd f) of Some (JList xs) \<Rightarrow> False | Some (JObj d) \<Rightarrow> False | None \<Rightarrow> False
      | Some (JStr s) \<Rightarrow> s \<noteq> [] | Some v \<Rightarrow> True)"

lemma refused_raises: "refused loads f \<Longrightarrow> handle_frame loads f s = (s, True)"
  by (auto simp: refused_def handle_frame_def update_result_def split: prod.splits option.splits json.splits)

lemma refused_answer_hides_the_rest:
  assumes "sendable f" "refused loads f"
  shows "notified loads packets (s\<lparr>ws_buf := encode f @ r\<rparr>) = s\<lparr>ws_buf := encode f @ r @ concat packets\<rparr>"
proof (induction packets arbitrary: r)
  case (Cons p ps)
  from parse_frame [OF assms(1), of "[]" "r @ p" 0]
  have "fst (parse_frames (encode f @ r @ p)) = f # fst (parse_from (encode f @ r @ p) (length (encode f)) (length (encode f)))"
    by (simp add: parse_frames_def split: prod.splits)
  then have "fst (on_notify loads p (s\<lparr>ws_buf := encode f @ r\<rparr>)) = s\<lparr>ws_buf := encode f @ r @ p\<rparr>"
    using refused_raises [OF assms(2)] by (simp add: on_notify_def)
  with Cons [of "r @ p"] show ?case by (simp add: notified_def)
qed (simp add: notified_def)

text \<open>Once a byte that starts no frame is at the front, nothing is dropped any more.\<close>

lemma stray_byte_is_never_dropped:
  assumes "b \<noteq> 0x13"
  shows "ws_buf (notified loads packets (s\<lparr>ws_buf := b # r\<rparr>)) = b # r @ concat packets"
proof (induction packets arbitrary: s r)
  case (Cons p ps)
  have "retrim (b # r @ p) = b # r @ p"
    using assms by (simp add: retrim_def) (subst retrim_from.simps, simp)
  then have "ws_buf (fst (on_notify loads p (s\<lparr>ws_buf := b # r\<rparr>))) = b # r @ p"
    by (simp add: on_notify_def handle_frames_buf Let_def split: prod.splits)
  then have "fst (on_notify loads p (s\<lparr>ws_buf := b # r\<rparr>))
      = (fst (on_notify loads p (s\<lparr>ws_buf := b # r\<rparr>)))\<lparr>ws_buf := b # r @ p\<rparr>"
    by (cases "fst (on_notify loads p (s\<lparr>ws_buf := b # r\<rparr>))") simp
  with Cons [where r = "r @ p"] show ?case by (simp add: notified_def) (metis append.assoc)
qed (simp add: notified_def)

section \<open>The chosen camera\<close>

definition has_address :: "string option \<Rightarrow> ble_device \<Rightarrow> bool" where
  "has_address wanted d \<longleftrightarrow> truthy wanted \<and> lower (dev_address d) = lower (opt_str wanted)"

lemma scan_devices_found:
  "scan_devices wanted devices hits = (case List.find (has_address wanted) devices of
     Some d \<Rightarrow> Inl d
   | None \<Rightarrow> Inr (hits @ map (\<lambda>d. (d, is_cam d)) (filter (\<lambda>d. is_cam d \<or> named_cam d) devices)))"
  by (induction devices arbitrary: hits) (auto simp: has_address_def split: option.splits)

lemma sort_key_flag: "sort_key (\<lambda>h. \<not> P h) xs = filter P xs @ filter (\<lambda>h. \<not> P h) xs"
proof -
  have ins: "insort_key (\<lambda>h. \<not> P h) x (filter P xs @ filter (\<lambda>h. \<not> P h) xs) =
      filter P (x # xs) @ filter (\<lambda>h. \<not> P h) (x # xs)" for x xs
  proof -
    have "insort_key (\<lambda>h. \<not> P h) x (as @ bs) = (if P x then x # as @ bs else as @ x # bs)"
      if "\<forall>a \<in> set as. P a" "\<forall>b \<in> set bs. \<not> P b" for as bs
      using that by (induction as) (cases bs, auto)+
    then show ?thesis by auto
  qed
  show ?thesis by (induction xs) (simp_all add: ins [simplified])
qed

lemma find_camera_chooses:
  "fst (find_camera wanted devices) = (case List.find (has_address wanted) devices of
     Some d \<Rightarrow> Some d
   | None \<Rightarrow> (case List.find is_cam devices of Some d \<Rightarrow> Some d | None \<Rightarrow> List.find named_cam devices))"
proof -
  let ?hits = "map (\<lambda>d. (d, is_cam d)) (filter (\<lambda>d. is_cam d \<or> named_cam d) devices)"
  have flags: "(p \<or> q) \<and> p \<longleftrightarrow> p" "(p \<or> q) \<and> \<not> p \<longleftrightarrow> \<not> p \<and> q" for p q by auto
  have "sort_key (\<lambda>h. \<not> snd h) ?hits = map (\<lambda>d. (d, is_cam d))
      (filter is_cam devices @ filter (\<lambda>d. \<not> is_cam d \<and> named_cam d) devices)"
    by (simp add: sort_key_flag filter_map comp_def flags)
  moreover have find: "List.find P ds = (case filter P ds of [] \<Rightarrow> None | d # _ \<Rightarrow> Some d)"
    for P and ds :: "ble_device list" by (induction ds) auto
  moreover have "filter (\<lambda>d. \<not> is_cam d \<and> named_cam d) devices = filter named_cam devices" if "filter is_cam devices = []"
    using that by (intro filter_cong) (auto simp: filter_empty_conv)
  ultimately have "(case sort_key (\<lambda>h. \<not> snd h) ?hits of [] \<Rightarrow> None | h # _ \<Rightarrow> Some (fst h))
    = (case List.find is_cam devices of Some d \<Rightarrow> Some d | None \<Rightarrow> List.find named_cam devices)"
    by (cases "filter is_cam devices"; cases "filter named_cam devices") simp_all
  then show ?thesis by (simp add: find_camera_def scan_devices_found split: option.splits)
qed

section \<open>The whole exchange\<close>

definition take_answer :: "(bytes \<Rightarrow> json option) \<Rightarrow> frame \<Rightarrow> answer \<Rightarrow> answer" where
  "take_answer loads f a =
     (if fst f \<noteq> MSG_ID_NETWORK_START then a
      else case loads (snd f) of
        Some (JObj d) \<Rightarrow> update_fields d a
      | _ \<Rightarrow> answer_set (JStr ''_raw'') (JStr (bytes_hex (snd f))) a)"

definition answers :: "(bytes \<Rightarrow> json option) \<Rightarrow> frame list \<Rightarrow> answer" where
  \<comment> \<open>the fields of all answers, the later ones over the earlier; the bytes of one that is no JSON\<close>
  "answers loads fs = fold (take_answer loads) fs []"

lemma handle_frame_takes: "acceptable loads f \<Longrightarrow>
   ws_result (fst (handle_frame loads f s)) = take_answer loads f (ws_result s)"
  by (auto simp: acceptable_def handle_frame_def take_answer_def update_result_def split: prod.splits option.splits json.splits)

lemma collect_answers:
  "list_all (acceptable loads) fs \<Longrightarrow> ws_result (collect_frames loads fs new_wake_state) = answers loads fs"
  by (induction fs rule: rev_induct) (simp_all add: handle_frame_takes answers_def new_wake_state_def)

lemma wake_command_is_a_frame: "WAKE_CMD = encode (MSG_ID_NETWORK_START, [])"
  by (simp add: WAKE_CMD_def encode_def pack_I_def pack_H_def MSG_ID_NETWORK_START_def)


definition demo_loads :: "bytes \<Rightarrow> json option" where
  "demo_loads p = (if p = [0x7B, 0x7D] then Some (JObj [(''ret'', JInt 0), (''ssid'', JStr ''TC'')]) else None)"

definition demo_camera :: ble_device where
  "demo_camera = \<lparr>dev_address = ''AA:01'', dev_name = Some ''TrailCam'', dev_services = None\<rparr>"

lemma demo_camera_found: "fst (find_camera w [demo_camera]) = Some demo_camera"
proof -
  have "named_cam demo_camera" by code_simp
  then show ?thesis by (simp add: find_camera_chooses)
qed


text \<open>A wanted address that is not there does not stop the tool from waking another camera.\<close>

lemma other_camera_is_woken: "has_address (Some ''BB:02'') demo_camera = False \<and>
    fst (find_camera (Some ''BB:02'') [demo_camera]) = Some demo_camera"
  using demo_camera_found by (simp add: has_address_def demo_camera_def, code_simp)

end
