(* ===== verification/Arlink_Crypto.thy ===== *)
theory Arlink_Crypto
  imports Trail_Camera
begin

text \<open>
  \<open>src/image/profiles/trailcam-test/overlay/opt/tcam/arlink_crypto.py\<close>: the encryption of the camera's commands.
  AES in CBC mode is a library (pycryptodome): \<open>enc key iv data\<close> and \<open>dec key iv data\<close> are arguments. What the
  code relies on is \<open>cbc_contract\<close>: on whole blocks, \<open>enc\<close> keeps the length and \<open>dec\<close> undoes it.
\<close>

section \<open>The code\<close>

type_synonym cipher = "bytes \<Rightarrow> bytes \<Rightarrow> bytes \<Rightarrow> bytes"

definition bytes_of :: "string \<Rightarrow> bytes" where
  \<comment> \<open>a bytes literal\<close>
  "bytes_of s = map (\<lambda>c. word_of_nat (of_char c)) s"

definition KEY :: bytes where
  "KEY = bytes_of ''xs38nul7cqf7m1va''"

definition IV :: bytes where
  "IV = replicate 16 0"

definition pad_zero :: "bytes \<Rightarrow> bytes" where
  "pad_zero data = (if length data mod 16 \<noteq> 0 then data @ replicate (16 - length data mod 16) 0 else data)"

definition rstrip_zero :: "bytes \<Rightarrow> bytes" where
  \<comment> \<open>\<open>bytes.rstrip(b"\0")\<close>\<close>
  "rstrip_zero data = rev (dropWhile (\<lambda>b. b = 0) (rev data))"

definition encrypt_cmd :: "cipher \<Rightarrow> bytes \<Rightarrow> bytes" where
  "encrypt_cmd enc plaintext = enc KEY IV (pad_zero plaintext)"

definition decrypt_cmd :: "cipher \<Rightarrow> bytes \<Rightarrow> bytes result" where
  "decrypt_cmd dec ciphertext =
     (if length ciphertext mod 16 \<noteq> 0
      then Inl (ValueError (''ciphertext not a multiple of 16: '' @ str_of_nat (length ciphertext)))
      else Inr (rstrip_zero (dec KEY IV ciphertext)))"

definition cbc_contract :: "cipher \<Rightarrow> cipher \<Rightarrow> bool" where
  "cbc_contract enc dec \<longleftrightarrow> (\<forall>key iv m. length key = 16 \<and> length iv = 16 \<and> 16 dvd length m
     \<longrightarrow> length (enc key iv m) = length m \<and> dec key iv (enc key iv m) = m)"

section \<open>Padding\<close>

lemma length_pad_zero: "16 dvd length (pad_zero m)" "length m \<le> length (pad_zero m)" "length (pad_zero m) < length m + 16"
proof -
  have "16 dvd n + (16 - n mod 16)" if "n mod 16 \<noteq> 0" for n :: nat using that by presburger
  then show "16 dvd length (pad_zero m)" by (auto simp: pad_zero_def)
qed (auto simp: pad_zero_def)

lemma pad_zero_appends: "\<exists>n. pad_zero m = m @ replicate n 0"
  by (auto simp: pad_zero_def intro: exI [of _ 0])

lemma rstrip_zero_replicate [simp]: "rstrip_zero (m @ replicate n 0) = rstrip_zero m"
proof -
  have "dropWhile (\<lambda>b. b = 0) (replicate n 0 @ r) = dropWhile (\<lambda>b. b = 0) r" for r :: bytes
    by (induction n) simp_all
  then show ?thesis by (simp add: rstrip_zero_def)
qed

lemma rstrip_pad_zero: "rstrip_zero (pad_zero m) = rstrip_zero m"
  using pad_zero_appends [of m] by auto

lemma rstrip_zero_fixed: "rstrip_zero m = m \<longleftrightarrow> m = [] \<or> last m \<noteq> 0"
proof (cases m rule: rev_cases)
  case (snoc a b)
  have "length (rstrip_zero a) \<le> length a" using length_dropWhile_le [of _ "rev a"] by (simp add: rstrip_zero_def)
  with snoc show ?thesis by (auto simp: rstrip_zero_def dest: arg_cong [where f = length])
qed (simp add: rstrip_zero_def)

lemma length_KEY_IV: "length KEY = 16" "length IV = 16"
  by (simp_all add: KEY_def bytes_of_def IV_def)

section \<open>Round trip\<close>

text \<open>C40: A decrypted command is the encrypted one without its trailing zero bytes, so exactly the commands that do not end
  in a zero byte (JSON text never does) come back unchanged; ciphertexts are whole blocks, at most one longer than
  needed, and any other length is refused.\<close>
theorem commands_come_back:
  assumes "cbc_contract enc dec"
  shows "decrypt_cmd dec (encrypt_cmd enc m) = Inr (rstrip_zero m) \<and>
    (decrypt_cmd dec (encrypt_cmd enc m) = Inr m \<longleftrightarrow> m = [] \<or> last m \<noteq> 0) \<and>
    16 dvd length (encrypt_cmd enc m) \<and>
    length m \<le> length (encrypt_cmd enc m) \<and> length (encrypt_cmd enc m) < length m + 16 \<and>
    (is_ok (decrypt_cmd dec c) \<longleftrightarrow> 16 dvd length c)"
proof -
  have law: "length (enc KEY IV (pad_zero m)) = length (pad_zero m)" "dec KEY IV (enc KEY IV (pad_zero m)) = pad_zero m"
    using assms length_KEY_IV length_pad_zero(1) [of m] by (simp_all add: cbc_contract_def)
  then have "decrypt_cmd dec (encrypt_cmd enc m) = Inr (rstrip_zero m)"
    using length_pad_zero(1) [of m] by (simp add: decrypt_cmd_def encrypt_cmd_def rstrip_pad_zero dvd_eq_mod_eq_0)
  then show ?thesis
    using law length_pad_zero [of m] rstrip_zero_fixed [of m]
    by (auto simp: encrypt_cmd_def decrypt_cmd_def dvd_eq_mod_eq_0)
qed

text \<open>The contract can hold: chaining with a block function that adds the key bit by bit.\<close>

definition xor_block :: "bytes \<Rightarrow> bytes \<Rightarrow> bytes" where
  "xor_block a b = map2 xor a b"

function chain_enc :: cipher where
  "chain_enc key iv m = (if m = [] then [] else
     let c = xor_block key (xor_block (take 16 m) iv) in c @ chain_enc key c (drop 16 m))"
  by pat_completeness auto
termination by (relation "measure (\<lambda>(_, _, m). length m)") auto

function chain_dec :: cipher where
  "chain_dec key iv c = (if c = [] then [] else
     xor_block (xor_block key (take 16 c)) iv @ chain_dec key (take 16 c) (drop 16 c))"
  by pat_completeness auto
termination by (relation "measure (\<lambda>(_, _, m). length m)") auto

declare chain_enc.simps [simp del] chain_dec.simps [simp del]

lemma xor_block_undone:
  "length a = 16 \<Longrightarrow> length b = 16 \<Longrightarrow> length c = 16 \<Longrightarrow> xor_block (xor_block a (xor_block a (xor_block b c))) c = b"
  by (rule nth_equalityI) (simp_all add: xor_block_def xor.assoc flip: xor.assoc [of "a ! _" "a ! _"])

lemma chain_undone:
  "length key = 16 \<Longrightarrow> length iv = 16 \<Longrightarrow> 16 dvd length m \<Longrightarrow>
   length (chain_enc key iv m) = length m \<and> chain_dec key iv (chain_enc key iv m) = m"
proof (induction key iv m rule: chain_enc.induct)
  case (1 key iv m)
  show ?case
  proof (cases "m = []")
    case False
    let ?c = "xor_block key (xor_block (take 16 m) iv)"
    from False 1(4) have m: "16 \<le> length m" by (auto dest: dvd_imp_le)
    with 1(2,3) have c: "length ?c = 16" by (simp add: xor_block_def)
    from 1(4) have "16 dvd length (drop 16 m)" by (simp add: dvd_diff_nat)
    from 1(1) [OF False refl 1(2) c this] have rest: "length (chain_enc key ?c (drop 16 m)) = length m - 16"
      "chain_dec key ?c (chain_enc key ?c (drop 16 m)) = drop 16 m" by simp_all
    have enc: "chain_enc key iv m = ?c @ chain_enc key ?c (drop 16 m)"
      using False by (subst chain_enc.simps) (simp add: Let_def)
    have "chain_dec key iv (?c @ s) = xor_block (xor_block key ?c) iv @ chain_dec key ?c s" for s
      using c by (subst chain_dec.simps) auto
    with enc rest m c 1(2,3) xor_block_undone [of key "take 16 m" iv] show ?thesis by simp
  qed (simp add: chain_enc.simps chain_dec.simps)
qed

theorem commands_come_back_witness:
  "cbc_contract chain_enc chain_dec \<and>
   decrypt_cmd chain_dec (encrypt_cmd chain_enc (bytes_of ''{}'')) = Inr (bytes_of ''{}'')"
proof -
  have contract: "cbc_contract chain_enc chain_dec" by (simp add: cbc_contract_def chain_undone)
  with commands_come_back [OF contract, of "bytes_of ''{}''" "[]"] show ?thesis by (simp add: bytes_of_def rstrip_zero_def)
qed

end
