(* ===== verification/Spec2Isabelle.thy ===== *)
theory Spec2Isabelle
  imports Boot_Chain Fleet_Server Migrations Tool_Schemas Server_Main Arlink_Crypto
begin

text \<open>
  Fleetboot boots a fleet of machines over the network: it keeps a registry of machines, decides which image each of
  them gets, builds the images, follows every boot, and lends machines out for computing. This development models its
  Python code (\<open>src/fleetboot\<close>, \<open>src/scripts/resolve-profile.py\<close> and the tools of one image profile) and states what
  makes it correct.

  \<^bold>\<open>How the parts interact.\<close> A machine's GRUB asks the TFTP service (\<open>tftp_glue\<close>) for its configuration. The service
  resolves the MAC at the control plane (\<open>server/app.py\<close>), which enrols unknown machines by rule, mints a boot session
  and writes a configuration with the session's token. GRUB and the reporter in the booted image (\<open>reporter\<close>) report
  the stages of the boot, the hardware and the diagnostics under that token; an answer may tell the machine to reboot.
  Administrators work on the same registry through the dashboard (\<open>server/dashboard.py\<close>), agents through JSON-RPC tools
  (\<open>server/mcp.py\<close>). Leases run out and a reaper switches the machines off; a build of a profile rebuilds everything
  that inherits from it and may arm the reboot of the machines that run it.

  \<^bold>\<open>How code is modelled.\<close> A SQLite table is a list of rows in rowid order, and each statement the code runs is a function on
  it; the database is a record of tables (\<open>Fleet_DB\<close>). A method is a function from the state to a result and the new
  state. Every \<open>raise\<close>, early return and HTTP error is a value of a sum type: \<open>exn\<close> for the stores, \<open>http_error\<close> for
  the endpoints, \<open>tool_error\<close> for the tools; an exception nobody catches is a value of its own (\<open>Server_Error\<close>,
  \<open>Uncaught\<close>, \<open>Crash\<close>), so a theorem that something succeeds excludes it. Times are seconds as integers with SQLite's last
  representable second as a bound. Strings are lists of 8-bit characters with Python's operations written out in
  \<open>Py_Strings\<close>. The clock, random tokens and ids, the exit codes and outputs of commands and the answers of servers are
  arguments; so are the packages the code calls (FastAPI, the HTTP client, \<open>tftpjail\<close>, \<open>uvicorn\<close>).

  \<^bold>\<open>The theories.\<close>
  \<^item> \<open>Fleet_Prelude\<close>, \<open>Py_Strings\<close>, \<open>Py_Float\<close>, \<open>Utc_Time\<close>: tables, results, dictionaries, strings, floats, dates; the rewriting collections \<open>table_simps\<close> and
    \<open>wf_intros\<close>.
  \<^item> \<open>Boot_States\<close> (\<open>boot_states.py\<close>), \<open>Hardware_Spec\<close> (\<open>server/hardware_spec.py\<close>): the states of a boot as a linear
    order, and the stable part of an inventory.
  \<^item> \<open>Fleet_DB\<close>, \<open>Registry\<close>, \<open>Reservations\<close>, \<open>Ip_Address\<close>, \<open>Auto_Enrol\<close>, \<open>Registry_Invariant\<close>, \<open>Migrations\<close>
    (\<open>server/registry.py\<close>): the tables and their invariant \<open>wf_db\<close>; machines, events and settings; who holds a machine
    and until when, with the abstract view \<open>hold\<close> that every operation on reservations is described by; rules by MAC
    prefix or network; the invariant for all methods at once, and that leasing never touches a machine somebody else
    holds; opening a database file of an older version.
  \<^item> \<open>Boot_Sessions\<close> (\<open>server/boot_sessions.py\<close>): the in-memory and the database-backed store, both implementations of
    the abstract store of the locale \<open>session_store\<close>.
  \<^item> \<open>Profile_Resolver\<close> (\<open>scripts/resolve-profile.py\<close>), \<open>Build_Cascade\<close>, \<open>Build_Jobs\<close> (\<open>server/build_jobs.py\<close>): the chain
    of a profile, the profiles that must be rebuilt, and the job manager as a step relation. The locale
    \<open>profile_tree\<close> holds what the resolver and the builder share and is interpreted for both ways of reading parents.
  \<^item> \<open>Machine_Power\<close>, \<open>Power_Timeout\<close> (\<open>power_machine\<close> and \<open>power_command_timeout_seconds\<close> of \<open>server/dashboard.py\<close>,
    \<open>server/reservation_reaper.py\<close>): switching machines, alone and in parallel, for how long a command may run, and
    the reaper over the contract \<open>reaper_env\<close>.
  \<^item> \<open>App\<close> (\<open>server/app.py\<close>, \<open>server/grub_event_intercept.py\<close>): the endpoints with their secrets. \<open>Control_Plane\<close>: the
    same endpoints as clients see them, with addresses and JSON bodies; the contracts \<open>minting\<close> and
    \<open>control_plane\<close> that the clients rely on, interpreted for the server.
  \<^item> \<open>Profile_Store\<close>, \<open>Dashboard\<close> (\<open>server/dashboard.py\<close>): the tree of profile files and the pages and forms.
  \<^item> \<open>Bug_Reports\<close> (\<open>server/bug_reports.py\<close>): reports as Markdown files, written and read back.
  \<^item> \<open>Mcp_Docs\<close>, \<open>Mcp\<close>, \<open>Tool_Schemas\<close> (\<open>server/mcp_docs.py\<close>, \<open>server/mcp.py\<close>): the thirty tools, the JSON-RPC dispatcher with its
    two roles, and the schemas the tools advertise. The contract \<open>pool_operations\<close> carries what a caller without the
    admin token may not do.
  \<^item> \<open>Grub_Template\<close>, \<open>Http_Client\<close>, \<open>Tftp_Glue\<close> (\<open>tftp_glue\<close>), \<open>Hardware_Details\<close>, \<open>Reporter\<close> (\<open>reporter\<close>): the boot
    configuration, the HTTP clients, the collectors and the reporter.
  \<^item> \<open>Boot_Chain\<close>, \<open>Fleet_Server\<close>, \<open>Server_Main\<close>: the parts together. A boot from the TFTP request to the delivered image
    and back to the report; the running server as a step relation whose steps (requests, background
    tasks, sweeps, builds, restarts) interleave in any order; the process and when it starts.
  \<^item> \<open>Trail_Camera\<close>, \<open>Arlink_Crypto\<close> (\<open>wake.py\<close> and \<open>arlink_crypto.py\<close> of \<open>image/profiles/trailcam-test\<close>): the camera bench,
    apart from the server: frames over a byte stream that arrives in pieces, and padded encryption of commands.

  \<^bold>\<open>What the theorems show.\<close> Each is marked with the letter C and a number in the theories.
  \<^item> Ownership: reserving takes exactly the first free machines and nobody else's, leases lapse and are reaped
    on time, releasing frees exactly what was asked for; no caller without the admin token ever gets a held
    machine, a profile file or a build; the registry is well-formed and every stored state readable in every
    state the server can reach.
  \<^item> Boots: a boot hangs together from end to end; reports are accepted, stored and answered; the database-backed
    sessions behave like the simple ones and survive a restart; no fact of the inventory is lost; the reporter ends.
  \<^item> Builds: chains and cascades are complete, duplicate-free and in order and agree with each other; one build runs
    at a time, and every build ends and frees the lock; what the profile editor saves is what is built.
  \<^item> Interfaces: secrets gate every route; every JSON-RPC request is answered once; a tool refuses exactly the
    calls whose required arguments do not fit its schema; paths stay inside the profile's overlay; reports of
    bugs read back as filed; a server starts only with its secrets; opening an old database loses nothing; the
    frames of the camera arrive whole, once and in order, and its encrypted commands come back.

  \<^bold>\<open>Bounds and fuel.\<close> No definition carries fuel. A loop or recursion of the code is structural recursion or recursion with a
  measure: the walk over the parents of a profile by the profiles not yet being visited, the cascade by the profiles not yet
  collected or emitted, the pruning of directories by the length of the path, the reporter by whether it has still
  to acknowledge. The bounds of the code (title and description lengths, the cap on open reports, the event limit, the
  size of the diagnostics, the last second of the year 9999, SQLite's 64-bit integers) are kept.

  \<^bold>\<open>Not modelled.\<close> HTML templates and styles; the prose of the documentation topics, the tool descriptions
  and the instructions of \<open>initialize\<close>; routing, escaping and body parsing of FastAPI; the journal mode and indexes of
  SQLite other than the unique one; the log files of builds on disk; file permissions and the resolution of
  symbolic links (an argument); threads, but for the orders in which whole operations can happen; the image
  build itself (make, live-build and shell scripts), deployment files and tests; the Bluetooth stack and AES, which
  are arguments, failing Bluetooth connections and the command lines of the camera tools.
\<close>

end
